(* ===== verification/Vouch_Prelude.thy ===== *)
theory Vouch_Prelude
  imports Main "HOL-Library.Word" "HOL-Library.AList" "HOL-Library.Multiset"
    "HOL-Library.Code_Target_Nat"
begin

text \<open>
  What the components share: the types the model gives to Rust's basic types, the parts of
  Rust's standard library the sources call (string prefixes and suffixes, ASCII case
  folding, iterator searches, hash maps), and generic lemmas about them.

  A Rust string is the list of its UTF-8 bytes (\<^typ>\<open>string\<close>, whose characters are
  bytes), so \<^term>\<open>length s\<close> is \<open>str::len\<close>. An instant is the number of nanoseconds since
  the Unix epoch. A hash map is an association list with distinct keys; where the sources
  iterate over one, the iteration order is an argument, a function that permutes the entries.
\<close>

section \<open>Basic types\<close>

type_synonym u8 = "8 word"
type_synonym u32 = "32 word"
type_synonym bytes = "u8 list"
type_synonym timestamp = int
type_synonym json = string

text \<open>Simplification rules for the model's operations, unfolded together in the component proofs.\<close>

named_theorems string_ops \<open>the operations on strings\<close>

section \<open>Strings\<close>

definition strip_prefix :: "'a list \<Rightarrow> 'a list \<Rightarrow> 'a list option" where
  "strip_prefix p s = (if take (length p) s = p then Some (drop (length p) s) else None)"

definition strip_suffix :: "'a list \<Rightarrow> 'a list \<Rightarrow> 'a list option" where
  "strip_suffix p s =
     (let n = length s - length p in
      if length p \<le> length s \<and> drop n s = p then Some (take n s) else None)"

definition starts_with :: "'a list \<Rightarrow> 'a list \<Rightarrow> bool" where
  "starts_with p s \<longleftrightarrow> take (length p) s = p"

definition ends_with :: "'a list \<Rightarrow> 'a list \<Rightarrow> bool" where
  "ends_with p s \<longleftrightarrow> length p \<le> length s \<and> drop (length s - length p) s = p"

definition ascii_lower :: "char \<Rightarrow> char" where
  "ascii_lower c =
     (if 65 \<le> (of_char c :: nat) \<and> (of_char c :: nat) \<le> 90
      then char_of ((of_char c :: nat) + 32) else c)"

definition to_ascii_lowercase :: "string \<Rightarrow> string" where
  "to_ascii_lowercase = map ascii_lower"

lemma strip_prefix_Some [string_ops]: "strip_prefix p s = Some r \<longleftrightarrow> s = p @ r"
  by (auto simp: strip_prefix_def) (metis append_take_drop_id)

lemma strip_prefix_append [simp]: "strip_prefix p (p @ r) = Some r"
  by (simp add: string_ops)

lemma strip_suffix_Some [string_ops]: "strip_suffix p s = Some r \<longleftrightarrow> s = r @ p"
proof
  assume "strip_suffix p s = Some r"
  then show "s = r @ p"
    by (auto simp: strip_suffix_def Let_def split: if_splits) (metis append_take_drop_id)
next
  assume "s = r @ p"
  then show "strip_suffix p s = Some r"
    by (simp add: strip_suffix_def)
qed

lemma strip_suffix_append [simp]: "strip_suffix p (r @ p) = Some r"
  by (simp add: string_ops)

lemma starts_with_iff [string_ops]: "starts_with p s \<longleftrightarrow> (\<exists>r. s = p @ r)"
  by (metis append_eq_conv_conj starts_with_def)

lemma ends_with_iff [string_ops]: "ends_with p s \<longleftrightarrow> (\<exists>r. s = r @ p)"
proof
  assume "ends_with p s"
  then show "\<exists>r. s = r @ p"
    by (metis append_take_drop_id ends_with_def)
next
  assume "\<exists>r. s = r @ p"
  then show "ends_with p s"
    by (auto simp: ends_with_def)
qed

lemma length_to_ascii_lowercase [simp]: "length (to_ascii_lowercase s) = length s"
  by (simp add: to_ascii_lowercase_def)

text \<open>
  White space of \<open>str::trim\<close> and \<open>str::split_whitespace\<close>: the characters with Unicode's
  \<open>White_Space\<close> property, as their UTF-8 bytes. In valid UTF-8 such a byte sequence occurs
  only as a whole character.
\<close>

definition white_space :: "nat list list" where
  "white_space =
     map (\<lambda>c. [c]) [9, 10, 11, 12, 13, 32]
     @ map (\<lambda>c. [194, c]) [133, 160]
     @ [[225, 154, 128]]
     @ map (\<lambda>c. [226, 128, c]) ([128..<139] @ [168, 169, 175])
     @ [[226, 129, 159], [227, 128, 128]]"

definition ws_head :: "string \<Rightarrow> nat" where
  "ws_head s =
     (case List.find (\<lambda>w. starts_with w (map of_char s)) white_space of
        None \<Rightarrow> 0
      | Some w \<Rightarrow> length w)"

definition ws_tail :: "string \<Rightarrow> nat" where
  "ws_tail s =
     (case List.find (\<lambda>w. ends_with w (map of_char s)) white_space of
        None \<Rightarrow> 0
      | Some w \<Rightarrow> length w)"

function trim_start :: "string \<Rightarrow> string" where
  "trim_start s = (if ws_head s = 0 \<or> s = [] then s else trim_start (drop (ws_head s) s))"
  by auto
termination
  by (relation "measure length") auto

function trim_end :: "string \<Rightarrow> string" where
  "trim_end s = (if ws_tail s = 0 \<or> s = [] then s else trim_end (take (length s - ws_tail s) s))"
  by auto
termination
  by (relation "measure length") auto

declare trim_start.simps [simp del] trim_end.simps [simp del]

definition trim :: "string \<Rightarrow> string" where
  "trim s = trim_end (trim_start s)"

text \<open>The first word of a string without leading white space, and what follows it.\<close>

fun next_word :: "string \<Rightarrow> string \<times> string" where
  "next_word [] = ([], [])"
| "next_word (c # s) =
     (if 0 < ws_head (c # s) then ([], c # s)
      else (case next_word s of (w, r) \<Rightarrow> (c # w, r)))"

lemma next_word_append: "next_word s = (w, r) \<Longrightarrow> s = w @ r"
  by (induction s arbitrary: w r) (auto split: if_splits prod.splits)

lemma length_trim_start: "length (trim_start s) \<le> length s"
proof (induction s rule: trim_start.induct)
  case (1 s)
  then show ?case
    by (subst trim_start.simps) (use 1 in force)
qed

lemma trim_start_not_ws: "trim_start s = [] \<or> ws_head (trim_start s) = 0"
proof (induction s rule: trim_start.induct)
  case (1 s)
  then show ?case by (subst (1 2) trim_start.simps) auto
qed

function split_whitespace :: "string \<Rightarrow> string list" where
  "split_whitespace s =
     (case next_word (trim_start s) of
        (w, r) \<Rightarrow> if w = [] then [] else w # split_whitespace r)"
  by auto
termination
proof (relation "measure length", goal_cases)
  case (2 s w r)
  then have "trim_start s = w @ r" using next_word_append by metis
  with 2 length_trim_start [of s] show ?case by (cases w) auto
qed simp

declare split_whitespace.simps [simp del]

section \<open>Splitting and joining\<close>

text \<open>\<open>str::split\<close> at a character, and \<open>str::split_once\<close>.\<close>

fun split_on :: "char \<Rightarrow> string \<Rightarrow> string list" where
  "split_on sep [] = [[]]"
| "split_on sep (c # s) =
     (if c = sep then [] # split_on sep s
      else (case split_on sep s of [] \<Rightarrow> [[c]] | w # ws \<Rightarrow> (c # w) # ws))"

definition split_once :: "char \<Rightarrow> string \<Rightarrow> (string \<times> string) option" where
  "split_once sep s =
     (let r = dropWhile (\<lambda>c. c \<noteq> sep) s
      in if r = [] then None else Some (takeWhile (\<lambda>c. c \<noteq> sep) s, tl r))"

fun join_on :: "char \<Rightarrow> string list \<Rightarrow> string" where
  "join_on sep [] = []"
| "join_on sep [w] = w"
| "join_on sep (w # ws) = w @ sep # join_on sep ws"

lemma split_on_nonempty [simp]: "split_on sep s \<noteq> []"
  by (induction s) (auto split: list.split)

lemma join_split: "join_on sep (split_on sep s) = s"
proof (induction s)
  case (Cons c s)
  obtain w ws where w: "split_on sep s = w # ws" by (cases "split_on sep s") auto
  with Cons show ?case by (cases ws) auto
qed simp

lemma split_on_sep_free: "w \<in> set (split_on sep s) \<Longrightarrow> sep \<notin> set w"
  by (induction s arbitrary: w) (auto split: list.splits if_splits)

lemma split_on_word: "sep \<notin> set w \<Longrightarrow> split_on sep (w @ sep # s) = w # split_on sep s"
  by (induction w) auto

lemma split_on_last: "sep \<notin> set w \<Longrightarrow> split_on sep w = [w]"
  by (induction w) auto

lemma split_inject: "split_on sep s = split_on sep t \<Longrightarrow> s = t"
  by (metis join_split)

lemma split_once_word: "sep \<notin> set w \<Longrightarrow> split_once sep (w @ sep # s) = Some (w, s)"
  by (induction w) (auto simp: split_once_def Let_def split: if_splits)

section \<open>Results\<close>

text \<open>The operator \<^verbatim>\<open>?\<close>: an error ends the function, a value goes on.\<close>

definition sum_bind :: "'e + 'a \<Rightarrow> ('a \<Rightarrow> 'e + 'b) \<Rightarrow> 'e + 'b" where
  "sum_bind r f = (case r of Inl e \<Rightarrow> Inl e | Inr x \<Rightarrow> f x)"

lemma sum_bind_simps [simp]: "sum_bind (Inl e) f = Inl e" "sum_bind (Inr x) f = f x"
  by (simp_all add: sum_bind_def)

lemma sum_bind_Inr_iff: "sum_bind r f = Inr y \<longleftrightarrow> (\<exists>x. r = Inr x \<and> f x = Inr y)"
  by (cases r) simp_all

section \<open>Iterators\<close>

text \<open>
  \<open>Iterator::min_by_key\<close> returns the first of the elements with the least key, and nothing
  on an empty iterator.
\<close>

fun min_by_key :: "('a \<Rightarrow> 'b::linorder) \<Rightarrow> 'a list \<Rightarrow> 'a option" where
  "min_by_key f [] = None"
| "min_by_key f (x # xs) =
     (case min_by_key f xs of
        None \<Rightarrow> Some x
      | Some y \<Rightarrow> if f y < f x then Some y else Some x)"

lemma min_by_key_None [simp]: "min_by_key f xs = None \<longleftrightarrow> xs = []"
  by (cases xs) (auto split: option.splits)

lemma min_by_key_Some:
  "min_by_key f xs = Some y \<Longrightarrow> y \<in> set xs \<and> (\<forall>x \<in> set xs. f y \<le> f x)"
proof (induction xs arbitrary: y)
  case Nil
  then show ?case by simp
next
  case (Cons x xs)
  show ?case
  proof (cases "min_by_key f xs")
    case None
    with Cons.prems show ?thesis by simp
  next
    case (Some z)
    with Cons.IH have "z \<in> set xs \<and> (\<forall>w \<in> set xs. f z \<le> f w)" by blast
    with Some Cons.prems show ?thesis
      by (fastforce split: if_splits)
  qed
qed

lemma find_Some_set: "List.find P xs = Some x \<Longrightarrow> x \<in> set xs \<and> P x"
  by (auto simp: find_Some_iff)

section \<open>Hash maps\<close>

type_synonym ('k, 'v) hash_map = "('k \<times> 'v) list"
type_synonym ('k, 'v) hash_order = "('k \<times> 'v) list \<Rightarrow> ('k \<times> 'v) list"

text \<open>An iteration order visits every entry exactly once.\<close>

definition hash_order_ok :: "('k, 'v) hash_order \<Rightarrow> bool" where
  "hash_order_ok it \<longleftrightarrow> (\<forall>m. mset (it m) = mset m)"

lemma hash_order_ok_set: "hash_order_ok it \<Longrightarrow> set (it m) = set m"
  by (metis hash_order_ok_def set_mset_mset)

lemma hash_order_ok_id [simp]: "hash_order_ok (\<lambda>m. m)"
  by (simp add: hash_order_ok_def)

lemma length_update_old:
  "k \<in> fst ` set m \<Longrightarrow> length (AList.update k v m) = length m"
  by (induction m) auto

lemma length_update_new:
  "k \<notin> fst ` set m \<Longrightarrow> length (AList.update k v m) = Suc (length m)"
  by (induction m) auto

lemma delete_notin: "k \<notin> fst ` set m \<Longrightarrow> AList.delete k m = m"
  by (induction m) auto

lemma length_delete_old:
  "distinct (map fst m) \<Longrightarrow> k \<in> fst ` set m \<Longrightarrow> Suc (length (AList.delete k m)) = length m"
  by (induction m) (auto simp: delete_notin)

lemma dom_delete_subset: "fst ` set (AList.delete k m) \<subseteq> fst ` set m"
  by (induction m) auto

section \<open>Machines\<close>

text \<open>
  A component whose operations run one at a time is a function \<open>exec\<close> from operations to
  state changes. Its invariant is established once for every such component: it holds in the
  initial state and every operation that meets its side condition keeps it.
\<close>

locale op_machine =
  fixes exec :: "'op \<Rightarrow> 'st \<Rightarrow> 'st"
    and init :: 'st
    and inv :: "'st \<Rightarrow> bool"
    and op_ok :: "'op \<Rightarrow> bool"
  assumes init_inv: "inv init"
    and exec_inv: "op_ok op \<Longrightarrow> inv st \<Longrightarrow> inv (exec op st)"
begin

lemma fold_inv: "inv st \<Longrightarrow> list_all op_ok ops \<Longrightarrow> inv (fold exec ops st)"
  by (induction ops arbitrary: st) (auto intro: exec_inv)

lemma run_inv: "list_all op_ok ops \<Longrightarrow> inv (fold exec ops init)"
  by (rule fold_inv [OF init_inv])

end

text \<open>
  Provenance. \<open>serve st\<close> is what a state hands out and \<open>provides op st v\<close> says that the
  operation \<open>op\<close>, run in \<open>st\<close>, puts \<open>v\<close> there. When no other operation can make the machine
  hand out \<open>v\<close>, then whatever is handed out was put there by an operation of the run and has
  been handed out in every state since.
\<close>

locale provenance =
  fixes exec :: "'op \<Rightarrow> 'st \<Rightarrow> 'st"
    and serve :: "'st \<Rightarrow> 'v option"
    and provides :: "'op \<Rightarrow> 'st \<Rightarrow> 'v \<Rightarrow> bool"
  assumes serve_step: "serve (exec op st) = Some v \<Longrightarrow> serve st = Some v \<or> provides op st v"
begin

lemma served_was_provided:
  assumes "serve (fold exec ops st) = Some v" and "serve st \<noteq> Some v"
  shows "\<exists>pre op post. ops = pre @ op # post \<and> provides op (fold exec pre st) v
           \<and> (\<forall>mid o1 rest. post = mid @ o1 # rest
                 \<longrightarrow> serve (exec o1 (fold exec (pre @ op # mid) st)) = Some v)"
  using assms(1)
proof (induction ops rule: rev_induct)
  case Nil
  with assms(2) show ?case by simp
next
  case (snoc op1 ops)
  have last: "serve (exec op1 (fold exec ops st)) = Some v"
    using snoc.prems by simp
  then consider "provides op1 (fold exec ops st) v" | "serve (fold exec ops st) = Some v"
    using serve_step by blast
  then show ?case
  proof cases
    case 1
    then have "ops @ [op1] = ops @ op1 # [] \<and> provides op1 (fold exec ops st) v" by simp
    then show ?thesis by blast
  next
    case 2
    then obtain pre op post where ops: "ops = pre @ op # post"
      and prov: "provides op (fold exec pre st) v"
      and since: "\<forall>mid o1 rest. post = mid @ o1 # rest
                    \<longrightarrow> serve (exec o1 (fold exec (pre @ op # mid) st)) = Some v"
      using snoc.IH by blast
    have "serve (exec o1 (fold exec (pre @ op # mid) st)) = Some v"
      if "post @ [op1] = mid @ o1 # rest" for mid o1 rest
    proof (cases rest rule: rev_cases)
      case Nil
      with that have "post = mid" "op1 = o1" by simp_all
      with last ops show ?thesis by simp
    next
      case (snoc rest' o2)
      with that have "post = mid @ o1 # rest'" by simp
      with since show ?thesis by blast
    qed
    with ops prov have "ops @ [op1] = pre @ op # (post @ [op1]) \<and> provides op (fold exec pre st) v
        \<and> (\<forall>mid o1 rest. post @ [op1] = mid @ o1 # rest
              \<longrightarrow> serve (exec o1 (fold exec (pre @ op # mid) st)) = Some v)"
      by simp
    then show ?thesis by blast
  qed
qed

lemma served_since:
  assumes "serve (fold exec ops st) = Some v" and "serve st \<noteq> Some v"
    and "\<And>op1 st1. stops op1 \<Longrightarrow> serve (exec op1 st1) \<noteq> Some v"
  shows "\<exists>pre op post. ops = pre @ op # post \<and> provides op (fold exec pre st) v
           \<and> list_all (\<lambda>op1. \<not> stops op1) post"
proof -
  from served_was_provided [OF assms(1,2)] obtain pre op post
    where *: "ops = pre @ op # post" "provides op (fold exec pre st) v"
      "\<forall>mid o1 rest. post = mid @ o1 # rest
         \<longrightarrow> serve (exec o1 (fold exec (pre @ op # mid) st)) = Some v"
    by blast
  have "\<not> stops o1" if "o1 \<in> set post" for o1
    using that *(3) assms(3) by (metis split_list)
  then have "list_all (\<lambda>op1. \<not> stops op1) post" by (simp add: list_all_iff)
  with *(1,2) show ?thesis by blast
qed

end

end
