(* ===== verification/Common_Url.thy ===== *)
theory Common_Url
  imports Vouch_Prelude
begin

text \<open>
  The URL and certificate-identity helpers of \<open>vouch-common\<close> (\<open>url.rs\<close>, \<open>ssh_cert.rs\<close>),
  which the agent and the CLI share. The URL parser itself (the \<open>url\<close> crate) is an argument
  of the definitions that call it; the textual IP address parsers of Rust's standard library,
  which decide what counts as a loopback host, are modelled.
\<close>

section \<open>Parsed URLs\<close>

datatype url_host = Domain string | Ipv4 | Ipv6

record parsed_url =
  url_scheme :: string
  url_host_of :: "url_host option"
  url_host_str :: "string option"

type_synonym url_parser = "string \<Rightarrow> parsed_url option"

section \<open>Textual IP addresses\<close>

text \<open>
  \<open>Ipv4Addr::from_str\<close> and \<open>Ipv6Addr::from_str\<close>. A number reader consumes digits of the
  given radix and fails on no digit, on more than the allowed number of digits, on overflow
  of the result type and, where zero prefixes are not allowed, on a leading zero.
\<close>

definition digit_value :: "nat \<Rightarrow> char \<Rightarrow> nat option" where
  "digit_value radix c =
     (let n = (of_char c :: nat);
          d = (if 48 \<le> n \<and> n \<le> 57 then n - 48
               else if 97 \<le> n \<and> n \<le> 122 then n - 87
               else if 65 \<le> n \<and> n \<le> 90 then n - 55 else radix)
      in if d < radix then Some d else None)"

fun span_digits :: "nat \<Rightarrow> string \<Rightarrow> nat list \<times> string" where
  "span_digits radix [] = ([], [])"
| "span_digits radix (c # cs) =
     (case digit_value radix c of
        None \<Rightarrow> ([], c # cs)
      | Some d \<Rightarrow> (let (ds, r) = span_digits radix cs in (d # ds, r)))"

definition read_number :: "nat \<Rightarrow> nat \<Rightarrow> bool \<Rightarrow> nat \<Rightarrow> string \<Rightarrow> (nat \<times> string) option" where
  "read_number radix max_digits allow_zero_prefix bound s =
     (let (ds, r) = span_digits radix s;
          v = foldl (\<lambda>a d. a * radix + d) 0 ds
      in if ds = [] \<or> max_digits < length ds \<or> bound \<le> v
            \<or> (\<not> allow_zero_prefix \<and> hd ds = 0 \<and> 1 < length ds)
         then None else Some (v, r))"

definition read_given_char :: "char \<Rightarrow> string \<Rightarrow> string option" where
  "read_given_char c s = strip_prefix [c] s"

definition read_separated ::
    "char \<Rightarrow> bool \<Rightarrow> (string \<Rightarrow> ('a \<times> string) option) \<Rightarrow> string \<Rightarrow> ('a \<times> string) option" where
  "read_separated sep first rd s =
     (if first then rd s else Option.bind (read_given_char sep s) rd)"

definition read_ipv4_addr :: "string \<Rightarrow> (nat list \<times> string) option" where
  "read_ipv4_addr s =
     Option.bind (read_number 10 3 False 256 s) (\<lambda>(a, s1).
     Option.bind (read_separated CHR ''.'' False (read_number 10 3 False 256) s1) (\<lambda>(b, s2).
     Option.bind (read_separated CHR ''.'' False (read_number 10 3 False 256) s2) (\<lambda>(c, s3).
     Option.bind (read_separated CHR ''.'' False (read_number 10 3 False 256) s3) (\<lambda>(d, s4).
       Some ([a, b, c, d], s4)))))"

definition parse_ipv4 :: "string \<Rightarrow> nat list option" where
  "parse_ipv4 s =
     (if 15 < length s then None
      else case read_ipv4_addr s of
             Some (octets, []) \<Rightarrow> Some octets
           | _ \<Rightarrow> None)"

text \<open>
  \<open>read_groups n first s\<close> reads up to \<open>n\<close> more groups of a chunk, \<open>first\<close> telling whether
  the chunk's first group is next: the groups read, whether the last two of them were an
  embedded IPv4 address, and the rest.
\<close>

fun read_groups :: "nat \<Rightarrow> bool \<Rightarrow> string \<Rightarrow> nat list \<times> bool \<times> string" where
  "read_groups 0 first s = ([], False, s)"
| "read_groups (Suc n) first s =
     (case (if 0 < n then read_separated CHR '':'' first read_ipv4_addr s else None) of
        Some (octets, r) \<Rightarrow>
          ([octets ! 0 * 256 + octets ! 1, octets ! 2 * 256 + octets ! 3], True, r)
      | None \<Rightarrow>
          (case read_separated CHR '':'' first (read_number 16 4 True 65536) s of
             None \<Rightarrow> ([], False, s)
           | Some (g, r) \<Rightarrow>
               (let (gs, v4, r') = read_groups n False r in (g # gs, v4, r'))))"

definition read_ipv6_addr :: "string \<Rightarrow> (nat list \<times> string) option" where
  "read_ipv6_addr s =
     (let (hd_groups, head_ipv4, r) = read_groups 8 True s; n = length hd_groups in
      if n = 8 then Some (hd_groups, r)
      else if head_ipv4 then None
      else Option.bind (read_given_char CHR '':'' r) (\<lambda>r1.
           Option.bind (read_given_char CHR '':'' r1) (\<lambda>r2.
             (let (tl_groups, _, r3) = read_groups (8 - (n + 1)) True r2 in
              Some (hd_groups @ replicate (8 - n - length tl_groups) 0 @ tl_groups, r3)))))"

definition parse_ipv6 :: "string \<Rightarrow> nat list option" where
  "parse_ipv6 s =
     (case read_ipv6_addr s of
        Some (groups, []) \<Rightarrow> Some groups
      | _ \<Rightarrow> None)"

section \<open>Transport security of a server URL\<close>

definition is_loopback_host :: "string \<Rightarrow> bool" where
  "is_loopback_host host =
     (if to_ascii_lowercase host = ''localhost'' then True
      else if to_ascii_lowercase host = ''host.docker.internal'' then True
      else case parse_ipv4 host of
             Some octets \<Rightarrow> hd octets = 127
           | None \<Rightarrow>
             (let ipv6_str = (case Option.bind (strip_prefix ''['' host) (strip_suffix '']'') of
                                Some inner \<Rightarrow> inner | None \<Rightarrow> host)
              in case parse_ipv6 ipv6_str of
                   Some groups \<Rightarrow> groups = [0, 0, 0, 0, 0, 0, 0, 1]
                 | None \<Rightarrow> False))"

datatype url_security = Secure | InsecureHttp string

definition check_url_security :: "url_parser \<Rightarrow> string \<Rightarrow> url_security" where
  "check_url_security url_parse url =
     (case url_parse url of
        None \<Rightarrow> Secure
      | Some parsed \<Rightarrow>
          if url_scheme parsed \<noteq> ''http'' then Secure
          else (let host = (case url_host_str parsed of Some h \<Rightarrow> h | None \<Rightarrow> [])
                in if is_loopback_host host then Secure else InsecureHttp url))"

definition strip_default_https_port :: "string \<Rightarrow> string" where
  "strip_default_https_port host =
     (case strip_suffix '':443'' host of Some h \<Rightarrow> h | None \<Rightarrow> host)"

definition normalize_git_host :: "string \<Rightarrow> string" where
  "normalize_git_host host = to_ascii_lowercase (strip_default_https_port host)"

text \<open>
  \<open>VOUCH_ALLOW_INSECURE\<close>, with the refused value as the error. \<open>to_string_lossy\<close> is the
  identity on the UTF-8 values the model's strings are.
\<close>

definition parse_allow_insecure :: "string \<Rightarrow> string + bool" where
  "parse_allow_insecure val =
     (let v = to_ascii_lowercase (trim val)
      in if v \<in> {''1'', ''true'', ''yes'', ''on''} then Inr True
         else if v \<in> {[], ''0'', ''false'', ''no'', ''off''} then Inr False
         else Inl v)"

definition allow_insecure_from_env :: "string option \<Rightarrow> string + bool" where
  "allow_insecure_from_env var =
     (case var of None \<Rightarrow> Inr False | Some val \<Rightarrow> parse_allow_insecure val)"

section \<open>The identity a certificate was issued to\<close>

definition ssh_cert_key_id :: "string \<Rightarrow> string \<Rightarrow> string" where
  "ssh_cert_key_id email rp_id = email @ ''@'' @ rp_id"

definition ssh_cert_issued_to :: "url_parser \<Rightarrow> string \<Rightarrow> string \<Rightarrow> string option \<Rightarrow> bool" where
  "ssh_cert_issued_to url_parse key_id email server_url =
     (if email = [] then False
      else case Option.bind (strip_prefix email key_id) (strip_prefix ''@'') of
             None \<Rightarrow> False
           | Some rp_id \<Rightarrow>
               if rp_id = [] then False
               else case server_url of
                      None \<Rightarrow> True
                    | Some url \<Rightarrow>
                        (case url_parse url of
                           None \<Rightarrow> False
                         | Some parsed \<Rightarrow>
                             (case url_host_of parsed of
                                Some (Domain h) \<Rightarrow>
                                  (let host = to_ascii_lowercase h; rp = to_ascii_lowercase rp_id
                                   in host = rp
                                      \<or> (case strip_suffix rp host of
                                           Some pre \<Rightarrow> ends_with ''.'' pre
                                         | None \<Rightarrow> False))
                              | Some Ipv4 \<Rightarrow> True
                              | Some Ipv6 \<Rightarrow> True
                              | None \<Rightarrow> False)))"

section \<open>Lemmas\<close>

lemma loopback_examples:
  "is_loopback_host ''LocalHost''" "is_loopback_host ''127.8.0.1''" "is_loopback_host ''[::1]''"
  "\<not> is_loopback_host ''127.evil.com''" "\<not> is_loopback_host ''127.0.0.01''"
  "\<not> is_loopback_host ''[::2]''"
  by code_simp+

lemma allow_insecure_examples:
  "parse_allow_insecure '' On '' = Inr True" "parse_allow_insecure ''TRUE'' = Inr True"
  "parse_allow_insecure '' '' = Inr False" "parse_allow_insecure ''2'' = Inl ''2''"
  by code_simp+

text \<open>The certificate check accepts exactly the key ids of the session's user.\<close>

lemma issued_to_key_id:
  "ssh_cert_issued_to url_parse key_id email server_url \<Longrightarrow>
     \<exists>rp_id. rp_id \<noteq> [] \<and> email \<noteq> [] \<and> key_id = ssh_cert_key_id email rp_id"
  by (auto simp: ssh_cert_issued_to_def ssh_cert_key_id_def string_ops bind_eq_Some_conv
      split: if_splits option.splits)

text \<open>
  An address has one \<open>@\<close>, so the key id of one address is never accepted for another.
\<close>

lemma one_at_suffix:
  assumes "CHR ''@'' # x = us @ y" and "count_list (e @ us) CHR ''@'' = 1"
    and "count_list e CHR ''@'' = 1"
  shows "us = []"
  using assms by (cases us) auto

lemma key_id_injective:
  assumes "count_list email CHR ''@'' = 1" and "count_list email' CHR ''@'' = 1"
    and "ssh_cert_key_id email rp_id = ssh_cert_key_id email' rp_id'"
  shows "email = email'"
proof -
  obtain us where "email = email' @ us \<and> us @ ''@'' @ rp_id = ''@'' @ rp_id'
      \<or> email @ us = email' \<and> ''@'' @ rp_id = us @ ''@'' @ rp_id'"
    using assms(3) by (auto simp: ssh_cert_key_id_def append_eq_append_conv2)
  then show ?thesis
  proof
    assume "email = email' @ us \<and> us @ ''@'' @ rp_id = ''@'' @ rp_id'"
    with assms(1,2) one_at_suffix [of rp_id' us "''@'' @ rp_id" email'] show ?thesis
      by simp
  next
    assume "email @ us = email' \<and> ''@'' @ rp_id = us @ ''@'' @ rp_id'"
    with assms(1,2) one_at_suffix [of rp_id us "''@'' @ rp_id'" email] show ?thesis
      by simp
  qed
qed

text \<open>
  On a DNS host, the relying party named by the certificate is that host or one of its parent
  domains.
\<close>

definition parent_domain :: "string \<Rightarrow> string \<Rightarrow> bool" where
  "parent_domain rp host \<longleftrightarrow> host = rp \<or> (\<exists>pre. host = pre @ ''.'' @ rp)"

lemma strip_suffix_dot:
  "(case strip_suffix rp host of Some pre \<Rightarrow> ends_with ''.'' pre | None \<Rightarrow> False)
     \<longleftrightarrow> (\<exists>pre. host = pre @ ''.'' @ rp)" (is "?L \<longleftrightarrow> ?R")
proof
  assume ?L
  then show ?R by (auto simp: string_ops split: option.splits)
next
  assume ?R
  then obtain pre where "host = (pre @ ''.'') @ rp" by auto
  then show ?L by (simp only: strip_suffix_append) (simp add: string_ops)
qed

lemma strip_key_id [simp]:
  "Option.bind (strip_prefix email (ssh_cert_key_id email rp_id)) (strip_prefix ''@'') = Some rp_id"
  by (simp add: ssh_cert_key_id_def strip_prefix_def)

lemma issued_to_domain:
  assumes "email \<noteq> []" and "rp_id \<noteq> []"
    and "url_parse url = Some parsed" and "url_host_of parsed = Some (Domain h)"
  shows "ssh_cert_issued_to url_parse (ssh_cert_key_id email rp_id) email (Some url)
           \<longleftrightarrow> parent_domain (to_ascii_lowercase rp_id) (to_ascii_lowercase h)"
  unfolding ssh_cert_issued_to_def parent_domain_def Let_def strip_key_id strip_suffix_dot
  using assms by simp

end
