(* ===== verification/Agent_State.thy ===== *)
theory Agent_State
  imports Common_Url
begin

text \<open>
  The agent's session slot (\<open>vouch-agent/src/state.rs\<close>) and the SSH credentials it holds
  (\<open>ssh_agent/credentials.rs\<close>). The state is the optional slot behind the agent's one lock;
  each operation is the body of its critical section, so an operation is one atomic step. The
  wall clock is an argument: one reading per critical section. The URL parser that the
  certificate check calls is an argument as well.
\<close>

section \<open>Sessions\<close>

record session =
  sess_token :: string
  sess_user_email :: string
  sess_expires_at :: timestamp
  sess_authenticated_at :: timestamp

definition session_new :: "timestamp \<Rightarrow> string \<Rightarrow> string \<Rightarrow> timestamp \<Rightarrow> session" where
  "session_new now token user_email expires_at =
     \<lparr>sess_token = token, sess_user_email = user_email, sess_expires_at = expires_at,
      sess_authenticated_at = now\<rparr>"

definition session_is_expired :: "timestamp \<Rightarrow> session \<Rightarrow> bool" where
  "session_is_expired now s \<longleftrightarrow> now \<ge> sess_expires_at s"

text \<open>
  The seconds left, rounded down. The source goes through a floating-point number of seconds,
  exact for the session lifetimes it names (below a day).
\<close>

definition session_expires_in_seconds :: "timestamp \<Rightarrow> session \<Rightarrow> nat" where
  "session_expires_in_seconds now s =
     (if now \<ge> sess_expires_at s then 0
      else nat ((sess_expires_at s - now) div 1000000000))"

record session_info =
  si_user_email :: string
  si_expires_at :: timestamp
  si_authenticated_at :: timestamp
  si_expires_in_seconds :: nat
  si_server_url :: "string option"

definition session_info_from :: "timestamp \<Rightarrow> session \<Rightarrow> session_info" where
  "session_info_from now s =
     \<lparr>si_user_email = sess_user_email s, si_expires_at = sess_expires_at s,
      si_authenticated_at = sess_authenticated_at s,
      si_expires_in_seconds = session_expires_in_seconds now s, si_server_url = None\<rparr>"

section \<open>Cached credentials\<close>

text \<open>The JSON of a credential is kept as its text, as the source keeps it.\<close>

record cached_credential =
  cc_data :: json
  cc_expires_at :: timestamp
  cc_cached_at :: timestamp

definition cached_credential_new :: "timestamp \<Rightarrow> json \<Rightarrow> timestamp \<Rightarrow> cached_credential" where
  "cached_credential_new now data expires_at =
     \<lparr>cc_data = data, cc_expires_at = expires_at, cc_cached_at = now\<rparr>"

definition cc_is_valid :: "timestamp \<Rightarrow> cached_credential \<Rightarrow> bool" where
  "cc_is_valid now c \<longleftrightarrow> now < cc_expires_at c"

section \<open>SSH credentials\<close>

record certificate_metadata =
  cm_expires_at :: timestamp
  cm_key_id :: string

definition metadata_is_expired :: "timestamp \<Rightarrow> certificate_metadata \<Rightarrow> bool" where
  "metadata_is_expired now m \<longleftrightarrow> cm_expires_at m < now"

text \<open>The agent signs with Ed25519 keys only; any other key is refused when it signs.\<close>

datatype private_key = Ed25519_Key bytes | Other_Key string

record ssh_credentials =
  sc_private_key :: private_key
  sc_certificate_blob :: bytes
  sc_comment :: string
  sc_metadata :: certificate_metadata

definition ssh_is_expired :: "timestamp \<Rightarrow> ssh_credentials \<Rightarrow> bool" where
  "ssh_is_expired now c = metadata_is_expired now (sc_metadata c)"

section \<open>The session slot\<close>

type_synonym credential_cache = "(string, cached_credential) hash_map"
type_synonym cache_order = "(string, cached_credential) hash_order"

record session_slot =
  slot_session :: session
  slot_server_url :: "string option"
  slot_credential_cache :: credential_cache
  slot_ssh_credentials :: "ssh_credentials option"

definition slot_new :: "session \<Rightarrow> string option \<Rightarrow> session_slot" where
  "slot_new s server_url =
     \<lparr>slot_session = s, slot_server_url = server_url, slot_credential_cache = [],
      slot_ssh_credentials = None\<rparr>"

definition live :: "timestamp \<Rightarrow> session_slot \<Rightarrow> session_slot option" where
  "live now slot = (if session_is_expired now (slot_session slot) then None else Some slot)"

datatype ssh_store_refusal = NoSession | NotIssuedToSession

datatype cache_refusal = KeyTooLong | CacheNoSession

definition MAX_CACHE_ENTRIES :: nat where
  "MAX_CACHE_ENTRIES = 128"

definition MAX_CREDENTIAL_TYPE_LEN :: nat where
  "MAX_CREDENTIAL_TYPE_LEN = 256"

section \<open>Operations of the agent state\<close>

type_synonym agent_state = "session_slot option"

definition agent_new :: agent_state where
  "agent_new = None"

definition get_session :: "timestamp \<Rightarrow> agent_state \<Rightarrow> session option" where
  "get_session now st = map_option slot_session (Option.bind st (live now))"

definition session_info :: "timestamp \<Rightarrow> agent_state \<Rightarrow> session_info option" where
  "session_info now st =
     Option.bind (Option.bind st (live now)) (\<lambda>slot.
       Some ((session_info_from now (slot_session slot))\<lparr>si_server_url := slot_server_url slot\<rparr>))"

definition store_session :: "session \<Rightarrow> string option \<Rightarrow> agent_state \<Rightarrow> agent_state" where
  "store_session s server_url st = Some (slot_new s server_url)"

definition store_session_if_no_live_session ::
    "timestamp \<Rightarrow> session \<Rightarrow> string option \<Rightarrow> agent_state \<Rightarrow> bool \<times> agent_state" where
  "store_session_if_no_live_session now s server_url st =
     (if Option.bind st (live now) \<noteq> None then (False, st)
      else (True, Some (slot_new s server_url)))"

definition clear_session :: "agent_state \<Rightarrow> agent_state" where
  "clear_session st = None"

definition store_ssh_credentials ::
    "url_parser \<Rightarrow> timestamp \<Rightarrow> ssh_credentials \<Rightarrow> agent_state
       \<Rightarrow> (ssh_store_refusal + unit) \<times> agent_state" where
  "store_ssh_credentials url_parse now creds st =
     (case Option.bind st (live now) of
        None \<Rightarrow> (Inl NoSession, st)
      | Some slot \<Rightarrow>
          if \<not> ssh_cert_issued_to url_parse (cm_key_id (sc_metadata creds))
                 (sess_user_email (slot_session slot)) (slot_server_url slot)
          then (Inl NotIssuedToSession, st)
          else (Inr (), Some (slot\<lparr>slot_ssh_credentials := Some creds\<rparr>)))"

definition clear_ssh_credentials :: "agent_state \<Rightarrow> agent_state" where
  "clear_ssh_credentials st = map_option (\<lambda>slot. slot\<lparr>slot_ssh_credentials := None\<rparr>) st"

definition get_valid_ssh_credentials :: "timestamp \<Rightarrow> agent_state \<Rightarrow> ssh_credentials option" where
  "get_valid_ssh_credentials now st =
     (case Option.bind st (live now) of
        None \<Rightarrow> None
      | Some slot \<Rightarrow>
          Option.bind (slot_ssh_credentials slot) (\<lambda>creds.
            if ssh_is_expired now creds then None else Some creds))"

definition has_ssh_credentials :: "agent_state \<Rightarrow> bool" where
  "has_ssh_credentials st =
     (case st of None \<Rightarrow> False | Some slot \<Rightarrow> slot_ssh_credentials slot \<noteq> None)"

definition get_server_url :: "timestamp \<Rightarrow> agent_state \<Rightarrow> string option" where
  "get_server_url now st = Option.bind (Option.bind st (live now)) slot_server_url"

text \<open>
  The entry evicted from a full cache: the first expired entry the map's iteration meets, or
  else the first of those that expire soonest.
\<close>

definition evict_key :: "cache_order \<Rightarrow> timestamp \<Rightarrow> credential_cache \<Rightarrow> string option" where
  "evict_key it now cache =
     (case map_option fst (List.find (\<lambda>(_, v). \<not> cc_is_valid now v) (it cache)) of
        Some k \<Rightarrow> Some k
      | None \<Rightarrow> map_option fst (min_by_key (\<lambda>(_, v). cc_expires_at v) (it cache)))"

text \<open>Making room for a new key in a full cache.\<close>

definition make_room :: "cache_order \<Rightarrow> timestamp \<Rightarrow> string \<Rightarrow> credential_cache \<Rightarrow> credential_cache" where
  "make_room it now credential_type cache =
     (let is_new_key = (map_of cache credential_type = None)
      in if is_new_key \<and> MAX_CACHE_ENTRIES \<le> length cache
         then (case evict_key it now cache of
                 Some k \<Rightarrow> AList.delete k cache
               | None \<Rightarrow> cache)
         else cache)"

definition cache_credential ::
    "cache_order \<Rightarrow> timestamp \<Rightarrow> string \<Rightarrow> cached_credential \<Rightarrow> agent_state
       \<Rightarrow> (cache_refusal + unit) \<times> agent_state" where
  "cache_credential it now credential_type credential st =
     (if MAX_CREDENTIAL_TYPE_LEN < length credential_type then (Inl KeyTooLong, st)
      else case Option.bind st (live now) of
             None \<Rightarrow> (Inl CacheNoSession, st)
           | Some slot \<Rightarrow>
               (Inr (), Some (slot\<lparr>slot_credential_cache :=
                  AList.update credential_type credential
                    (make_room it now credential_type (slot_credential_cache slot))\<rparr>)))"

definition get_cached_credential ::
    "timestamp \<Rightarrow> string \<Rightarrow> agent_state \<Rightarrow> cached_credential option" where
  "get_cached_credential now credential_type st =
     Option.bind (Option.bind st (live now)) (\<lambda>slot.
       Option.bind (map_of (slot_credential_cache slot) credential_type) (\<lambda>c.
         if cc_is_valid now c then Some c else None))"

definition clear_credential_cache :: "agent_state \<Rightarrow> agent_state" where
  "clear_credential_cache st = map_option (\<lambda>slot. slot\<lparr>slot_credential_cache := []\<rparr>) st"

definition expires_in_seconds :: "timestamp \<Rightarrow> agent_state \<Rightarrow> nat option" where
  "expires_in_seconds now st =
     map_option (\<lambda>slot. session_expires_in_seconds now (slot_session slot)) st"

definition get_token :: "timestamp \<Rightarrow> agent_state \<Rightarrow> string option" where
  "get_token now st = map_option (\<lambda>slot. sess_token (slot_session slot)) (Option.bind st (live now))"

definition current_user_email :: "agent_state \<Rightarrow> string option" where
  "current_user_email st = map_option (\<lambda>slot. sess_user_email (slot_session slot)) st"

definition session_expiry_info :: "timestamp \<Rightarrow> agent_state \<Rightarrow> timestamp option \<times> nat option" where
  "session_expiry_info now st =
     (case st of
        Some slot \<Rightarrow> (Some (sess_expires_at (slot_session slot)),
                      Some (session_expires_in_seconds now (slot_session slot)))
      | None \<Rightarrow> (None, None))"

section \<open>The agent as a machine\<close>

text \<open>
  The operations that can write the slot, each with the clock reading and the hash order of
  its critical section, and a run of them in the order the lock serialises them.
\<close>

datatype agent_op =
    OpStoreSession session "string option"
  | OpStoreIfNoLive timestamp session "string option"
  | OpClearSession
  | OpStoreSsh timestamp ssh_credentials
  | OpClearSsh
  | OpCache cache_order timestamp string cached_credential
  | OpClearCache

fun agent_exec :: "url_parser \<Rightarrow> agent_op \<Rightarrow> agent_state \<Rightarrow> agent_state" where
  "agent_exec url_parse (OpStoreSession s u) st = store_session s u st"
| "agent_exec url_parse (OpStoreIfNoLive now s u) st =
     snd (store_session_if_no_live_session now s u st)"
| "agent_exec url_parse OpClearSession st = clear_session st"
| "agent_exec url_parse (OpStoreSsh now c) st = snd (store_ssh_credentials url_parse now c st)"
| "agent_exec url_parse OpClearSsh st = clear_ssh_credentials st"
| "agent_exec url_parse (OpCache it now k c) st = snd (cache_credential it now k c st)"
| "agent_exec url_parse OpClearCache st = clear_credential_cache st"

definition agent_run :: "url_parser \<Rightarrow> agent_op list \<Rightarrow> agent_state \<Rightarrow> agent_state" where
  "agent_run url_parse ops st = fold (agent_exec url_parse) ops st"

section \<open>Facts about the operations\<close>

named_theorems agent_ops \<open>the operations of the agent state, unfolded\<close>

lemmas [agent_ops] = store_session_def store_session_if_no_live_session_def clear_session_def
  store_ssh_credentials_def clear_ssh_credentials_def cache_credential_def
  clear_credential_cache_def slot_new_def

lemma live_eq:
  "live now slot = (if now < sess_expires_at (slot_session slot) then Some slot else None)"
  by (auto simp: live_def session_is_expired_def)

lemma bind_live_Some [simp]:
  "Option.bind st (live now) = Some slot
     \<longleftrightarrow> st = Some slot \<and> now < sess_expires_at (slot_session slot)"
  by (cases st) (auto simp: live_def session_is_expired_def)

lemma bind_live_None:
  "Option.bind st (live now) = None
     \<longleftrightarrow> (\<forall>slot. st = Some slot \<longrightarrow> sess_expires_at (slot_session slot) \<le> now)"
  by (cases st) (auto simp: live_def session_is_expired_def)

lemma get_cached_credential_Some:
  "get_cached_credential now k st = Some c
     \<longleftrightarrow> (\<exists>slot. st = Some slot \<and> now < sess_expires_at (slot_session slot)
            \<and> map_of (slot_credential_cache slot) k = Some c \<and> now < cc_expires_at c)"
proof (cases st)
  case (Some slot)
  then show ?thesis
    by (cases "map_of (slot_credential_cache slot) k")
      (auto simp: get_cached_credential_def cc_is_valid_def live_def session_is_expired_def)
qed (simp add: get_cached_credential_def)

lemma get_valid_ssh_credentials_Some:
  "get_valid_ssh_credentials now st = Some c
     \<longleftrightarrow> (\<exists>slot. st = Some slot \<and> now < sess_expires_at (slot_session slot)
            \<and> slot_ssh_credentials slot = Some c \<and> now \<le> cm_expires_at (sc_metadata c))"
proof (cases st)
  case (Some slot)
  then show ?thesis
    by (cases "slot_ssh_credentials slot")
      (auto simp: get_valid_ssh_credentials_def ssh_is_expired_def metadata_is_expired_def
        live_def session_is_expired_def)
qed (simp add: get_valid_ssh_credentials_def)

text \<open>The evicted entry is one of the cache, expired if any is, and otherwise soonest to expire.\<close>

lemma evict_key_None:
  assumes "hash_order_ok it"
  shows "evict_key it now cache = None \<longleftrightarrow> cache = []"
proof -
  have "set (it cache) = set cache" using hash_order_ok_set [OF assms] .
  then have "it cache = [] \<longleftrightarrow> cache = []" by (metis set_empty)
  then show ?thesis
    by (auto simp: evict_key_def split: option.splits)
qed

lemma evict_key_Some:
  assumes "hash_order_ok it" and "evict_key it now cache = Some k"
  shows "\<exists>c. (k, c) \<in> set cache
           \<and> (cc_is_valid now c
                \<longrightarrow> (\<forall>(k', c') \<in> set cache. cc_is_valid now c' \<and> cc_expires_at c \<le> cc_expires_at c'))"
proof (cases "List.find (\<lambda>(_, v). \<not> cc_is_valid now v) (it cache)")
  case None
  with assms(2) obtain c where
    m: "min_by_key (\<lambda>(_, v). cc_expires_at v) (it cache) = Some (k, c)"
    by (auto simp: evict_key_def)
  have same: "set (it cache) = set cache" by (rule hash_order_ok_set [OF assms(1)])
  from None have valid: "\<forall>(k', c') \<in> set cache. cc_is_valid now c'"
    by (auto simp: find_None_iff same)
  from min_by_key_Some [OF m] have "(k, c) \<in> set cache"
    and "\<forall>(k', c') \<in> set cache. cc_expires_at c \<le> cc_expires_at c'"
    by (auto simp: same)
  with valid show ?thesis by blast
next
  case (Some kc)
  with assms(2) have "fst kc = k" by (simp add: evict_key_def)
  with find_Some_set [OF Some] show ?thesis
    using hash_order_ok_set [OF assms(1), of cache] by (cases kc) auto
qed

section \<open>The invariant\<close>

text \<open>
  What every reachable slot satisfies: the cache is a map of at most
  \<^const>\<open>MAX_CACHE_ENTRIES\<close> entries whose names are at most
  \<^const>\<open>MAX_CREDENTIAL_TYPE_LEN\<close> bytes, and a stored SSH certificate was issued to the
  slot's user by the slot's server.
\<close>

definition slot_inv :: "url_parser \<Rightarrow> session_slot \<Rightarrow> bool" where
  "slot_inv url_parse slot \<longleftrightarrow>
     distinct (map fst (slot_credential_cache slot))
     \<and> length (slot_credential_cache slot) \<le> MAX_CACHE_ENTRIES
     \<and> list_all (\<lambda>(k, _). length k \<le> MAX_CREDENTIAL_TYPE_LEN) (slot_credential_cache slot)
     \<and> (case slot_ssh_credentials slot of
          None \<Rightarrow> True
        | Some c \<Rightarrow> ssh_cert_issued_to url_parse (cm_key_id (sc_metadata c))
                      (sess_user_email (slot_session slot)) (slot_server_url slot))"

definition agent_inv :: "url_parser \<Rightarrow> agent_state \<Rightarrow> bool" where
  "agent_inv url_parse st = (case st of None \<Rightarrow> True | Some slot \<Rightarrow> slot_inv url_parse slot)"

text \<open>The only side condition of a run: the hash order of a caching step is an iteration order.\<close>

fun agent_op_ok :: "agent_op \<Rightarrow> bool" where
  "agent_op_ok (OpCache it now k c) = hash_order_ok it"
| "agent_op_ok _ = True"

lemma keys_update_subset: "fst ` set (AList.update k v m) \<subseteq> insert k (fst ` set m)"
  using dom_update [of k v m] by auto

lemma keys_make_room: "fst ` set (make_room it now k cache) \<subseteq> fst ` set cache"
  by (simp add: make_room_def dom_delete_subset split: option.splits)

lemma distinct_make_room:
  "distinct (map fst cache) \<Longrightarrow> distinct (map fst (make_room it now k cache))"
  by (auto simp: make_room_def Let_def distinct_delete split: option.splits)

lemma make_room_old: "map_of cache k \<noteq> None \<Longrightarrow> make_room it now k cache = cache"
  by (auto simp: make_room_def)

lemma make_room_new:
  assumes "hash_order_ok it" and "distinct (map fst cache)"
    and "length cache \<le> MAX_CACHE_ENTRIES" and "map_of cache k = None"
  shows "Suc (length (make_room it now k cache)) \<le> MAX_CACHE_ENTRIES"
proof (cases "MAX_CACHE_ENTRIES \<le> length cache")
  case True
  then have "cache \<noteq> []" by (auto simp: MAX_CACHE_ENTRIES_def)
  then obtain e where e: "evict_key it now cache = Some e"
    using evict_key_None [OF assms(1), of now cache] by auto
  from evict_key_Some [OF assms(1) e] have "e \<in> fst ` set cache" by (metis fst_conv imageI)
  with assms e True show ?thesis
    by (simp add: make_room_def length_delete_old)
next
  case False
  with assms show ?thesis by (simp add: make_room_def)
qed

lemma length_cache_update:
  assumes "hash_order_ok it" and "distinct (map fst cache)" and "length cache \<le> MAX_CACHE_ENTRIES"
  shows "length (AList.update k c (make_room it now k cache)) \<le> MAX_CACHE_ENTRIES"
proof (cases "map_of cache k")
  case None
  then have "k \<notin> fst ` set (make_room it now k cache)"
    using keys_make_room [of it now k cache] by (auto simp: map_of_eq_None_iff)
  with make_room_new [OF assms None] show ?thesis by (simp add: length_update_new)
next
  case (Some d)
  then have "k \<in> fst ` set cache" by (metis map_of_SomeD fst_conv imageI)
  with Some assms(3) show ?thesis by (simp add: make_room_old length_update_old)
qed

lemma slot_inv_new: "slot_inv url_parse (slot_new s u)"
  by (simp add: slot_inv_def slot_new_def)

lemma slot_inv_cache:
  assumes "slot_inv url_parse slot" and "hash_order_ok it" and "length k \<le> MAX_CREDENTIAL_TYPE_LEN"
  shows "slot_inv url_parse (slot\<lparr>slot_credential_cache :=
           AList.update k c (make_room it now k (slot_credential_cache slot))\<rparr>)"
proof -
  let ?cache = "slot_credential_cache slot"
  let ?new = "AList.update k c (make_room it now k ?cache)"
  from assms(1) have inv: "distinct (map fst ?cache)" "length ?cache \<le> MAX_CACHE_ENTRIES"
    "\<forall>k' \<in> fst ` set ?cache. length k' \<le> MAX_CREDENTIAL_TYPE_LEN"
    by (auto simp: slot_inv_def list_all_iff)
  have "fst ` set ?new \<subseteq> insert k (fst ` set ?cache)"
    using keys_update_subset [of k c "make_room it now k ?cache"]
      keys_make_room [of it now k ?cache] by blast
  with inv(3) assms(3) have "\<forall>k' \<in> fst ` set ?new. length k' \<le> MAX_CREDENTIAL_TYPE_LEN" by blast
  then have "list_all (\<lambda>(k, _). length k \<le> MAX_CREDENTIAL_TYPE_LEN) ?new"
    by (auto simp: list_all_iff)
  moreover have "distinct (map fst ?new)"
    using inv(1) by (simp add: distinct_update distinct_make_room)
  moreover have "length ?new \<le> MAX_CACHE_ENTRIES"
    by (rule length_cache_update [OF assms(2) inv(1,2)])
  ultimately show ?thesis using assms(1) by (simp add: slot_inv_def split: option.splits)
qed

lemma agent_inv_exec:
  assumes "agent_op_ok op" and "agent_inv url_parse st"
  shows "agent_inv url_parse (agent_exec url_parse op st)"
proof (cases op)
  case (OpStoreSsh now c)
  with assms show ?thesis
    by (cases st) (auto simp: agent_inv_def store_ssh_credentials_def slot_inv_def live_eq)
next
  case (OpCache it now k c)
  with assms show ?thesis
    by (cases st) (auto simp: agent_inv_def cache_credential_def slot_inv_cache live_eq)
next
  case (OpStoreIfNoLive now s u)
  with assms show ?thesis
    by (cases st) (auto simp: agent_inv_def store_session_if_no_live_session_def slot_inv_new)
next
  case OpClearCache
  with assms show ?thesis
    by (cases st) (auto simp: agent_inv_def clear_credential_cache_def slot_inv_def
        split: option.splits)
next
  case OpClearSsh
  with assms show ?thesis
    by (cases st) (auto simp: agent_inv_def clear_ssh_credentials_def slot_inv_def)
qed (simp_all add: agent_inv_def store_session_def clear_session_def slot_inv_new)

interpretation agent: op_machine "agent_exec url_parse" agent_new "agent_inv url_parse" agent_op_ok
  for url_parse
proof unfold_locales
  show "agent_inv url_parse agent_new" by (simp add: agent_inv_def agent_new_def)
qed (rule agent_inv_exec)


section \<open>Provenance of what the agent serves\<close>

text \<open>
  What the agent serves at a given instant under one cache key, and the SSH credentials it
  serves, each with the session they are served under; and the operations that put them there.
\<close>

definition served_credential ::
    "timestamp \<Rightarrow> string \<Rightarrow> agent_state \<Rightarrow> (cached_credential \<times> session) option" where
  "served_credential now k st =
     Option.bind (get_cached_credential now k st) (\<lambda>c. map_option (Pair c) (get_session now st))"

definition served_ssh :: "timestamp \<Rightarrow> agent_state \<Rightarrow> (ssh_credentials \<times> session) option" where
  "served_ssh now st =
     Option.bind (get_valid_ssh_credentials now st) (\<lambda>c. map_option (Pair c) (get_session now st))"

fun caches :: "string \<Rightarrow> agent_op \<Rightarrow> agent_state \<Rightarrow> cached_credential \<times> session \<Rightarrow> bool" where
  "caches k (OpCache it t k' c') st (c, s) \<longleftrightarrow> k' = k \<and> c' = c \<and> get_session t st = Some s"
| "caches k _ st _ \<longleftrightarrow> False"

fun loads :: "agent_op \<Rightarrow> agent_state \<Rightarrow> ssh_credentials \<times> session \<Rightarrow> bool" where
  "loads (OpStoreSsh t c') st (c, s) \<longleftrightarrow> c' = c \<and> get_session t st = Some s"
| "loads _ st _ \<longleftrightarrow> False"

text \<open>The operations after which nothing of an earlier login is left.\<close>

fun ends_login :: "agent_op \<Rightarrow> bool" where
  "ends_login (OpStoreSession s u) = True"
| "ends_login OpClearSession = True"
| "ends_login _ = False"

lemma get_session_Some:
  "get_session now st = Some s
     \<longleftrightarrow> (\<exists>slot. st = Some slot \<and> slot_session slot = s \<and> now < sess_expires_at s)"
  by (cases st) (auto simp: get_session_def live_eq)

lemma served_credential_Some:
  "served_credential now k st = Some (c, s)
     \<longleftrightarrow> (\<exists>slot. st = Some slot \<and> slot_session slot = s \<and> now < sess_expires_at s
            \<and> map_of (slot_credential_cache slot) k = Some c \<and> now < cc_expires_at c)"
  by (auto simp: served_credential_def get_cached_credential_Some get_session_Some
      bind_eq_Some_conv map_option_eq_Some)

lemma served_ssh_Some:
  "served_ssh now st = Some (c, s)
     \<longleftrightarrow> (\<exists>slot. st = Some slot \<and> slot_session slot = s \<and> now < sess_expires_at s
            \<and> slot_ssh_credentials slot = Some c \<and> now \<le> cm_expires_at (sc_metadata c))"
  by (auto simp: served_ssh_def get_valid_ssh_credentials_Some get_session_Some
      bind_eq_Some_conv map_option_eq_Some)

lemma map_of_make_room:
  "map_of (make_room it now k' cache) k = Some c \<Longrightarrow> map_of cache k = Some c"
  by (auto simp: make_room_def delete_conv' Let_def split: option.splits if_splits)

lemma served_credential_step:
  assumes "served_credential now k (agent_exec url_parse op st) = Some v"
  shows "served_credential now k st = Some v \<or> caches k op st v"
proof -
  obtain c s where v: "v = (c, s)" by (cases v)
  from assms v show ?thesis
  proof (cases op)
    case (OpCache it t k' c')
    with assms v show ?thesis
      by (cases st)
        (auto simp: served_credential_Some cache_credential_def live_eq update_conv'
          get_session_Some dest: map_of_make_room split: if_splits)
  next
    case (OpStoreSsh t c')
    with assms v show ?thesis
      by (cases st)
        (auto simp: served_credential_Some store_ssh_credentials_def live_eq split: if_splits)
  next
    case (OpStoreIfNoLive t s' u)
    with assms v show ?thesis
      by (cases st)
        (auto simp: served_credential_Some store_session_if_no_live_session_def slot_new_def
          split: if_splits)
  next
    case OpClearSsh
    with assms v show ?thesis
      by (cases st) (auto simp: served_credential_Some clear_ssh_credentials_def)
  qed (auto simp: served_credential_Some store_session_def clear_session_def slot_new_def
      clear_credential_cache_def)
qed

lemma served_ssh_step:
  assumes "served_ssh now (agent_exec url_parse op st) = Some v"
  shows "served_ssh now st = Some v \<or> loads op st v"
proof -
  obtain c s where v: "v = (c, s)" by (cases v)
  from assms v show ?thesis
  proof (cases op)
    case (OpCache it t k' c')
    with assms v show ?thesis
      by (cases st) (auto simp: served_ssh_Some cache_credential_def live_eq split: if_splits)
  next
    case (OpStoreSsh t c')
    with assms v show ?thesis
      by (cases st)
        (auto simp: served_ssh_Some store_ssh_credentials_def live_eq get_session_Some
          split: if_splits)
  next
    case (OpStoreIfNoLive t s' u)
    with assms v show ?thesis
      by (cases st)
        (auto simp: served_ssh_Some store_session_if_no_live_session_def slot_new_def
          split: if_splits)
  next
    case OpClearCache
    with assms v show ?thesis
      by (cases st) (auto simp: served_ssh_Some clear_credential_cache_def)
  qed (auto simp: served_ssh_Some store_session_def clear_session_def slot_new_def
      clear_ssh_credentials_def)
qed

interpretation cache_prov: provenance "agent_exec url_parse" "served_credential now k" "caches k"
  for url_parse now k
  by unfold_locales (rule served_credential_step)

interpretation ssh_prov: provenance "agent_exec url_parse" "served_ssh now" loads
  for url_parse now
  by unfold_locales (rule served_ssh_step)

lemma served_credential_ends:
  "ends_login op \<Longrightarrow> served_credential now k (agent_exec url_parse op st) = None"
  by (cases op)
    (simp_all add: served_credential_def get_cached_credential_def store_session_def slot_new_def
      clear_session_def live_def)

lemma served_ssh_ends:
  "ends_login op \<Longrightarrow> served_ssh now (agent_exec url_parse op st) = None"
  by (cases op)
    (simp_all add: served_ssh_def get_valid_ssh_credentials_def store_session_def slot_new_def
      clear_session_def live_def)

lemma caches_cases:
  "caches k op st (c, s) \<longleftrightarrow> (\<exists>it t. op = OpCache it t k c \<and> get_session t st = Some s)"
  by (cases op) auto

lemma loads_cases:
  "loads op st (c, s) \<longleftrightarrow> (\<exists>t. op = OpStoreSsh t c \<and> get_session t st = Some s)"
  by (cases op) auto

section \<open>Properties\<close>

text \<open>
  C22: the agent invariant. Whatever sequence of operations runs from the empty state, the
  credential cache stays a map with at most 128 entries under names of at most 256 bytes,
  and a stored SSH certificate is always one issued to the session's user by the session's
  server.
\<close>

theorem agent_run_inv:
  assumes "list_all agent_op_ok ops"
  shows "agent_inv url_parse (agent_run url_parse ops agent_new)"
  using agent.run_inv [OF assms, of url_parse] by (simp add: agent_run_def)

theorem agent_run_inv_witness:
  "list_all agent_op_ok [OpStoreSession (session_new 0 ''tok'' ''u@x'' 100) None,
      OpCache (\<lambda>m. m) 1 ''aws'' (cached_credential_new 1 ''{}'' 50)]
   \<and> agent_inv (\<lambda>_. None) (agent_run (\<lambda>_. None)
        [OpStoreSession (session_new 0 ''tok'' ''u@x'' 100) None,
         OpCache (\<lambda>m. m) 1 ''aws'' (cached_credential_new 1 ''{}'' 50)] agent_new)"
proof -
  have ok: "list_all agent_op_ok [OpStoreSession (session_new 0 ''tok'' ''u@x'' 100) None,
      OpCache (\<lambda>m. m) 1 ''aws'' (cached_credential_new 1 ''{}'' 50)]" by simp
  with agent_run_inv [OF ok] show ?thesis by blast
qed

text \<open>
  C8: a cached credential is served only under the login it was cached under. If the agent
  hands out credential \<open>c\<close> for \<open>k\<close> after a run from the empty state, then the run cached
  exactly \<open>c\<close> under \<open>k\<close> while the session served now was the live one, neither a login nor
  a logout happened since, and neither the credential nor the session has expired.
\<close>

theorem cached_credential_provenance:
  assumes "get_cached_credential now k (agent_run url_parse ops agent_new) = Some c"
  shows "\<exists>pre it t post s. ops = pre @ OpCache it t k c # post
           \<and> get_session t (agent_run url_parse pre agent_new) = Some s
           \<and> get_session now (agent_run url_parse ops agent_new) = Some s
           \<and> now < cc_expires_at c \<and> list_all (\<lambda>op. \<not> ends_login op) post"
proof -
  from assms obtain s where s: "get_session now (agent_run url_parse ops agent_new) = Some s"
    by (auto simp: get_cached_credential_Some get_session_Some)
  with assms have served: "served_credential now k (fold (agent_exec url_parse) ops agent_new) = Some (c, s)"
    by (simp add: served_credential_def agent_run_def)
  have "served_credential now k agent_new \<noteq> Some (c, s)"
    by (simp add: served_credential_Some agent_new_def)
  from cache_prov.served_since [OF served this, of ends_login] served_credential_ends
  obtain pre op post where "ops = pre @ op # post"
    and "caches k op (fold (agent_exec url_parse) pre agent_new) (c, s)"
    and "list_all (\<lambda>op. \<not> ends_login op) post"
    by auto
  with s assms show ?thesis
    by (auto simp: caches_cases agent_run_def get_cached_credential_Some)
qed

theorem cached_credential_provenance_witness:
  "\<exists>pre it t post s.
     [OpStoreSession (session_new 0 ''tok'' ''u@x'' 100) None,
      OpCache (\<lambda>m. m) 1 ''aws'' (cached_credential_new 1 ''{}'' 50)]
       = pre @ OpCache it t ''aws'' (cached_credential_new 1 ''{}'' 50) # post
     \<and> get_session t (agent_run (\<lambda>_. None) pre agent_new) = Some s
     \<and> get_session 7 (agent_run (\<lambda>_. None)
          [OpStoreSession (session_new 0 ''tok'' ''u@x'' 100) None,
           OpCache (\<lambda>m. m) 1 ''aws'' (cached_credential_new 1 ''{}'' 50)] agent_new) = Some s
     \<and> 7 < cc_expires_at (cached_credential_new 1 ''{}'' 50)
     \<and> list_all (\<lambda>op. \<not> ends_login op) post"
  by (rule cached_credential_provenance)
    (simp add: agent_run_def agent_new_def store_session_def slot_new_def cache_credential_def
      live_eq session_new_def cached_credential_new_def make_room_def MAX_CACHE_ENTRIES_def
      MAX_CREDENTIAL_TYPE_LEN_def get_cached_credential_def cc_is_valid_def)

text \<open>
  C13: the SSH agent signs only with a key stored under the current login and certified for it.
  Credentials served after a run from the empty state were stored by an operation of the run
  while the session served now was the live one, with neither a login nor a logout since; the
  certificate names the session's user and server; and neither session nor certificate has
  expired.
\<close>

theorem ssh_credentials_provenance:
  assumes "get_valid_ssh_credentials now (agent_run url_parse ops agent_new) = Some c"
    and "list_all agent_op_ok ops"
  shows "\<exists>pre t post s. ops = pre @ OpStoreSsh t c # post
           \<and> get_session t (agent_run url_parse pre agent_new) = Some s
           \<and> get_session now (agent_run url_parse ops agent_new) = Some s
           \<and> ssh_cert_issued_to url_parse (cm_key_id (sc_metadata c)) (sess_user_email s)
               (get_server_url now (agent_run url_parse ops agent_new))
           \<and> now \<le> cm_expires_at (sc_metadata c) \<and> list_all (\<lambda>op. \<not> ends_login op) post"
proof -
  from assms(1) obtain slot where slot: "agent_run url_parse ops agent_new = Some slot"
    "now < sess_expires_at (slot_session slot)" "slot_ssh_credentials slot = Some c"
    "now \<le> cm_expires_at (sc_metadata c)"
    by (auto simp: get_valid_ssh_credentials_Some)
  let ?s = "slot_session slot"
  have issued: "ssh_cert_issued_to url_parse (cm_key_id (sc_metadata c)) (sess_user_email ?s)
      (slot_server_url slot)"
    using agent.run_inv [OF assms(2), of url_parse] slot
    by (simp add: agent_inv_def slot_inv_def agent_run_def)
  from slot have served: "served_ssh now (fold (agent_exec url_parse) ops agent_new) = Some (c, ?s)"
    by (simp add: served_ssh_Some agent_run_def)
  have "served_ssh now agent_new \<noteq> Some (c, ?s)"
    by (simp add: served_ssh_Some agent_new_def)
  from ssh_prov.served_since [OF served this, of ends_login] served_ssh_ends
  obtain pre op post where "ops = pre @ op # post"
    and "loads op (fold (agent_exec url_parse) pre agent_new) (c, ?s)"
    and "list_all (\<lambda>op. \<not> ends_login op) post"
    by auto
  moreover have "get_session now (agent_run url_parse ops agent_new) = Some ?s"
    "get_server_url now (agent_run url_parse ops agent_new) = slot_server_url slot"
    using slot by (simp_all add: get_session_def get_server_url_def live_eq)
  ultimately show ?thesis
    using slot issued by (auto simp: loads_cases agent_run_def)
qed
definition demo_creds :: ssh_credentials where
  "demo_creds = \<lparr>sc_private_key = Ed25519_Key [1], sc_certificate_blob = [2], sc_comment = ''c'',
     sc_metadata = \<lparr>cm_expires_at = 60, cm_key_id = ''u@x@x''\<rparr>\<rparr>"

definition demo_ssh_ops :: "agent_op list" where
  "demo_ssh_ops = [OpStoreSession (session_new 0 ''tok'' ''u@x'' 100) None, OpStoreSsh 5 demo_creds]"

lemma demo_ssh_served:
  "get_valid_ssh_credentials 7 (agent_run (\<lambda>_. None) demo_ssh_ops agent_new) = Some demo_creds"
  by (simp add: demo_ssh_ops_def demo_creds_def agent_run_def agent_new_def agent_ops live_eq
      session_new_def get_valid_ssh_credentials_def ssh_is_expired_def metadata_is_expired_def
      ssh_cert_issued_to_def strip_prefix_def)

theorem ssh_credentials_provenance_witness:
  "get_valid_ssh_credentials 7 (agent_run (\<lambda>_. None) demo_ssh_ops agent_new) = Some demo_creds
   \<and> (\<exists>pre t post s. demo_ssh_ops = pre @ OpStoreSsh t demo_creds # post
           \<and> get_session t (agent_run (\<lambda>_. None) pre agent_new) = Some s
           \<and> get_session 7 (agent_run (\<lambda>_. None) demo_ssh_ops agent_new) = Some s
           \<and> ssh_cert_issued_to (\<lambda>_. None) (cm_key_id (sc_metadata demo_creds)) (sess_user_email s)
               (get_server_url 7 (agent_run (\<lambda>_. None) demo_ssh_ops agent_new))
           \<and> 7 \<le> cm_expires_at (sc_metadata demo_creds) \<and> list_all (\<lambda>op. \<not> ends_login op) post)"
proof -
  have "list_all agent_op_ok demo_ssh_ops" by (simp add: demo_ssh_ops_def)
  from ssh_credentials_provenance [OF demo_ssh_served this] demo_ssh_served show ?thesis by blast
qed

text \<open>
  C36: what caching a credential does. On a live session and a name of at most 256 bytes the
  call succeeds, the new credential is the one found under its name, and every other entry is
  kept, except that one entry is evicted exactly when the name is new and the cache holds 128
  entries. The evicted entry is an expired one if there is one, and otherwise one of those
  that expire first.
\<close>

theorem cache_credential_effect:
  assumes "hash_order_ok it" and "slot_inv url_parse slot"
    and "now < sess_expires_at (slot_session slot)" and "length k \<le> MAX_CREDENTIAL_TYPE_LEN"
  shows "\<exists>slot' evicted.
           cache_credential it now k c (Some slot) = (Inr (), Some slot')
           \<and> slot' = slot\<lparr>slot_credential_cache := slot_credential_cache slot'\<rparr>
           \<and> map_of (slot_credential_cache slot') k = Some c
           \<and> (\<forall>k'. k' \<noteq> k \<longrightarrow> map_of (slot_credential_cache slot') k'
                 = (if evicted = Some k' then None else map_of (slot_credential_cache slot) k'))
           \<and> (evicted \<noteq> None \<longleftrightarrow> map_of (slot_credential_cache slot) k = None
                 \<and> length (slot_credential_cache slot) = 128)
           \<and> (\<forall>e. evicted = Some e \<longrightarrow>
                (\<exists>d. map_of (slot_credential_cache slot) e = Some d
                   \<and> (cc_is_valid now d \<longrightarrow>
                        (\<forall>(k', d') \<in> set (slot_credential_cache slot).
                           cc_is_valid now d' \<and> cc_expires_at d \<le> cc_expires_at d'))))"
proof -
  let ?cache = "slot_credential_cache slot"
  let ?full = "map_of ?cache k = None \<and> 128 \<le> length ?cache"
  define evicted where "evicted = (if ?full then evict_key it now ?cache else None)"
  have inv: "distinct (map fst ?cache)" "length ?cache \<le> 128"
    using assms(2) by (simp_all add: slot_inv_def MAX_CACHE_ENTRIES_def)
  let ?slot' = "slot\<lparr>slot_credential_cache := AList.update k c (make_room it now k ?cache)\<rparr>"
  have run: "cache_credential it now k c (Some slot) = (Inr (), Some ?slot')"
    using assms(3,4) by (simp add: cache_credential_def live_eq)
  have room: "map_of (make_room it now k ?cache) k'
      = (if evicted = Some k' then None else map_of ?cache k')" for k'
    by (auto simp: make_room_def evicted_def MAX_CACHE_ENTRIES_def delete_conv' Let_def
        split: option.splits)
  have iff: "evicted \<noteq> None \<longleftrightarrow> map_of ?cache k = None \<and> length ?cache = 128"
    using inv evict_key_None [OF assms(1), of now ?cache] by (auto simp: evicted_def)
  have chosen: "\<exists>d. map_of ?cache e = Some d
      \<and> (cc_is_valid now d \<longrightarrow> (\<forall>(k', d') \<in> set ?cache.
            cc_is_valid now d' \<and> cc_expires_at d \<le> cc_expires_at d'))"
    if "evicted = Some e" for e
  proof -
    from that have "evict_key it now ?cache = Some e" by (simp add: evicted_def split: if_splits)
    from evict_key_Some [OF assms(1) this] show ?thesis
      using inv(1) by (metis map_of_eq_Some_iff)
  qed
  have "?slot' = slot\<lparr>slot_credential_cache := slot_credential_cache ?slot'\<rparr>" by simp
  moreover have "map_of (slot_credential_cache ?slot') k = Some c"
    by (simp add: update_conv')
  moreover have "\<forall>k'. k' \<noteq> k \<longrightarrow> map_of (slot_credential_cache ?slot') k'
      = (if evicted = Some k' then None else map_of ?cache k')"
    by (simp add: update_conv' room)
  ultimately show ?thesis using run iff chosen by blast
qed

definition demo_slot :: session_slot where
  "demo_slot = slot_new (session_new 0 ''tok'' ''u@x'' 100) None"

theorem cache_credential_effect_witness:
  "\<exists>slot'. cache_credential (\<lambda>m. m) 1 ''aws'' (cached_credential_new 1 ''{}'' 50) (Some demo_slot)
             = (Inr (), Some slot')
           \<and> map_of (slot_credential_cache slot') ''aws'' = Some (cached_credential_new 1 ''{}'' 50)"
proof -
  have "slot_inv (\<lambda>_. None) demo_slot" by (simp add: demo_slot_def slot_inv_new)
  from cache_credential_effect [OF hash_order_ok_id this, of 1 "''aws''" "cached_credential_new 1 ''{}'' 50"]
  show ?thesis
    by (auto simp: demo_slot_def slot_new_def session_new_def MAX_CREDENTIAL_TYPE_LEN_def)
qed

text \<open>
  racing logins. When several connections try to store a session only if no live one
  exists, the first wins and the slot keeps its session through every later attempt made
  before it expires, each of which reports that it did not store.
\<close>

theorem first_login_wins:
  assumes "Option.bind st (live t0) = None"
    and "\<forall>(t, s', u') \<in> set later. t < sess_expires_at s"
  shows "fst (store_session_if_no_live_session t0 s u st)
       \<and> agent_run url_parse (OpStoreIfNoLive t0 s u # map (\<lambda>(t, s', u'). OpStoreIfNoLive t s' u') later) st
           = Some (slot_new s u)
       \<and> list_all (\<lambda>(t, s', u'). \<not> fst (store_session_if_no_live_session t s' u' (Some (slot_new s u))))
           later"
proof -
  have keep: "fold (agent_exec url_parse) (map (\<lambda>(t, s', u'). OpStoreIfNoLive t s' u') later)
      (Some (slot_new s u)) = Some (slot_new s u)"
    using assms(2)
    by (induction later)
      (auto simp: store_session_if_no_live_session_def live_eq slot_new_def)
  with assms show ?thesis
    by (auto simp: agent_run_def store_session_if_no_live_session_def list_all_iff live_eq
        slot_new_def)
qed

theorem first_login_wins_witness:
  "agent_run (\<lambda>_. None) (OpStoreIfNoLive 0 (session_new 0 ''a'' ''a@x'' 100) None
      # map (\<lambda>(t, s', u'). OpStoreIfNoLive t s' u') [(5, session_new 5 ''b'' ''b@x'' 200, None)])
      agent_new
   = Some (slot_new (session_new 0 ''a'' ''a@x'' 100) None)"
  using first_login_wins [of agent_new 0 "[(5, session_new 5 ''b'' ''b@x'' 200, None)]"
      "session_new 0 ''a'' ''a@x'' 100" None "\<lambda>_. None"]
  by (simp add: agent_new_def session_new_def)

end
