(* ===== verification/Agent_Wire.thy ===== *)
theory Agent_Wire
  imports Agent_State
begin

text \<open>
  The length-prefixed framing both agent sockets use (\<open>vouch-agent/src/wire.rs\<close>). A byte
  stream is the bytes that still arrive and how it goes on after them: end of file, an I/O
  error, or silence. A read that waits on a silent stream does not return; the deadline of
  \<open>read_message_timeout\<close> turns that into an error.
\<close>

section \<open>Errors and streams\<close>

text \<open>The payload of an error is the constant part of the source's message.\<close>

datatype agent_error =
    NotRunning
  | Connection string
  | SessionExpired
  | NotAuthenticated
  | Protocol string
  | Serialization string
  | SocketPath string
  | Config string

datatype stream_end = Eof | IoError string | Silent

record stream =
  str_bytes :: bytes
  str_end :: stream_end

text \<open>
  \<open>AsyncReadExt::read_exact\<close>: all the bytes asked for, or the reason there are not that many.
  The bytes read before the reason are consumed. \<open>Waiting\<close> is a read that has not returned.
\<close>

datatype 'a read_result = Ready 'a | UnexpectedEof | ReadFailed string | Waiting

definition read_exact :: "nat \<Rightarrow> stream \<Rightarrow> bytes read_result \<times> stream" where
  "read_exact n r =
     (if n \<le> length (str_bytes r)
      then (Ready (take n (str_bytes r)), r\<lparr>str_bytes := drop n (str_bytes r)\<rparr>)
      else (case str_end r of
              Eof \<Rightarrow> UnexpectedEof
            | IoError e \<Rightarrow> ReadFailed e
            | Silent \<Rightarrow> Waiting, r\<lparr>str_bytes := []\<rparr>))"

section \<open>Big-endian words\<close>

unbundle bit_operations_syntax

definition to_be_bytes :: "u32 \<Rightarrow> bytes" where
  "to_be_bytes w = [ucast (drop_bit 24 w), ucast (drop_bit 16 w), ucast (drop_bit 8 w), ucast w]"

fun from_be_bytes :: "bytes \<Rightarrow> u32" where
  "from_be_bytes [a, b, c, d] =
     push_bit 24 (ucast a) OR push_bit 16 (ucast b) OR push_bit 8 (ucast c) OR ucast d"
| "from_be_bytes _ = 0"

text \<open>\<open>u32::try_from\<close> on a length.\<close>

definition u32_try_from :: "nat \<Rightarrow> u32 option" where
  "u32_try_from n = (if n < 2 ^ 32 then Some (of_nat n) else None)"

text \<open>A string's bytes.\<close>

definition as_bytes :: "string \<Rightarrow> bytes" where
  "as_bytes s = map of_char s"

section \<open>Messages\<close>

definition MAX_MESSAGE_SIZE :: nat where
  "MAX_MESSAGE_SIZE = 1024 * 1024"

text \<open>
  \<open>read_message\<close>. \<open>None\<close> is a read that has not returned; an I/O error in the body is a
  connection error, an end of file there included.
\<close>

definition read_message :: "stream \<Rightarrow> (agent_error + bytes option) option \<times> stream" where
  "read_message r =
     (case read_exact 4 r of
        (UnexpectedEof, r1) \<Rightarrow> (Some (Inr None), r1)
      | (ReadFailed e, r1) \<Rightarrow> (Some (Inl (Connection e)), r1)
      | (Waiting, r1) \<Rightarrow> (None, r1)
      | (Ready len_buf, r1) \<Rightarrow>
          (let len = unat (from_be_bytes len_buf)
           in if len = 0 then (Some (Inl (Protocol ''empty message'')), r1)
              else if len > MAX_MESSAGE_SIZE then (Some (Inl (Protocol ''message too large'')), r1)
              else (case read_exact len r1 of
                      (Ready buf, r2) \<Rightarrow> (Some (Inr (Some buf)), r2)
                    | (UnexpectedEof, r2) \<Rightarrow> (Some (Inl (Connection ''unexpected end of file'')), r2)
                    | (ReadFailed e, r2) \<Rightarrow> (Some (Inl (Connection e)), r2)
                    | (Waiting, r2) \<Rightarrow> (None, r2))))"

text \<open>The deadline: a read still waiting then is an error.\<close>

definition read_message_timeout :: "stream \<Rightarrow> (agent_error + bytes option) \<times> stream" where
  "read_message_timeout r =
     (case read_message r of
        (None, r1) \<Rightarrow> (Inl (Protocol ''idle connection timed out''), r1)
      | (Some res, r1) \<Rightarrow> (res, r1))"

text \<open>\<open>write_message\<close>: the bytes put on the stream.\<close>

definition write_message :: "bytes \<Rightarrow> agent_error + bytes" where
  "write_message data =
     (case u32_try_from (length data) of
        None \<Rightarrow> Inl (Protocol ''message too large'')
      | Some len \<Rightarrow> Inr (to_be_bytes len @ data))"

text \<open>
  \<open>read_u32\<close> at an offset. Offsets are \<open>usize\<close>: \<open>checked_add\<close> refuses a sum of 2 to the 64
  or more.
\<close>

definition checked_add :: "nat \<Rightarrow> nat \<Rightarrow> nat option" where
  "checked_add a b = (if a + b < 2 ^ 64 then Some (a + b) else None)"

definition slice :: "nat \<Rightarrow> nat \<Rightarrow> 'a list \<Rightarrow> 'a list option" where
  "slice a b xs = (if a \<le> b \<and> b \<le> length xs then Some (take (b - a) (drop a xs)) else None)"

definition read_u32 :: "bytes \<Rightarrow> nat \<Rightarrow> agent_error + (u32 \<times> nat)" where
  "read_u32 buf offset =
     (case checked_add offset 4 of
        None \<Rightarrow> Inl (Protocol ''buffer underflow'')
      | Some e \<Rightarrow>
          if e > length buf then Inl (Protocol ''buffer underflow'')
          else (case slice offset e buf of
                  None \<Rightarrow> Inl (Protocol ''buffer underflow'')
                | Some bs \<Rightarrow> Inr (from_be_bytes bs, e)))"

definition encode_bytes :: "bytes \<Rightarrow> agent_error + bytes" where
  "encode_bytes data =
     (case u32_try_from (length data) of
        None \<Rightarrow> Inl (Protocol ''data too large for wire format'')
      | Some len \<Rightarrow> Inr (to_be_bytes len @ data))"

definition encode_string :: "string \<Rightarrow> agent_error + bytes" where
  "encode_string s =
     (case u32_try_from (length (as_bytes s)) of
        None \<Rightarrow> Inl (Protocol ''string too large for wire format'')
      | Some len \<Rightarrow> Inr (to_be_bytes len @ as_bytes s))"

section \<open>Connections\<close>

text \<open>
  The loop of a connection, the same on both sockets. A request that has arrived is served
  before a shutdown is looked at. While the read waits, either the deadline passes, or a
  shutdown is signalled (\<open>peer_stop\<close>, with the bytes that arrive in the grace window). The
  shutdown cancels the waiting read, and the bytes that read had taken are gone; one more
  message is then read from what arrives in the window, and the loop goes on. \<open>peer_write\<close> is
  how the n-th write to the peer fails, if it does.

  \<open>handle\<close> serves one message: the bytes of the reply, or the error that ends the
  connection, and the new state. Its first argument numbers the messages. The result is what
  was written, how the connection ended, and the final state.
\<close>

record peer =
  peer_stop :: "bytes option"
  peer_write :: "nat \<Rightarrow> string option"

type_synonym 'st handler = "nat \<Rightarrow> bytes \<Rightarrow> 'st \<Rightarrow> (agent_error + bytes) \<times> 'st"

definition serve_message ::
    "'st handler \<Rightarrow> peer \<Rightarrow> nat \<Rightarrow> bytes \<Rightarrow> 'st \<Rightarrow> (agent_error + bytes) \<times> 'st" where
  "serve_message handle p n buf st =
     (case handle n buf st of
        (Inl e, st1) \<Rightarrow> (Inl e, st1)
      | (Inr reply, st1) \<Rightarrow>
          (case write_message reply of
             Inl e \<Rightarrow> (Inl e, st1)
           | Inr frame \<Rightarrow>
               (case peer_write p n of
                  Some e \<Rightarrow> (Inl (Connection e), st1)
                | None \<Rightarrow> (Inr frame, st1))))"

lemma read_message_shorter:
  assumes "read_message r = (Some (Inr (Some buf)), r1)"
  shows "length (str_bytes r1) < length (str_bytes r)"
proof -
  obtain x r' where x: "read_exact 4 r = (x, r')" by fastforce
  with assms obtain len_buf where rd: "read_exact 4 r = (Ready len_buf, r')"
    by (cases x) (auto simp: read_message_def)
  then have "length (str_bytes r) = 4 + length (str_bytes r')"
    by (auto simp: read_exact_def split: if_splits stream_end.splits)
  moreover have "length (str_bytes r1) \<le> length (str_bytes r')"
    using assms rd
    by (auto simp: read_message_def read_exact_def Let_def split: if_splits stream_end.splits)
  ultimately show ?thesis by simp
qed

function conn_loop ::
    "'st handler \<Rightarrow> peer \<Rightarrow> nat \<Rightarrow> stream \<Rightarrow> 'st \<Rightarrow> bytes \<times> (agent_error + unit) \<times> 'st" where
  "conn_loop handle p n r st =
     (case read_message r of
        (Some (Inr (Some buf)), r1) \<Rightarrow>
          (case serve_message handle p n buf st of
             (Inl e, st1) \<Rightarrow> ([], Inl e, st1)
           | (Inr frame, st1) \<Rightarrow>
               (case conn_loop handle p (Suc n) r1 st1 of (out, res) \<Rightarrow> (frame @ out, res)))
      | (Some (Inr None), r1) \<Rightarrow> ([], Inr (), st)
      | (Some (Inl e), r1) \<Rightarrow> ([], Inl e, st)
      | (None, r1) \<Rightarrow>
          (case peer_stop p of
             None \<Rightarrow> ([], Inl (Protocol ''idle connection timed out''), st)
           | Some late \<Rightarrow>
               (case read_message \<lparr>str_bytes = late, str_end = Silent\<rparr> of
                  (Some (Inr (Some buf)), r2) \<Rightarrow>
                    (case serve_message handle p n buf st of
                       (Inl e, st1) \<Rightarrow> ([], Inl e, st1)
                     | (Inr frame, st1) \<Rightarrow>
                         (case conn_loop handle (p\<lparr>peer_stop := Some []\<rparr>) (Suc n) r2 st1 of
                            (out, res) \<Rightarrow> (frame @ out, res)))
                | _ \<Rightarrow> ([], Inr (), st))))"
  by pat_completeness auto
termination
  by (relation "measure (\<lambda>(h, p, n, r, st).
        length (str_bytes r) + (case peer_stop p of None \<Rightarrow> 0 | Some late \<Rightarrow> length late))")
    (auto dest!: read_message_shorter [OF sym])

declare conn_loop.simps [simp del]

section \<open>Lemmas\<close>

lemma length_to_be_bytes [simp]: "length (to_be_bytes w) = 4"
  by (simp add: to_be_bytes_def)

lemma from_to_be_bytes [simp]: "from_be_bytes (to_be_bytes w) = w"
proof (rule bit_word_eqI)
  fix n
  assume "n < LENGTH(32)"
  then have "n < 8 \<or> 8 \<le> n \<and> n < 16 \<or> 16 \<le> n \<and> n < 24 \<or> 24 \<le> n \<and> n < 32" by auto
  then show "bit (from_be_bytes (to_be_bytes w)) n \<longleftrightarrow> bit w n"
    by (auto simp: to_be_bytes_def bit_simps)
qed

lemma to_be_bytes_from:
  assumes "length bs = 4"
  shows "to_be_bytes (from_be_bytes bs) = bs"
proof -
  from assms obtain a b c d where bs: "bs = [a, b, c, d]"
    by (auto simp: length_Suc_conv eval_nat_numeral)
  show ?thesis
    unfolding bs to_be_bytes_def from_be_bytes.simps
    by (intro list.inject [THEN iffD2] conjI refl; rule bit_word_eqI;
        auto simp: bit_simps dest: bit_imp_le_length)
qed

lemma u32_try_from_Some [simp]: "u32_try_from n = Some w \<longleftrightarrow> n < 2 ^ 32 \<and> w = of_nat n"
  by (auto simp: u32_try_from_def)

lemma u32_try_from_None [simp]: "u32_try_from n = None \<longleftrightarrow> 2 ^ 32 \<le> n"
  by (auto simp: u32_try_from_def)

lemma unat_u32 [simp]: "n < 2 ^ 32 \<Longrightarrow> unat (of_nat n :: u32) = n"
  by (simp add: unat_of_nat take_bit_eq_mod)

lemma unat_ucast_u8: "unat (ucast (t :: u8) :: u32) = unat t"
  by (rule bit_eqI) (auto simp: bit_simps dest: bit_imp_le_length)

lemma length_as_bytes [simp]: "length (as_bytes s) = length s"
  by (simp add: as_bytes_def)

text \<open>What is left of a stream is a suffix of what there was.\<close>

lemma read_exact_Ready:
  "read_exact n r = (Ready bs, r') \<longleftrightarrow>
     length bs = n \<and> str_bytes r = bs @ str_bytes r' \<and> str_end r' = str_end r"
  by (cases r; cases r') (auto simp: read_exact_def append_eq_conv_conj min_def split: stream_end.splits)

lemma read_exact_append:
  "length bs = n \<Longrightarrow>
     read_exact n \<lparr>str_bytes = bs @ rest, str_end = e\<rparr> = (Ready bs, \<lparr>str_bytes = rest, str_end = e\<rparr>)"
  by (simp add: read_exact_Ready)

lemma read_message_frame:
  assumes "data \<noteq> []" and "length data \<le> MAX_MESSAGE_SIZE"
  shows "read_message \<lparr>str_bytes = to_be_bytes (of_nat (length data)) @ data @ rest, str_end = e\<rparr>
           = (Some (Inr (Some data)), \<lparr>str_bytes = rest, str_end = e\<rparr>)"
proof -
  have "length data < 2 ^ 32" using assms(2) by (simp add: MAX_MESSAGE_SIZE_def)
  with assms show ?thesis by (simp add: read_message_def read_exact_append)
qed

lemma read_u32_at:
  assumes "offset = length pre" and "offset + 4 < 2 ^ 64"
  shows "read_u32 (pre @ to_be_bytes w @ rest) offset = Inr (w, offset + 4)"
  using assms by (simp add: read_u32_def checked_add_def slice_def)

lemma read_u32_end: "read_u32 buf offset = Inr (w, e) \<Longrightarrow> e = offset + 4 \<and> e \<le> length buf"
  by (auto simp: read_u32_def checked_add_def split: option.splits if_splits)

text \<open>
  What serving a list of complete messages amounts to: one reply per message, in order, up to
  the first message that ends the connection.
\<close>

fun serve_all ::
    "'st handler \<Rightarrow> peer \<Rightarrow> nat \<Rightarrow> bytes list \<Rightarrow> 'st \<Rightarrow> bytes \<times> (agent_error + unit) \<times> 'st" where
  "serve_all handle p n [] st = ([], Inr (), st)"
| "serve_all handle p n (m # ms) st =
     (case serve_message handle p n m st of
        (Inl e, st1) \<Rightarrow> ([], Inl e, st1)
      | (Inr frame, st1) \<Rightarrow>
          (case serve_all handle p (Suc n) ms st1 of (out, res) \<Rightarrow> (frame @ out, res)))"

definition frame_of :: "bytes \<Rightarrow> bytes" where
  "frame_of m = to_be_bytes (of_nat (length m)) @ m"

definition message_ok :: "bytes \<Rightarrow> bool" where
  "message_ok m \<longleftrightarrow> m \<noteq> [] \<and> length m \<le> MAX_MESSAGE_SIZE"

lemma read_exact_short:
  "length (str_bytes r) < n \<Longrightarrow> str_end r = Eof \<Longrightarrow>
     read_exact n r = (UnexpectedEof, r\<lparr>str_bytes := []\<rparr>)"
  by (simp add: read_exact_def)

lemma read_message_Eof:
  "length bs < 4 \<Longrightarrow>
     read_message \<lparr>str_bytes = bs, str_end = Eof\<rparr> = (Some (Inr None), \<lparr>str_bytes = [], str_end = Eof\<rparr>)"
  by (simp add: read_message_def read_exact_short)

lemma conn_loop_frames:
  assumes "list_all message_ok ms" and "length tail < 4"
  shows "conn_loop handle p n \<lparr>str_bytes = concat (map frame_of ms) @ tail, str_end = Eof\<rparr> st
           = serve_all handle p n ms st"
  using assms(1)
proof (induction ms arbitrary: n st)
  case Nil
  with assms(2) show ?case by (subst conn_loop.simps) (simp add: read_message_Eof)
next
  case (Cons m ms)
  let ?rest = "\<lparr>str_bytes = concat (map frame_of ms) @ tail, str_end = Eof\<rparr>"
  have "read_message \<lparr>str_bytes = concat (map frame_of (m # ms)) @ tail, str_end = Eof\<rparr>
      = (Some (Inr (Some m)), ?rest)"
    using Cons.prems by (simp add: frame_of_def read_message_frame message_ok_def)
  with Cons show ?case
    by (subst conn_loop.simps) (simp split: prod.splits sum.splits)
qed

section \<open>Properties\<close>

text \<open>
  framing round trip. A message of at most 1 MiB that the writer puts on a stream is what
  the reader returns, the bytes behind it untouched, so frames are self-delimiting.
\<close>

theorem write_read_message:
  assumes "data \<noteq> []" and "length data \<le> MAX_MESSAGE_SIZE"
  shows "\<exists>frame. write_message data = Inr frame
           \<and> read_message \<lparr>str_bytes = frame @ rest, str_end = e\<rparr>
               = (Some (Inr (Some data)), \<lparr>str_bytes = rest, str_end = e\<rparr>)"
proof -
  have "length data < 2 ^ 32" using assms(2) by (simp add: MAX_MESSAGE_SIZE_def)
  then have "write_message data = Inr (to_be_bytes (of_nat (length data)) @ data)"
    by (simp add: write_message_def u32_try_from_def)
  with read_message_frame [OF assms] show ?thesis by simp
qed

theorem write_read_message_witness:
  "\<exists>frame. write_message [11] = Inr frame
     \<and> read_message \<lparr>str_bytes = frame @ [7], str_end = Silent\<rparr>
         = (Some (Inr (Some [11])), \<lparr>str_bytes = [7], str_end = Silent\<rparr>)"
  by (rule write_read_message) (simp_all add: MAX_MESSAGE_SIZE_def)





end
