(* ===== verification/Agent_Ssh.thy ===== *)
theory Agent_Ssh
  imports Agent_Wire
begin

text \<open>
  The SSH agent (\<open>vouch-agent/src/ssh_agent/\<close>): building and parsing its messages, loading
  credentials from disk, and answering the requests of a connection. The crates the code calls
  are arguments, collected in a record: the key and certificate parsers of \<open>ssh_key\<close>, Ed25519
  signing, base64, the calendar range of \<open>jiff\<close>, and the URL parser. The file system is a
  record of what it answers.
\<close>

section \<open>Parameters\<close>

text \<open>A certificate as \<open>ssh_key\<close> shows it: \<open>to_openssh\<close>, \<open>valid_before\<close> and \<open>key_id\<close>.\<close>

record certificate =
  cert_openssh :: "string option"
  cert_valid_before :: nat
  cert_key_id :: string

record ssh_crates =
  ck_private_key_from_openssh :: "string \<Rightarrow> private_key option"
  ck_certificate_from_openssh :: "string \<Rightarrow> certificate option"
  ck_ed25519_sign :: "bytes \<Rightarrow> bytes \<Rightarrow> bytes"
  ck_base64_decode :: "string \<Rightarrow> bytes option"
  ck_timestamp_from_second :: "int \<Rightarrow> timestamp option"
  ck_url_parse :: url_parser

record file_system =
  fs_home :: "string option"
  fs_exists :: "string \<Rightarrow> bool"
  fs_read :: "string \<Rightarrow> string option"

section \<open>Loading credentials\<close>

text \<open>A \<open>u64\<close> that does not fit an \<open>i64\<close> becomes the largest one.\<close>

definition i64_or_max :: "nat \<Rightarrow> int" where
  "i64_or_max n = (if n < 2 ^ 63 then int n else 2 ^ 63 - 1)"

definition from_certificate :: "ssh_crates \<Rightarrow> certificate \<Rightarrow> agent_error + certificate_metadata" where
  "from_certificate ck cert =
     (case ck_timestamp_from_second ck (i64_or_max (cert_valid_before cert)) of
        None \<Rightarrow> Inl (Protocol ''invalid valid_before timestamp'')
      | Some expires_at \<Rightarrow> Inr \<lparr>cm_expires_at = expires_at, cm_key_id = cert_key_id cert\<rparr>)"

definition parse_openssh_public_key :: "ssh_crates \<Rightarrow> string \<Rightarrow> agent_error + bytes" where
  "parse_openssh_public_key ck openssh =
     (let parts = split_whitespace openssh
      in if length parts < 2 then Inl (Protocol ''invalid OpenSSH key format'')
         else (case ck_base64_decode ck (parts ! 1) of
                 None \<Rightarrow> Inl (Protocol ''invalid base64'')
               | Some blob \<Rightarrow> Inr blob))"

definition ssh_credentials_new ::
    "ssh_crates \<Rightarrow> private_key \<Rightarrow> certificate \<Rightarrow> string \<Rightarrow> agent_error + ssh_credentials" where
  "ssh_credentials_new ck key cert comment =
     (case cert_openssh cert of
        None \<Rightarrow> Inl (Protocol ''failed to serialize certificate'')
      | Some openssh \<Rightarrow>
          (case parse_openssh_public_key ck openssh of
             Inl e \<Rightarrow> Inl e
           | Inr blob \<Rightarrow>
               (case from_certificate ck cert of
                  Inl e \<Rightarrow> Inl e
                | Inr meta \<Rightarrow>
                    Inr \<lparr>sc_private_key = key, sc_certificate_blob = blob, sc_comment = comment,
                         sc_metadata = meta\<rparr>)))"

definition ssh_credentials_load ::
    "ssh_crates \<Rightarrow> file_system \<Rightarrow> string \<Rightarrow> string \<Rightarrow> agent_error + ssh_credentials" where
  "ssh_credentials_load ck fs key_path cert_path =
     (case fs_read fs key_path of
        None \<Rightarrow> Inl (Protocol ''failed to read private key'')
      | Some key_data \<Rightarrow>
          (case ck_private_key_from_openssh ck key_data of
             None \<Rightarrow> Inl (Protocol ''failed to parse private key'')
           | Some key \<Rightarrow>
               (case fs_read fs cert_path of
                  None \<Rightarrow> Inl (Protocol ''failed to read certificate'')
                | Some cert_data \<Rightarrow>
                    (case ck_certificate_from_openssh ck cert_data of
                       None \<Rightarrow> Inl (Protocol ''failed to parse certificate'')
                     | Some cert \<Rightarrow> ssh_credentials_new ck key cert (cert_key_id cert)))))"

section \<open>Messages\<close>

definition SSH_AGENT_FAILURE :: u8 where "SSH_AGENT_FAILURE = 5"
definition SSH_AGENTC_REQUEST_IDENTITIES :: u8 where "SSH_AGENTC_REQUEST_IDENTITIES = 11"
definition SSH_AGENT_IDENTITIES_ANSWER :: u8 where "SSH_AGENT_IDENTITIES_ANSWER = 12"
definition SSH_AGENTC_SIGN_REQUEST :: u8 where "SSH_AGENTC_SIGN_REQUEST = 13"
definition SSH_AGENT_SIGN_RESPONSE :: u8 where "SSH_AGENT_SIGN_RESPONSE = 14"

lemmas ssh_codes = SSH_AGENT_FAILURE_def SSH_AGENTC_REQUEST_IDENTITIES_def
  SSH_AGENT_IDENTITIES_ANSWER_def SSH_AGENTC_SIGN_REQUEST_def SSH_AGENT_SIGN_RESPONSE_def

definition build_identities_response :: "ssh_credentials option \<Rightarrow> agent_error + bytes" where
  "build_identities_response creds =
     (case creds of
        None \<Rightarrow> Inr (SSH_AGENT_IDENTITIES_ANSWER # to_be_bytes 0)
      | Some c \<Rightarrow>
          (case u32_try_from (length (sc_certificate_blob c)) of
             None \<Rightarrow> Inl (Protocol ''certificate too large'')
           | Some blob_len \<Rightarrow>
               (case u32_try_from (length (as_bytes (sc_comment c))) of
                  None \<Rightarrow> Inl (Protocol ''comment too large'')
                | Some comment_len \<Rightarrow>
                    Inr (SSH_AGENT_IDENTITIES_ANSWER # to_be_bytes 1
                         @ to_be_bytes blob_len @ sc_certificate_blob c
                         @ to_be_bytes comment_len @ as_bytes (sc_comment c)))))"

definition build_sign_response :: "bytes \<Rightarrow> agent_error + bytes" where
  "build_sign_response sig_blob =
     (case u32_try_from (length sig_blob) of
        None \<Rightarrow> Inl (Protocol ''signature too large'')
      | Some sig_len \<Rightarrow> Inr (SSH_AGENT_SIGN_RESPONSE # to_be_bytes sig_len @ sig_blob))"

definition parse_sign_request :: "bytes \<Rightarrow> agent_error + bytes" where
  "parse_sign_request buf =
     (case read_u32 buf 1 of
        Inl e \<Rightarrow> Inl e
      | Inr (key_blob_len, offset) \<Rightarrow>
          (case checked_add offset (unat key_blob_len) of
             None \<Rightarrow> Inl (Protocol ''key blob offset overflow'')
           | Some key_blob_end \<Rightarrow>
               if key_blob_end > length buf then Inl (Protocol ''invalid key blob length'')
               else (case read_u32 buf key_blob_end of
                       Inl e \<Rightarrow> Inl e
                     | Inr (data_len, offset) \<Rightarrow>
                         (case checked_add offset (unat data_len) of
                            None \<Rightarrow> Inl (Protocol ''data offset overflow'')
                          | Some data_end \<Rightarrow>
                              (case slice offset data_end buf of
                                 None \<Rightarrow> Inl (Protocol ''invalid data length'')
                               | Some data \<Rightarrow> Inr data)))))"

definition sign_data :: "ssh_crates \<Rightarrow> private_key \<Rightarrow> bytes \<Rightarrow> agent_error + bytes" where
  "sign_data ck key data =
     (case key of
        Other_Key alg \<Rightarrow> Inl (Protocol ''unsupported key algorithm'')
      | Ed25519_Key seed \<Rightarrow>
          (case encode_string ''ssh-ed25519'' of
             Inl e \<Rightarrow> Inl e
           | Inr name \<Rightarrow>
               (case encode_bytes (ck_ed25519_sign ck seed data) of
                  Inl e \<Rightarrow> Inl e
                | Inr sig \<Rightarrow> Inr (name @ sig))))"

section \<open>Requests\<close>

text \<open>The events of the audit log (\<open>audit.rs\<close>), in the order they are written.\<close>

datatype socket_kind = Ipc | SshAgent

datatype audit_event =
    SessionStored string
  | SessionCleared
  | AuditSessionExpired "string option"
  | SshCertProvisioned string string
  | SshSigning
  | CredentialCached string
  | CredentialCacheCleared
  | ConnectionRejected socket_kind u32 u32 string

definition DEFAULT_KEY_NAME :: string where
  "DEFAULT_KEY_NAME = ''id_ed25519_vouch''"

text \<open>\<open>PathBuf::join\<close> with a relative name.\<close>

definition path_join :: "string \<Rightarrow> string \<Rightarrow> string" where
  "path_join base name =
     (if base = [] \<or> ends_with ''/'' base then base @ name else base @ ''/'' @ name)"

text \<open>
  The disk part of \<open>try_load_from_disk\<close>: the default key and certificate, if both files are
  there, load, and are not expired.
\<close>

definition load_default :: "ssh_crates \<Rightarrow> file_system \<Rightarrow> timestamp \<Rightarrow> ssh_credentials option" where
  "load_default ck fs now =
     Option.bind (fs_home fs) (\<lambda>home.
       let ssh_dir = path_join home ''.ssh'';
           key_path = path_join ssh_dir DEFAULT_KEY_NAME;
           cert_path = path_join ssh_dir (DEFAULT_KEY_NAME @ ''-cert.pub'')
       in if \<not> fs_exists fs key_path \<or> \<not> fs_exists fs cert_path then None
          else (case ssh_credentials_load ck fs key_path cert_path of
                  Inl e \<Rightarrow> None
                | Inr creds \<Rightarrow> if ssh_is_expired now creds then None else Some creds))"

text \<open>
  The handlers, run without interference. Each critical section and each clock reading has
  its own instant: \<open>t 0\<close> for the credentials, \<open>t 1\<close> for the session check, \<open>t 2\<close> for the
  expiry of the loaded certificate, \<open>t 3\<close> for the store.
\<close>

definition try_load_from_disk ::
    "ssh_crates \<Rightarrow> file_system \<Rightarrow> (nat \<Rightarrow> timestamp) \<Rightarrow> agent_state
       \<Rightarrow> ssh_credentials option \<times> agent_state" where
  "try_load_from_disk ck fs t st =
     (case get_session (t 1) st of
        None \<Rightarrow> (None, st)
      | Some s \<Rightarrow>
          (case load_default ck fs (t 2) of
             None \<Rightarrow> (None, st)
           | Some creds \<Rightarrow>
               (case store_ssh_credentials (ck_url_parse ck) (t 3) creds st of
                  (Inl refusal, st1) \<Rightarrow> (None, st1)
                | (Inr _, st1) \<Rightarrow> (Some creds, st1))))"

definition handle_request_identities ::
    "ssh_crates \<Rightarrow> file_system \<Rightarrow> (nat \<Rightarrow> timestamp) \<Rightarrow> agent_state
       \<Rightarrow> (agent_error + bytes) \<times> agent_state" where
  "handle_request_identities ck fs t st =
     (case get_valid_ssh_credentials (t 0) st of
        Some c \<Rightarrow> (build_identities_response (Some c), st)
      | None \<Rightarrow>
          (case try_load_from_disk ck fs t st of
             (Some loaded, st1) \<Rightarrow> (build_identities_response (Some loaded), st1)
           | (None, st1) \<Rightarrow> (build_identities_response None, st1)))"

text \<open>Signing with credentials in hand: the reply and the audit events.\<close>

definition sign_with ::
    "ssh_crates \<Rightarrow> ssh_credentials \<Rightarrow> bytes \<Rightarrow> (agent_error + bytes) \<times> audit_event list" where
  "sign_with ck creds buf =
     (case parse_sign_request buf of
        Inl e \<Rightarrow> (Inl e, [])
      | Inr data \<Rightarrow>
          (case sign_data ck (sc_private_key creds) data of
             Inl e \<Rightarrow> (Inl e, [])
           | Inr sig_blob \<Rightarrow> (build_sign_response sig_blob, [SshSigning])))"

definition handle_sign_request ::
    "ssh_crates \<Rightarrow> timestamp \<Rightarrow> bytes \<Rightarrow> agent_state \<Rightarrow> (agent_error + bytes) \<times> audit_event list" where
  "handle_sign_request ck now buf st =
     (case get_valid_ssh_credentials now st of
        None \<Rightarrow> (Inl (Protocol ''no valid credentials available''), [])
      | Some creds \<Rightarrow> sign_with ck creds buf)"

text \<open>
  One message of a connection: its state is the agent's and the audit log. An error of a
  handler becomes a failure reply; only an oversized message ends the connection.
\<close>

definition ssh_handler ::
    "ssh_crates \<Rightarrow> (nat \<Rightarrow> file_system) \<Rightarrow> (nat \<Rightarrow> nat \<Rightarrow> timestamp)
       \<Rightarrow> (agent_state \<times> audit_event list) handler" where
  "ssh_handler ck fs clk n buf s =
     (if length buf > 256 * 1024 then (Inl (Protocol ''invalid message length''), s)
      else let (st, log) = s;
               msg_type = (case buf of [] \<Rightarrow> 0 | b # _ \<Rightarrow> b);
               (response, st1, evs) =
                 (if msg_type = SSH_AGENTC_REQUEST_IDENTITIES
                  then (case handle_request_identities ck (fs n) (clk n) st of (r, st1) \<Rightarrow> (r, st1, []))
                  else if msg_type = SSH_AGENTC_SIGN_REQUEST
                  then (case handle_sign_request ck (clk n 0) buf st of (r, evs) \<Rightarrow> (r, st, evs))
                  else (Inr [SSH_AGENT_FAILURE], st, []))
           in (Inr (case response of Inr data \<Rightarrow> data | Inl e \<Rightarrow> [SSH_AGENT_FAILURE]), st1, log @ evs))"

definition handle_ssh_connection ::
    "ssh_crates \<Rightarrow> (nat \<Rightarrow> file_system) \<Rightarrow> (nat \<Rightarrow> nat \<Rightarrow> timestamp) \<Rightarrow> peer \<Rightarrow> stream
       \<Rightarrow> agent_state \<times> audit_event list
       \<Rightarrow> bytes \<times> (agent_error + unit) \<times> agent_state \<times> audit_event list" where
  "handle_ssh_connection ck fs clk p r s = conn_loop (ssh_handler ck fs clk) p 0 r s"

section \<open>Interleaving\<close>

text \<open>
  A handler as a task that other connections may interrupt between any two critical sections.
  A signing task holds the credentials it read while it signs outside the lock.
\<close>

datatype ssh_task =
    IdStart
  | IdCheckSession
  | IdLoad
  | IdStore ssh_credentials
  | SignStart bytes
  | SignHolding ssh_credentials bytes
  | Replied "agent_error + bytes"

fun ssh_task_step ::
    "ssh_crates \<Rightarrow> file_system \<Rightarrow> timestamp \<Rightarrow> ssh_task \<times> agent_state \<Rightarrow> ssh_task \<times> agent_state" where
  "ssh_task_step ck fs now (IdStart, st) =
     (case get_valid_ssh_credentials now st of
        Some c \<Rightarrow> (Replied (build_identities_response (Some c)), st)
      | None \<Rightarrow> (IdCheckSession, st))"
| "ssh_task_step ck fs now (IdCheckSession, st) =
     (case get_session now st of
        None \<Rightarrow> (Replied (build_identities_response None), st)
      | Some s \<Rightarrow> (IdLoad, st))"
| "ssh_task_step ck fs now (IdLoad, st) =
     (case load_default ck fs now of
        None \<Rightarrow> (Replied (build_identities_response None), st)
      | Some creds \<Rightarrow> (IdStore creds, st))"
| "ssh_task_step ck fs now (IdStore creds, st) =
     (case store_ssh_credentials (ck_url_parse ck) now creds st of
        (Inl refusal, st1) \<Rightarrow> (Replied (build_identities_response None), st1)
      | (Inr _, st1) \<Rightarrow> (Replied (build_identities_response (Some creds)), st1))"
| "ssh_task_step ck fs now (SignStart buf, st) =
     (case get_valid_ssh_credentials now st of
        None \<Rightarrow> (Replied (Inl (Protocol ''no valid credentials available'')), st)
      | Some creds \<Rightarrow> (SignHolding creds buf, st))"
| "ssh_task_step ck fs now (SignHolding creds buf, st) = (Replied (fst (sign_with ck creds buf)), st)"
| "ssh_task_step ck fs now (Replied r, st) = (Replied r, st)"

datatype world_event = Other agent_op | Own timestamp file_system

fun world_exec :: "ssh_crates \<Rightarrow> world_event \<Rightarrow> ssh_task \<times> agent_state \<Rightarrow> ssh_task \<times> agent_state" where
  "world_exec ck (Other op) (task, st) = (task, agent_exec (ck_url_parse ck) op st)"
| "world_exec ck (Own now fs) w = ssh_task_step ck fs now w"

section \<open>Lemmas on the messages\<close>

lemma slice_append:
  "slice (length pre) (length pre + length mid) (pre @ mid @ post) = Some mid"
  by (simp add: slice_def)

lemma slice_Some:
  "slice a b xs = Some ys \<longleftrightarrow> (\<exists>pre post. xs = pre @ ys @ post \<and> length pre = a \<and> a + length ys = b)"
proof
  assume "slice a b xs = Some ys"
  then have ab: "a \<le> b" "b \<le> length xs" and ys: "ys = take (b - a) (drop a xs)"
    by (auto simp: slice_def split: if_splits)
  have "xs = take a xs @ ys @ drop b xs"
    using ab by (metis ys append_take_drop_id drop_drop le_add_diff_inverse2)
  with ab ys show "\<exists>pre post. xs = pre @ ys @ post \<and> length pre = a \<and> a + length ys = b"
    by (intro exI [of _ "take a xs"] exI [of _ "drop b xs"]) (auto simp: min_def)
next
  assume "\<exists>pre post. xs = pre @ ys @ post \<and> length pre = a \<and> a + length ys = b"
  then show "slice a b xs = Some ys" using slice_append by blast
qed

lemma read_u32_Inr:
  assumes "length buf < 2 ^ 64"
  shows "read_u32 buf a = Inr (w, b) \<longleftrightarrow>
     (\<exists>pre post. buf = pre @ to_be_bytes w @ post \<and> length pre = a \<and> b = a + 4)"
proof
  assume *: "read_u32 buf a = Inr (w, b)"
  then obtain bs where bs: "slice a (a + 4) buf = Some bs" "w = from_be_bytes bs" "b = a + 4"
    by (auto simp: read_u32_def checked_add_def split: option.splits if_splits)
  then obtain pre post where "buf = pre @ bs @ post" "length pre = a" "length bs = 4"
    by (auto simp: slice_Some)
  with bs show "\<exists>pre post. buf = pre @ to_be_bytes w @ post \<and> length pre = a \<and> b = a + 4"
    by (metis to_be_bytes_from)
next
  assume "\<exists>pre post. buf = pre @ to_be_bytes w @ post \<and> length pre = a \<and> b = a + 4"
  then obtain pre post where "buf = pre @ to_be_bytes w @ post" "length pre = a" "b = a + 4" by blast
  with assms show "read_u32 buf a = Inr (w, b)" by (simp add: read_u32_at)
qed

lemma frame_of_unat:
  "length k = unat (w :: u32) \<Longrightarrow> to_be_bytes w @ k = frame_of k \<and> length k < 2 ^ 32"
  using unsigned_less [of w] by (auto simp: frame_of_def)

lemma parse_sign_request_frames:
  assumes "length (t # frame_of k @ frame_of data @ flags) < 2 ^ 64"
    and "length k < 2 ^ 32" and "length data < 2 ^ 32"
  shows "parse_sign_request (t # frame_of k @ frame_of data @ flags) = Inr data"
proof -
  let ?buf = "t # frame_of k @ frame_of data @ flags"
  have "?buf = [t] @ to_be_bytes (of_nat (length k)) @ k @ frame_of data @ flags"
    by (simp add: frame_of_def)
  then have k: "read_u32 ?buf 1 = Inr (of_nat (length k), 5)"
    using read_u32_at [of 1 "[t]"] by simp
  have "?buf = (t # frame_of k) @ to_be_bytes (of_nat (length data)) @ data @ flags"
    by (simp add: frame_of_def)
  then have d: "read_u32 ?buf (5 + length k) = Inr (of_nat (length data), 9 + length k)"
    using read_u32_at [of "5 + length k" "t # frame_of k"] assms by (simp add: frame_of_def)
  have "?buf = (t # frame_of k @ to_be_bytes (of_nat (length data))) @ data @ flags"
    by (simp add: frame_of_def)
  then have s: "slice (9 + length k) (9 + length k + length data) ?buf = Some data"
    using slice_append [of "t # frame_of k @ to_be_bytes (of_nat (length data))" data flags]
    by (simp add: frame_of_def)
  show ?thesis
    unfolding parse_sign_request_def k
    using assms d s by (simp add: checked_add_def frame_of_def)
qed

lemma parse_sign_request_Inr:
  assumes "length buf < 2 ^ 64" and "parse_sign_request buf = Inr data"
  shows "\<exists>t k flags. buf = t # frame_of k @ frame_of data @ flags
           \<and> length k < 2 ^ 32 \<and> length data < 2 ^ 32"
proof -
  from assms(2) obtain kl where k: "read_u32 buf 1 = Inr (kl, 5)"
    using read_u32_end by (fastforce simp: parse_sign_request_def split: sum.splits)
  then obtain t post where buf: "buf = [t] @ to_be_bytes kl @ post"
    unfolding read_u32_Inr [OF assms(1)] by (auto simp: length_Suc_conv)
  let ?e = "5 + unat kl"
  from assms(2) k have e: "?e \<le> length buf"
    by (auto simp: parse_sign_request_def checked_add_def split: if_splits sum.splits)
  with assms(2) k obtain dl b where d: "read_u32 buf ?e = Inr (dl, b)"
    and s: "slice b (b + unat dl) buf = Some data"
    by (auto simp: parse_sign_request_def checked_add_def
        split: if_splits sum.splits option.splits)
  from d obtain pre post2 where buf2: "buf = pre @ to_be_bytes dl @ post2" "length pre = ?e" "b = ?e + 4"
    unfolding read_u32_Inr [OF assms(1)] by auto
  from s buf2 have data: "data = take (unat dl) post2" "length data = unat dl"
    by (auto simp: slice_def split: if_splits)
  let ?k = "drop 5 pre"
  have len_k: "length ?k = unat kl" using buf2 by simp
  have "take 5 buf = t # to_be_bytes kl" using buf by simp
  then have "take 5 pre = t # to_be_bytes kl" using buf2 by simp
  then have pre: "pre = t # to_be_bytes kl @ ?k" by (metis append_Cons append_take_drop_id)
  have "buf = t # (to_be_bytes kl @ ?k) @ (to_be_bytes dl @ data) @ drop (unat dl) post2"
    using buf2(1) pre data(1) by (metis append.assoc append_Cons append_take_drop_id)
  then have "buf = t # frame_of ?k @ frame_of data @ drop (unat dl) post2"
    using frame_of_unat [OF len_k] frame_of_unat [OF data(2)] by simp
  with frame_of_unat [OF len_k] frame_of_unat [OF data(2)] show ?thesis by blast
qed

section \<open>What a reply rests on\<close>

text \<open>The reply a task is committed to, and the steps that commit it.\<close>

fun committed :: "ssh_crates \<Rightarrow> ssh_task \<times> agent_state \<Rightarrow> (agent_error + bytes) option" where
  "committed ck (Replied r, st) = Some r"
| "committed ck (SignHolding c buf, st) = Some (fst (sign_with ck c buf))"
| "committed ck _ = None"

text \<open>The live slot a credential is taken from or stored in.\<close>

definition holds :: "timestamp \<Rightarrow> ssh_credentials \<Rightarrow> agent_state \<Rightarrow> bool" where
  "holds now c st \<longleftrightarrow> (\<exists>slot. st = Some slot \<and> now < sess_expires_at (slot_session slot)
     \<and> slot_ssh_credentials slot = Some c)"

definition commits ::
    "ssh_crates \<Rightarrow> world_event \<Rightarrow> ssh_task \<times> agent_state \<Rightarrow> agent_error + bytes \<Rightarrow> bool" where
  "commits ck ev w r \<longleftrightarrow>
     (\<exists>now fs. ev = Own now fs \<and>
       (case fst w of
          SignStart buf \<Rightarrow>
            r = Inl (Protocol ''no valid credentials available'')
            \<or> (\<exists>c. get_valid_ssh_credentials now (snd w) = Some c \<and> r = fst (sign_with ck c buf))
        | SignHolding c buf \<Rightarrow> False
        | Replied r' \<Rightarrow> False
        | _ \<Rightarrow>
            r = build_identities_response None
            \<or> (\<exists>c. holds now c (snd (world_exec ck ev w)) \<and> r = build_identities_response (Some c))))"

lemma valid_holds: "get_valid_ssh_credentials now st = Some c \<Longrightarrow> holds now c st"
  by (auto simp: get_valid_ssh_credentials_Some holds_def)

lemma store_holds:
  "store_ssh_credentials url_parse now c st = (Inr u, st1) \<Longrightarrow> holds now c st1"
  by (cases st) (auto simp: store_ssh_credentials_def live_eq holds_def split: if_splits)

lemma committed_step:
  assumes "committed ck (world_exec ck ev w) = Some r"
  shows "committed ck w = Some r \<or> commits ck ev w r"
proof (cases ev)
  case (Other op)
  obtain task st where "w = (task, st)" by (cases w)
  with Other assms show ?thesis by (cases task) auto
next
  case (Own now fs)
  obtain task st where w: "w = (task, st)" by (cases w)
  show ?thesis
  proof (cases task)
    case IdStart
    with Own w assms show ?thesis
      by (auto simp: commits_def dest: valid_holds split: option.splits)
  next
    case (IdStore c)
    with Own w assms show ?thesis
      by (auto simp: commits_def dest: store_holds split: prod.splits sum.splits)
  qed (use Own w assms in \<open>auto simp: commits_def split: option.splits\<close>)
qed

interpretation reply_prov: provenance "world_exec ck" "committed ck" "commits ck"
  for ck
  by unfold_locales (rule committed_step)

text \<open>The agent's invariant holds throughout an interleaved run.\<close>

definition world_inv :: "ssh_crates \<Rightarrow> ssh_task \<times> agent_state \<Rightarrow> bool" where
  "world_inv ck w = agent_inv (ck_url_parse ck) (snd w)"

fun world_event_ok :: "world_event \<Rightarrow> bool" where
  "world_event_ok (Other op) = agent_op_ok op"
| "world_event_ok (Own now fs) = True"

lemma ssh_task_step_state:
  "snd (ssh_task_step ck fs now (task, st)) = st
   \<or> (\<exists>c. snd (ssh_task_step ck fs now (task, st))
          = agent_exec (ck_url_parse ck) (OpStoreSsh now c) st)"
proof (cases task)
  case (IdStore c)
  then have "snd (ssh_task_step ck fs now (task, st))
      = agent_exec (ck_url_parse ck) (OpStoreSsh now c) st"
    by (simp split: prod.splits sum.splits)
  then show ?thesis by blast
qed (auto split: option.splits)

lemma world_inv_step:
  assumes "world_event_ok ev" and "world_inv ck w"
  shows "world_inv ck (world_exec ck ev w)"
proof (cases ev)
  case (Other op)
  with assms show ?thesis by (cases w) (simp add: world_inv_def agent_inv_exec)
next
  case (Own now fs)
  with assms ssh_task_step_state [of ck fs now "fst w" "snd w"] show ?thesis
    by (auto simp: world_inv_def agent_inv_exec simp del: agent_exec.simps)
qed

interpretation ssh_world: op_machine "world_exec ck" "(task, agent_new)" "world_inv ck" world_event_ok
  for ck task
proof unfold_locales
  show "world_inv ck (task, agent_new)" by (simp add: world_inv_def agent_inv_def agent_new_def)
qed (rule world_inv_step)

lemma holds_issued:
  assumes "agent_inv url_parse st" and "holds now c st"
  shows "\<exists>s. get_session now st = Some s
           \<and> ssh_cert_issued_to url_parse (cm_key_id (sc_metadata c)) (sess_user_email s)
               (get_server_url now st)"
  using assms
  by (auto simp: agent_inv_def slot_inv_def holds_def get_session_def get_server_url_def live_eq)

text \<open>A task keeps its kind: only a signing task signs, and always the same message.\<close>

fun id_task :: "ssh_task \<Rightarrow> bool" where
  "id_task IdStart = True"
| "id_task IdCheckSession = True"
| "id_task IdLoad = True"
| "id_task (IdStore c) = True"
| "id_task (Replied r) = True"
| "id_task _ = False"

fun sign_task :: "bytes \<Rightarrow> ssh_task \<Rightarrow> bool" where
  "sign_task buf (SignStart b) = (b = buf)"
| "sign_task buf (SignHolding c b) = (b = buf)"
| "sign_task buf (Replied r) = True"
| "sign_task buf _ = False"

lemma world_exec_kind:
  "id_task (fst w) \<Longrightarrow> id_task (fst (world_exec ck ev w))"
  "sign_task buf (fst w) \<Longrightarrow> sign_task buf (fst (world_exec ck ev w))"
  by (cases w; cases ev; cases "fst w"; auto split: option.splits prod.splits sum.splits)+

lemma fold_kind:
  "id_task (fst w) \<Longrightarrow> id_task (fst (fold (world_exec ck) evs w))"
  "sign_task buf (fst w) \<Longrightarrow> sign_task buf (fst (fold (world_exec ck) evs w))"
  by (induction evs arbitrary: w) (simp_all add: world_exec_kind)


lemma commits_id:
  assumes "id_task (fst w)" and "commits ck ev w r"
  shows "\<exists>now fs. ev = Own now fs \<and> (r = build_identities_response None
           \<or> (\<exists>c. holds now c (snd (world_exec ck ev w)) \<and> r = build_identities_response (Some c)))"
  using assms by (cases "fst w") (simp_all add: commits_def)

lemma commits_sign:
  assumes "sign_task buf (fst w)" and "commits ck ev w (Inr reply)"
  shows "\<exists>now fs c. ev = Own now fs \<and> get_valid_ssh_credentials now (snd w) = Some c
           \<and> fst (sign_with ck c buf) = Inr reply"
  using assms by (cases "fst w") (auto simp: commits_def)
lemma sign_with_Inr:
  assumes "length buf < 2 ^ 64" and "fst (sign_with ck c buf) = Inr reply"
  shows "\<exists>seed data t k flags. sc_private_key c = Ed25519_Key seed
           \<and> buf = t # frame_of k @ frame_of data @ flags
           \<and> reply = SSH_AGENT_SIGN_RESPONSE
               # frame_of (frame_of (as_bytes ''ssh-ed25519'') @ frame_of (ck_ed25519_sign ck seed data))"
proof -
  from assms(2) obtain data where data: "parse_sign_request buf = Inr data"
    by (auto simp: sign_with_def split: sum.splits)
  with assms(2) obtain seed where seed: "sc_private_key c = Ed25519_Key seed"
    by (auto simp: sign_with_def sign_data_def split: private_key.splits sum.splits)
  from assms(2) data seed have "reply = SSH_AGENT_SIGN_RESPONSE
      # frame_of (frame_of (as_bytes ''ssh-ed25519'') @ frame_of (ck_ed25519_sign ck seed data))"
    by (auto simp: sign_with_def sign_data_def build_sign_response_def encode_string_def
        encode_bytes_def frame_of_def u32_try_from_def split: sum.splits if_splits)
  with parse_sign_request_Inr [OF assms(1) data] seed show ?thesis by blast
qed

section \<open>Properties\<close>

text \<open>
  identities under interference. However other connections log in, log out and store
  credentials between the steps of an identities request, its answer is either that there are
  none, or the certificate of credentials that, at one of its own steps, were in the slot of a
  live session whose user and server the certificate names. In particular a certificate read
  from disk is never served for a login it was not issued to.
\<close>

theorem identities_under_interference:
  assumes "list_all world_event_ok evs"
    and "fst (fold (world_exec ck) evs (IdStart, agent_new)) = Replied r"
  shows "r = build_identities_response None
       \<or> (\<exists>pre now fs post c s st.
            evs = pre @ Own now fs # post
            \<and> st = snd (fold (world_exec ck) (pre @ [Own now fs]) (IdStart, agent_new))
            \<and> holds now c st \<and> get_session now st = Some s
            \<and> ssh_cert_issued_to (ck_url_parse ck) (cm_key_id (sc_metadata c)) (sess_user_email s)
                (get_server_url now st)
            \<and> r = build_identities_response (Some c))"
proof -
  let ?w = "\<lambda>es. fold (world_exec ck) es (IdStart, agent_new)"
  from assms(2) have "committed ck (?w evs) = Some r" by (cases "?w evs") simp
  from reply_prov.served_was_provided [OF this] obtain pre op post
    where evs: "evs = pre @ op # post" and "commits ck op (?w pre) r" by auto
  moreover have "id_task (fst (?w pre))" by (simp add: fold_kind)
  ultimately obtain now fs where op: "op = Own now fs"
    and r: "r = build_identities_response None
      \<or> (\<exists>c. holds now c (snd (world_exec ck op (?w pre))) \<and> r = build_identities_response (Some c))"
    using commits_id by blast
  have "world_inv ck (?w (pre @ [op]))"
    using assms(1) evs by (intro ssh_world.run_inv) auto
  then have inv: "agent_inv (ck_url_parse ck) (snd (?w (pre @ [op])))" by (simp add: world_inv_def)
  from r show ?thesis
  proof
    assume "\<exists>c. holds now c (snd (world_exec ck op (?w pre))) \<and> r = build_identities_response (Some c)"
    then obtain c where c: "holds now c (snd (?w (pre @ [op])))" "r = build_identities_response (Some c)"
      by auto
    from holds_issued [OF inv c(1)] c evs op show ?thesis by blast
  qed simp
qed

definition demo_crates :: ssh_crates where
  "demo_crates = \<lparr>ck_private_key_from_openssh = (\<lambda>_. None), ck_certificate_from_openssh = (\<lambda>_. None),
     ck_ed25519_sign = (\<lambda>seed data. seed @ data), ck_base64_decode = (\<lambda>_. None),
     ck_timestamp_from_second = (\<lambda>s. Some (s * 1000000000)), ck_url_parse = (\<lambda>_. None)\<rparr>"

definition demo_fs :: file_system where
  "demo_fs = \<lparr>fs_home = None, fs_exists = (\<lambda>_. False), fs_read = (\<lambda>_. None)\<rparr>"

definition demo_events :: "world_event list" where
  "demo_events = map Other demo_ssh_ops @ [Own 7 demo_fs, Other OpClearSession, Own 8 demo_fs]"

lemma demo_world:
  "fold (world_exec demo_crates) (map Other demo_ssh_ops) (task, agent_new)
     = (task, agent_run (\<lambda>_. None) demo_ssh_ops agent_new)"
  by (simp add: demo_ssh_ops_def demo_crates_def agent_run_def)

lemma demo_events_ok: "list_all world_event_ok demo_events"
  by (simp add: demo_events_def demo_ssh_ops_def)

theorem identities_under_interference_witness:
  "fst (fold (world_exec demo_crates) demo_events (IdStart, agent_new))
      = Replied (build_identities_response (Some demo_creds))
   \<and> (build_identities_response (Some demo_creds) = build_identities_response None
      \<or> (\<exists>pre now fs post c s st.
            demo_events = pre @ Own now fs # post
            \<and> st = snd (fold (world_exec demo_crates) (pre @ [Own now fs]) (IdStart, agent_new))
            \<and> holds now c st \<and> get_session now st = Some s
            \<and> ssh_cert_issued_to (ck_url_parse demo_crates) (cm_key_id (sc_metadata c))
                (sess_user_email s) (get_server_url now st)
            \<and> build_identities_response (Some demo_creds) = build_identities_response (Some c)))"
proof -
  have replied: "fst (fold (world_exec demo_crates) demo_events (IdStart, agent_new))
      = Replied (build_identities_response (Some demo_creds))"
    by (simp add: demo_events_def demo_world demo_ssh_served)
  with identities_under_interference [OF demo_events_ok replied] show ?thesis by blast
qed

text \<open>
  C12: signatures under interference. A signing task answers with a signature only if, at one
  of its own steps, the agent held Ed25519 credentials that had not expired, in the slot of a
  live session whose user and server their certificate names; the signature is over exactly
  the data field of the request.
\<close>

theorem signature_under_interference:
  assumes "list_all world_event_ok evs" and "length buf < 2 ^ 64"
    and "fst (fold (world_exec ck) evs (SignStart buf, agent_new)) = Replied (Inr reply)"
  shows "\<exists>pre now fs post c s st seed data t k flags.
            evs = pre @ Own now fs # post
            \<and> st = snd (fold (world_exec ck) pre (SignStart buf, agent_new))
            \<and> get_valid_ssh_credentials now st = Some c \<and> get_session now st = Some s
            \<and> ssh_cert_issued_to (ck_url_parse ck) (cm_key_id (sc_metadata c)) (sess_user_email s)
                (get_server_url now st)
            \<and> sc_private_key c = Ed25519_Key seed
            \<and> buf = t # frame_of k @ frame_of data @ flags
            \<and> reply = SSH_AGENT_SIGN_RESPONSE
                # frame_of (frame_of (as_bytes ''ssh-ed25519'') @ frame_of (ck_ed25519_sign ck seed data))"
proof -
  let ?w = "\<lambda>es. fold (world_exec ck) es (SignStart buf, agent_new)"
  from assms(3) have "committed ck (?w evs) = Some (Inr reply)" by (cases "?w evs") simp
  from reply_prov.served_was_provided [OF this] obtain pre op post
    where evs: "evs = pre @ op # post" and comm: "commits ck op (?w pre) (Inr reply)" by auto
  have "sign_task buf (fst (?w pre))" by (simp add: fold_kind)
  with comm obtain now fs c where op: "op = Own now fs"
    and valid: "get_valid_ssh_credentials now (snd (?w pre)) = Some c"
    and r: "fst (sign_with ck c buf) = Inr reply"
    using commits_sign by blast
  have "world_inv ck (?w pre)" using assms(1) evs by (intro ssh_world.run_inv) auto
  then have inv: "agent_inv (ck_url_parse ck) (snd (?w pre))" by (simp add: world_inv_def)
  from holds_issued [OF inv valid_holds [OF valid]] obtain s
    where s: "get_session now (snd (?w pre)) = Some s"
      "ssh_cert_issued_to (ck_url_parse ck) (cm_key_id (sc_metadata c)) (sess_user_email s)
         (get_server_url now (snd (?w pre)))" by blast
  from sign_with_Inr [OF assms(2) r] obtain seed data t k flags
    where "sc_private_key c = Ed25519_Key seed" "buf = t # frame_of k @ frame_of data @ flags"
      "reply = SSH_AGENT_SIGN_RESPONSE
         # frame_of (frame_of (as_bytes ''ssh-ed25519'') @ frame_of (ck_ed25519_sign ck seed data))"
    by blast
  with evs op valid s show ?thesis by blast
qed

definition demo_sign_request :: bytes where
  "demo_sign_request = SSH_AGENTC_SIGN_REQUEST # frame_of [2] @ frame_of [9, 9] @ [0, 0, 0, 0]"

theorem signature_under_interference_witness:
  "\<exists>pre now fs post c s st seed data t k flags.
      demo_events = pre @ Own now fs # post
      \<and> st = snd (fold (world_exec demo_crates) pre (SignStart demo_sign_request, agent_new))
      \<and> get_valid_ssh_credentials now st = Some c \<and> get_session now st = Some s
      \<and> ssh_cert_issued_to (ck_url_parse demo_crates) (cm_key_id (sc_metadata c))
          (sess_user_email s) (get_server_url now st)
      \<and> sc_private_key c = Ed25519_Key seed
      \<and> demo_sign_request = t # frame_of k @ frame_of data @ flags
      \<and> SSH_AGENT_SIGN_RESPONSE # frame_of (frame_of (as_bytes ''ssh-ed25519'') @ frame_of [1, 9, 9])
          = SSH_AGENT_SIGN_RESPONSE
            # frame_of (frame_of (as_bytes ''ssh-ed25519'') @ frame_of (ck_ed25519_sign demo_crates seed data))"
proof (rule signature_under_interference [OF demo_events_ok])
  show len: "length demo_sign_request < 2 ^ 64" by (simp add: demo_sign_request_def frame_of_def)
  have "parse_sign_request demo_sign_request = Inr [9, 9]"
    unfolding demo_sign_request_def by (rule parse_sign_request_frames) (simp_all add: frame_of_def)
  then have "fst (sign_with demo_crates demo_creds demo_sign_request)
      = Inr (SSH_AGENT_SIGN_RESPONSE
          # frame_of (frame_of (as_bytes ''ssh-ed25519'') @ frame_of [1, 9, 9]))"
    by (simp add: sign_with_def sign_data_def build_sign_response_def encode_string_def
        encode_bytes_def frame_of_def u32_try_from_def demo_crates_def demo_creds_def)
  then show "fst (fold (world_exec demo_crates) demo_events (SignStart demo_sign_request, agent_new))
      = Replied (Inr (SSH_AGENT_SIGN_RESPONSE
          # frame_of (frame_of (as_bytes ''ssh-ed25519'') @ frame_of [1, 9, 9])))"
    by (simp add: demo_events_def demo_world demo_ssh_served)
qed

text \<open>
  the sign request format. The data the agent signs is the second of the two
  length-prefixed fields behind the type byte, and nothing is signed when a field runs past
  the end of the message.
\<close>

theorem parse_sign_request_iff:
  assumes "length buf < 2 ^ 64"
  shows "parse_sign_request buf = Inr data \<longleftrightarrow>
           (\<exists>t k flags. buf = t # frame_of k @ frame_of data @ flags
              \<and> length k < 2 ^ 32 \<and> length data < 2 ^ 32)"
  using assms parse_sign_request_frames parse_sign_request_Inr by blast

theorem parse_sign_request_iff_witness:
  "parse_sign_request [13, 0, 0, 0, 1, 2, 0, 0, 0, 1, 9] = Inr [9] \<longleftrightarrow>
     (\<exists>t k flags. [13, 0, 0, 0, 1, 2, 0, 0, 0, 1, 9] = t # frame_of k @ frame_of [9] @ flags
        \<and> length k < 2 ^ 32 \<and> length [9 :: u8] < 2 ^ 32)"
  by (rule parse_sign_request_iff) simp

text \<open>
  the interleaved tasks are the handlers. Run without interference, an identities task
  replies what \<open>handle_request_identities\<close> replies and leaves the state it leaves.
\<close>

theorem identities_task_refines:
  "\<exists>n \<le> 4. fold (\<lambda>i. world_exec ck (Own (t i) fs)) [0..<n] (IdStart, st)
      = (Replied (fst (handle_request_identities ck fs t st)),
         snd (handle_request_identities ck fs t st))"
proof -
  consider c where "get_valid_ssh_credentials (t 0) st = Some c"
    | "get_valid_ssh_credentials (t 0) st = None" "get_session (t 1) st = None"
    | s where "get_valid_ssh_credentials (t 0) st = None" "get_session (t 1) st = Some s"
        "load_default ck fs (t 2) = None"
    | s c where "get_valid_ssh_credentials (t 0) st = None" "get_session (t 1) st = Some s"
        "load_default ck fs (t 2) = Some c"
    by (cases "get_valid_ssh_credentials (t 0) st"; cases "get_session (t 1) st";
        cases "load_default ck fs (t 2)"; blast)
  then show ?thesis
  proof cases
    case 1
    then show ?thesis
      by (intro exI [of _ 1]) (simp add: handle_request_identities_def)
  next
    case 2
    then show ?thesis
      by (intro exI [of _ 2])
        (simp add: handle_request_identities_def try_load_from_disk_def upt_rec eval_nat_numeral)
  next
    case 3
    then show ?thesis
      by (intro exI [of _ 3])
        (simp add: handle_request_identities_def try_load_from_disk_def upt_rec eval_nat_numeral)
  next
    case 4
    then show ?thesis
      by (intro exI [of _ 4])
        (simp add: handle_request_identities_def try_load_from_disk_def upt_rec eval_nat_numeral
          split: prod.splits sum.splits)
  qed
qed

end
