(* ===== verification/Agent_Server.thy ===== *)
theory Agent_Server
  imports Agent_Ssh
begin

text \<open>
  The agent's IPC server (\<open>vouch-agent/src/server.rs\<close>, \<open>protocol.rs\<close>): the JSON-RPC request
  and response types, one handler per method, and the connection that dispatches to them; and
  the admission of a peer (\<open>socket.rs\<close>). Deserialising and serialising JSON, parsing
  timestamps and parsing URLs are arguments, collected in a record.
\<close>

section \<open>Protocol types\<close>

datatype rpc_method =
    Ping
  | GetSession
  | StoreSession
  | ClearSession
  | GetToken
  | StoreSshCredentials
  | ClearSshCredentials
  | HasSshCredentials
  | CacheCredential
  | GetCachedCredential
  | ClearCredentialCache

text \<open>The wire names: serde's snake case of the variants.\<close>

fun method_name :: "rpc_method \<Rightarrow> string" where
  "method_name Ping = ''ping''"
| "method_name GetSession = ''get_session''"
| "method_name StoreSession = ''store_session''"
| "method_name ClearSession = ''clear_session''"
| "method_name GetToken = ''get_token''"
| "method_name StoreSshCredentials = ''store_ssh_credentials''"
| "method_name ClearSshCredentials = ''clear_ssh_credentials''"
| "method_name HasSshCredentials = ''has_ssh_credentials''"
| "method_name CacheCredential = ''cache_credential''"
| "method_name GetCachedCredential = ''get_cached_credential''"
| "method_name ClearCredentialCache = ''clear_credential_cache''"

definition all_methods :: "rpc_method list" where
  "all_methods =
     [Ping, GetSession, StoreSession, ClearSession, GetToken, StoreSshCredentials,
      ClearSshCredentials, HasSshCredentials, CacheCredential, GetCachedCredential,
      ClearCredentialCache]"

definition method_of :: "string \<Rightarrow> rpc_method option" where
  "method_of s = List.find (\<lambda>m. method_name m = s) all_methods"

record raw_request =
  raw_id :: nat
  raw_method :: string
  raw_params :: "json option"

record rpc_request =
  req_id :: nat
  req_method :: rpc_method
  req_params :: "json option"

datatype rpc_result =
    ResText string
  | ResBool bool
  | ResSession session_info
  | ResCredential cached_credential

record rpc_error =
  err_code :: int
  err_message :: string

record rpc_response =
  resp_id :: nat
  resp_result :: "rpc_result option"
  resp_error :: "rpc_error option"

definition PARSE_ERROR :: int where "PARSE_ERROR = -32700"
definition METHOD_NOT_FOUND :: int where "METHOD_NOT_FOUND = -32601"
definition INVALID_PARAMS :: int where "INVALID_PARAMS = -32602"
definition INTERNAL_ERROR :: int where "INTERNAL_ERROR = -32603"
definition NOT_AUTHENTICATED :: int where "NOT_AUTHENTICATED = -32000"
definition CACHE_MISS :: int where "CACHE_MISS = -32002"

lemmas rpc_codes = PARSE_ERROR_def METHOD_NOT_FOUND_def INVALID_PARAMS_def INTERNAL_ERROR_def
  NOT_AUTHENTICATED_def CACHE_MISS_def

text \<open>
  \<open>Response::success\<close> fails when the result does not serialise; the results sent are strings,
  booleans and records of strings, which always do.
\<close>

definition response_success :: "nat \<Rightarrow> rpc_result \<Rightarrow> rpc_response" where
  "response_success i res = \<lparr>resp_id = i, resp_result = Some res, resp_error = None\<rparr>"

definition response_error :: "nat \<Rightarrow> int \<Rightarrow> string \<Rightarrow> rpc_response" where
  "response_error i code message =
     \<lparr>resp_id = i, resp_result = None,
      resp_error = Some \<lparr>err_code = code, err_message = message\<rparr>\<rparr>"

definition not_authenticated :: "nat \<Rightarrow> rpc_response" where
  "not_authenticated i = response_error i NOT_AUTHENTICATED ''not authenticated''"

definition invalid_params :: "nat \<Rightarrow> string \<Rightarrow> rpc_response" where
  "invalid_params i detail = response_error i INVALID_PARAMS (''invalid params: '' @ detail)"

definition cache_miss :: "nat \<Rightarrow> rpc_response" where
  "cache_miss i = response_error i CACHE_MISS ''cache miss''"

definition method_not_found :: "nat \<Rightarrow> rpc_response" where
  "method_not_found i = response_error i METHOD_NOT_FOUND ''method not found''"

datatype store_mode = Replace | IfNoLiveSession

record store_session_params =
  ssp_token :: string
  ssp_user_email :: string
  ssp_expires_at :: string
  ssp_server_url :: "string option"
  ssp_mode :: store_mode

record store_ssh_params =
  sshp_key_path :: string
  sshp_cert_path :: string
  sshp_session_expires_at :: "string option"
  sshp_server_url :: "string option"

record cache_params =
  cp_credential_type :: string
  cp_data :: json
  cp_expires_at :: string

text \<open>
  What the server calls of its crates and its environment: the deserialisers, the serialiser
  of responses, the timestamp parser, and the value of \<open>VOUCH_ALLOW_INSECURE\<close>.
\<close>

record rpc_crates = ssh_crates +
  rc_raw_request :: "bytes \<Rightarrow> raw_request option"
  rc_store_session :: "json \<Rightarrow> store_session_params option"
  rc_store_ssh :: "json \<Rightarrow> store_ssh_params option"
  rc_cache :: "json \<Rightarrow> cache_params option"
  rc_get_cached :: "json \<Rightarrow> string option"
  rc_timestamp :: "string \<Rightarrow> string + timestamp"
  rc_response :: "rpc_response \<Rightarrow> bytes option"
  rc_allow_insecure :: "string option"

section \<open>Handlers\<close>

text \<open>
  A handler maps a request, the clock readings of its critical sections and the state to a
  response, the new state and the audit events it logs. The readings are \<open>t 0\<close> for the
  creation of a session or cached credential and \<open>t 1\<close> for the critical section of the state.
\<close>

type_synonym rpc_outcome = "rpc_response \<times> agent_state \<times> audit_event list"

definition extract_params :: "(json \<Rightarrow> 'p option) \<Rightarrow> rpc_request \<Rightarrow> 'p option" where
  "extract_params parse req = Option.bind (req_params req) parse"

definition handle_ping :: "rpc_request \<Rightarrow> rpc_response" where
  "handle_ping req = response_success (req_id req) (ResText ''pong'')"

definition handle_get_session ::
    "rpc_request \<Rightarrow> (nat \<Rightarrow> timestamp) \<Rightarrow> agent_state \<Rightarrow> rpc_outcome" where
  "handle_get_session req t st =
     (case session_info (t 1) st of
        Some info \<Rightarrow> (response_success (req_id req) (ResSession info), st, [])
      | None \<Rightarrow> (not_authenticated (req_id req), st, []))"

definition allow_insecure :: "rpc_crates \<Rightarrow> bool" where
  "allow_insecure rc =
     (case allow_insecure_from_env (rc_allow_insecure rc) of Inr b \<Rightarrow> b | Inl e \<Rightarrow> False)"

text \<open>How a supplied server URL is judged: kept, ignored, or refused.\<close>

datatype url_verdict = UseUrl "string option" | RefuseUrl string

definition judge_server_url :: "rpc_crates \<Rightarrow> string option \<Rightarrow> url_verdict" where
  "judge_server_url rc server_url =
     (case server_url of
        None \<Rightarrow> UseUrl None
      | Some url \<Rightarrow>
          (case ck_url_parse (ssh_crates.truncate rc) url of
             None \<Rightarrow> UseUrl None
           | Some parsed \<Rightarrow>
               if url_scheme parsed = ''https'' \<or> url_scheme parsed = ''http''
               then (case check_url_security (ck_url_parse (ssh_crates.truncate rc)) url of
                       Secure \<Rightarrow> UseUrl (Some url)
                     | InsecureHttp insecure_url \<Rightarrow>
                         if allow_insecure rc then UseUrl (Some url) else RefuseUrl insecure_url)
               else UseUrl None))"

definition handle_store_session ::
    "rpc_crates \<Rightarrow> rpc_request \<Rightarrow> (nat \<Rightarrow> timestamp) \<Rightarrow> agent_state \<Rightarrow> rpc_outcome" where
  "handle_store_session rc req t st =
     (case extract_params (rc_store_session rc) req of
        None \<Rightarrow> (invalid_params (req_id req) ''missing or invalid params'', st, [])
      | Some params \<Rightarrow>
          (case rc_timestamp rc (ssp_expires_at params) of
             Inl e \<Rightarrow> (invalid_params (req_id req) (''invalid expires_at: '' @ e), st, [])
           | Inr expires_at \<Rightarrow>
               (case judge_server_url rc (ssp_server_url params) of
                  RefuseUrl insecure_url \<Rightarrow>
                    (invalid_params (req_id req)
                       (''insecure HTTP server URL '' @ insecure_url @ '' refused; set '' @
                        ''VOUCH_ALLOW_INSECURE=1 for the agent to allow it''),
                     if ssp_mode params = Replace then clear_session st else st, [])
                | UseUrl server_url \<Rightarrow>
                    (let user_email = ssp_user_email params;
                         s = session_new (t 0) (ssp_token params) user_email expires_at;
                         (stored, st1) =
                           (case ssp_mode params of
                              Replace \<Rightarrow> (True, store_session s server_url st)
                            | IfNoLiveSession \<Rightarrow>
                                store_session_if_no_live_session (t 1) s server_url st)
                     in (response_success (req_id req) (ResBool stored), st1,
                         if stored then [SessionStored user_email] else [])))))"

definition handle_clear_session :: "rpc_request \<Rightarrow> agent_state \<Rightarrow> rpc_outcome" where
  "handle_clear_session req st =
     (response_success (req_id req) (ResBool True), clear_session st, [SessionCleared])"

definition handle_get_token ::
    "rpc_request \<Rightarrow> (nat \<Rightarrow> timestamp) \<Rightarrow> agent_state \<Rightarrow> rpc_outcome" where
  "handle_get_token req t st =
     (case get_token (t 1) st of
        Some token \<Rightarrow> (response_success (req_id req) (ResText token), st, [])
      | None \<Rightarrow> (not_authenticated (req_id req), st, []))"

definition agent_error_text :: "agent_error \<Rightarrow> string" where
  "agent_error_text e =
     (case e of
        NotRunning \<Rightarrow> ''agent is not running''
      | Connection s \<Rightarrow> ''connection error: '' @ s
      | SessionExpired \<Rightarrow> ''session has expired''
      | NotAuthenticated \<Rightarrow> ''not authenticated''
      | Protocol s \<Rightarrow> ''protocol error: '' @ s
      | Serialization s \<Rightarrow> ''serialization error: '' @ s
      | SocketPath s \<Rightarrow> ''socket path error: '' @ s
      | Config s \<Rightarrow> ''daemon error: '' @ s)"

definition handle_store_ssh_credentials ::
    "rpc_crates \<Rightarrow> file_system \<Rightarrow> rpc_request \<Rightarrow> (nat \<Rightarrow> timestamp) \<Rightarrow> agent_state \<Rightarrow> rpc_outcome" where
  "handle_store_ssh_credentials rc fs req t st =
     (case extract_params (rc_store_ssh rc) req of
        None \<Rightarrow> (invalid_params (req_id req) ''missing or invalid params'', st, [])
      | Some params \<Rightarrow>
          (case ssh_credentials_load (ssh_crates.truncate rc) fs (sshp_key_path params)
                  (sshp_cert_path params) of
             Inl e \<Rightarrow>
               (invalid_params (req_id req) (''failed to load credentials: '' @ agent_error_text e), st, [])
           | Inr creds \<Rightarrow>
               (case store_ssh_credentials (ck_url_parse rc) (t 1) creds st of
                  (Inl NoSession, st1) \<Rightarrow>
                    (response_error (req_id req) INTERNAL_ERROR ''no active session'', st1, [])
                | (Inl NotIssuedToSession, st1) \<Rightarrow>
                    (invalid_params (req_id req)
                       ''certificate was not issued to the current session'', st1, [])
                | (Inr _, st1) \<Rightarrow>
                    (response_success (req_id req) (ResBool True), st1,
                     [SshCertProvisioned (sshp_key_path params) (sshp_cert_path params)]))))"

definition handle_clear_ssh_credentials :: "rpc_request \<Rightarrow> agent_state \<Rightarrow> rpc_outcome" where
  "handle_clear_ssh_credentials req st =
     (response_success (req_id req) (ResBool True), clear_ssh_credentials st, [])"

definition handle_has_ssh_credentials :: "rpc_request \<Rightarrow> agent_state \<Rightarrow> rpc_outcome" where
  "handle_has_ssh_credentials req st =
     (response_success (req_id req) (ResBool (has_ssh_credentials st)), st, [])"

definition handle_cache_credential ::
    "rpc_crates \<Rightarrow> cache_order \<Rightarrow> rpc_request \<Rightarrow> (nat \<Rightarrow> timestamp) \<Rightarrow> agent_state \<Rightarrow> rpc_outcome" where
  "handle_cache_credential rc it req t st =
     (case extract_params (rc_cache rc) req of
        None \<Rightarrow> (invalid_params (req_id req) ''missing or invalid params'', st, [])
      | Some params \<Rightarrow>
          (case rc_timestamp rc (cp_expires_at params) of
             Inl e \<Rightarrow> (invalid_params (req_id req) (''invalid expires_at: '' @ e), st, [])
           | Inr expires_at \<Rightarrow>
               (let credential = cached_credential_new (t 0) (cp_data params) expires_at
                in case cache_credential it (t 1) (cp_credential_type params) credential st of
                     (Inl KeyTooLong, st1) \<Rightarrow>
                       (invalid_params (req_id req) ''credential_type exceeds maximum length'', st1, [])
                   | (Inl CacheNoSession, st1) \<Rightarrow> (not_authenticated (req_id req), st1, [])
                   | (Inr _, st1) \<Rightarrow>
                       (response_success (req_id req) (ResBool True), st1,
                        [CredentialCached (cp_credential_type params)]))))"

definition handle_get_cached_credential ::
    "rpc_crates \<Rightarrow> rpc_request \<Rightarrow> (nat \<Rightarrow> timestamp) \<Rightarrow> agent_state \<Rightarrow> rpc_outcome" where
  "handle_get_cached_credential rc req t st =
     (case extract_params (rc_get_cached rc) req of
        None \<Rightarrow> (invalid_params (req_id req) ''missing or invalid params'', st, [])
      | Some credential_type \<Rightarrow>
          (case get_cached_credential (t 1) credential_type st of
             Some credential \<Rightarrow> (response_success (req_id req) (ResCredential credential), st, [])
           | None \<Rightarrow> (cache_miss (req_id req), st, [])))"

definition handle_clear_credential_cache :: "rpc_request \<Rightarrow> agent_state \<Rightarrow> rpc_outcome" where
  "handle_clear_credential_cache req st =
     (response_success (req_id req) (ResBool True), clear_credential_cache st,
      [CredentialCacheCleared])"

definition handle_request ::
    "rpc_crates \<Rightarrow> file_system \<Rightarrow> cache_order \<Rightarrow> rpc_request \<Rightarrow> (nat \<Rightarrow> timestamp) \<Rightarrow> agent_state
       \<Rightarrow> rpc_outcome" where
  "handle_request rc fs it req t st =
     (case req_method req of
        Ping \<Rightarrow> (handle_ping req, st, [])
      | GetSession \<Rightarrow> handle_get_session req t st
      | StoreSession \<Rightarrow> handle_store_session rc req t st
      | ClearSession \<Rightarrow> handle_clear_session req st
      | GetToken \<Rightarrow> handle_get_token req t st
      | StoreSshCredentials \<Rightarrow> handle_store_ssh_credentials rc fs req t st
      | ClearSshCredentials \<Rightarrow> handle_clear_ssh_credentials req st
      | HasSshCredentials \<Rightarrow> handle_has_ssh_credentials req st
      | CacheCredential \<Rightarrow> handle_cache_credential rc it req t st
      | GetCachedCredential \<Rightarrow> handle_get_cached_credential rc req t st
      | ClearCredentialCache \<Rightarrow> handle_clear_credential_cache req st)"

section \<open>Connections\<close>

text \<open>One message: parse, resolve the method, dispatch; \<open>send_response\<close> serialises the reply.\<close>

definition dispatch ::
    "rpc_crates \<Rightarrow> file_system \<Rightarrow> cache_order \<Rightarrow> (nat \<Rightarrow> timestamp) \<Rightarrow> bytes \<Rightarrow> agent_state
       \<Rightarrow> rpc_outcome" where
  "dispatch rc fs it t buf st =
     (case rc_raw_request rc buf of
        None \<Rightarrow> (response_error 0 PARSE_ERROR ''parse error'', st, [])
      | Some raw \<Rightarrow>
          (case method_of (raw_method raw) of
             None \<Rightarrow> (method_not_found (raw_id raw), st, [])
           | Some mth \<Rightarrow>
               handle_request rc fs it
                 \<lparr>req_id = raw_id raw, req_method = mth, req_params = raw_params raw\<rparr> t st))"

definition send_response :: "rpc_crates \<Rightarrow> rpc_response \<Rightarrow> agent_error + bytes" where
  "send_response rc resp =
     (case rc_response rc resp of
        None \<Rightarrow> Inl (Serialization ''response'')
      | Some data \<Rightarrow> Inr data)"

definition ipc_handler ::
    "rpc_crates \<Rightarrow> (nat \<Rightarrow> file_system) \<Rightarrow> (nat \<Rightarrow> cache_order) \<Rightarrow> (nat \<Rightarrow> nat \<Rightarrow> timestamp)
       \<Rightarrow> (agent_state \<times> audit_event list) handler" where
  "ipc_handler rc fs it clk n buf s =
     (case dispatch rc (fs n) (it n) (clk n) buf (fst s) of
        (resp, st1, evs) \<Rightarrow> (send_response rc resp, st1, snd s @ evs))"

definition handle_connection ::
    "rpc_crates \<Rightarrow> (nat \<Rightarrow> file_system) \<Rightarrow> (nat \<Rightarrow> cache_order) \<Rightarrow> (nat \<Rightarrow> nat \<Rightarrow> timestamp)
       \<Rightarrow> peer \<Rightarrow> stream \<Rightarrow> agent_state \<times> audit_event list
       \<Rightarrow> bytes \<times> (agent_error + unit) \<times> agent_state \<times> audit_event list" where
  "handle_connection rc fs it clk p r s = conn_loop (ipc_handler rc fs it clk) p 0 r s"

section \<open>Admission of a peer\<close>

record peer_credentials =
  pc_uid :: u32
  pc_pid :: u32

datatype peer_rejection = UidMismatch peer_credentials | CredentialsUnavailable agent_error

definition authorize_peer ::
    "agent_error + peer_credentials \<Rightarrow> u32 \<Rightarrow> peer_rejection + peer_credentials" where
  "authorize_peer creds expected_uid =
     (case creds of
        Inl e \<Rightarrow> Inl (CredentialsUnavailable e)
      | Inr peer \<Rightarrow>
          if pc_uid peer \<noteq> expected_uid then Inl (UidMismatch peer) else Inr peer)"

text \<open>
  \<open>accept_authorized\<close>: the outcome of \<open>accept\<close> is an error or a stream, of which the kernel
  gives the peer's credentials or an error.
\<close>

definition accept_authorized ::
    "socket_kind \<Rightarrow> u32 \<Rightarrow> string + (agent_error + peer_credentials)
       \<Rightarrow> peer_credentials option \<times> audit_event list" where
  "accept_authorized kind current_uid accepted =
     (case accepted of
        Inl e \<Rightarrow> (None, [])
      | Inr creds \<Rightarrow>
          (case authorize_peer creds current_uid of
             Inr peer \<Rightarrow> (Some peer, [])
           | Inl (UidMismatch peer) \<Rightarrow>
               (None, [ConnectionRejected kind (pc_uid peer) (pc_pid peer) ''uid mismatch''])
           | Inl (CredentialsUnavailable e) \<Rightarrow>
               (None, [ConnectionRejected kind 0 0 ''peer credential retrieval failed''])))"

text \<open>
  The accept loop of \<open>run_listener\<close>. A connection holds one of the permits while its task
  runs; one accepted when there is none left is dropped. A shutdown ends the loop; connections
  still served then are drained, and aborted when the drain times out.
\<close>

definition MAX_CONNECTIONS :: nat where
  "MAX_CONNECTIONS = 64"

record listener =
  ls_serving :: "(nat \<times> peer_credentials) list"
  ls_running :: bool
  ls_log :: "audit_event list"

datatype listener_event =
    Accepted nat "string + (agent_error + peer_credentials)"
  | Finished nat
  | Shutdown
  | DrainTimeout

definition listener_new :: listener where
  "listener_new = \<lparr>ls_serving = [], ls_running = True, ls_log = []\<rparr>"

fun run_listener_step :: "socket_kind \<Rightarrow> u32 \<Rightarrow> listener_event \<Rightarrow> listener \<Rightarrow> listener" where
  "run_listener_step kind uid (Accepted i accepted) l =
     (if \<not> ls_running l then l
      else (case accept_authorized kind uid accepted of
              (None, evs) \<Rightarrow> l\<lparr>ls_log := ls_log l @ evs\<rparr>
            | (Some peer, evs) \<Rightarrow>
                if length (ls_serving l) < MAX_CONNECTIONS
                then l\<lparr>ls_serving := (i, peer) # ls_serving l, ls_log := ls_log l @ evs\<rparr>
                else l\<lparr>ls_log := ls_log l @ evs\<rparr>))"
| "run_listener_step kind uid (Finished i) l =
     l\<lparr>ls_serving := filter (\<lambda>(j, _). j \<noteq> i) (ls_serving l)\<rparr>"
| "run_listener_step kind uid Shutdown l = l\<lparr>ls_running := False\<rparr>"
| "run_listener_step kind uid DrainTimeout l =
     (if ls_running l then l else l\<lparr>ls_serving := []\<rparr>)"

section \<open>Lemmas\<close>

named_theorems rpc_handlers \<open>the handlers of the methods\<close>

lemmas [rpc_handlers] = handle_ping_def handle_get_session_def handle_store_session_def
  handle_clear_session_def handle_get_token_def handle_store_ssh_credentials_def
  handle_clear_ssh_credentials_def handle_has_ssh_credentials_def handle_cache_credential_def
  handle_get_cached_credential_def handle_clear_credential_cache_def

named_theorems rpc_responses \<open>the responses\<close>

lemmas [rpc_responses] = response_success_def response_error_def not_authenticated_def
  invalid_params_def cache_miss_def method_not_found_def

text \<open>Every wire name is that of one method.\<close>

lemma method_of_name [simp]: "method_of (method_name m) = Some m"
  by (cases m) (simp_all add: method_of_def all_methods_def)

text \<open>A response carries a result or an error, never both.\<close>

definition response_ok :: "rpc_response \<Rightarrow> bool" where
  "response_ok resp \<longleftrightarrow> (resp_result resp = None) \<noteq> (resp_error resp = None)"

lemma response_ok_simps [simp]:
  "response_ok (response_success i res)" "response_ok (response_error i code message)"
  "response_ok (not_authenticated i)" "response_ok (invalid_params i detail)"
  "response_ok (cache_miss i)" "response_ok (method_not_found i)"
  by (simp_all add: response_ok_def rpc_responses)

lemma response_id_simps [simp]:
  "resp_id (response_success i res) = i" "resp_id (response_error i code message) = i"
  "resp_id (not_authenticated i) = i" "resp_id (invalid_params i detail) = i"
  "resp_id (cache_miss i) = i" "resp_id (method_not_found i) = i"
  by (simp_all add: rpc_responses)

text \<open>
  What a request does to the state is a sequence of operations of the agent state, at most
  one, that depends on the request, the disk and the clock but not on the state.
\<close>

definition request_ops ::
    "rpc_crates \<Rightarrow> file_system \<Rightarrow> cache_order \<Rightarrow> rpc_request \<Rightarrow> (nat \<Rightarrow> timestamp) \<Rightarrow> agent_op list" where
  "request_ops rc fs it req t =
     (case req_method req of
        StoreSession \<Rightarrow>
          (case extract_params (rc_store_session rc) req of
             None \<Rightarrow> []
           | Some params \<Rightarrow>
               (case rc_timestamp rc (ssp_expires_at params) of
                  Inl e \<Rightarrow> []
                | Inr expires_at \<Rightarrow>
                    (case judge_server_url rc (ssp_server_url params) of
                       RefuseUrl u \<Rightarrow> if ssp_mode params = Replace then [OpClearSession] else []
                     | UseUrl u \<Rightarrow>
                         (let s = session_new (t 0) (ssp_token params) (ssp_user_email params) expires_at
                          in case ssp_mode params of
                               Replace \<Rightarrow> [OpStoreSession s u]
                             | IfNoLiveSession \<Rightarrow> [OpStoreIfNoLive (t 1) s u]))))
      | ClearSession \<Rightarrow> [OpClearSession]
      | StoreSshCredentials \<Rightarrow>
          (case extract_params (rc_store_ssh rc) req of
             None \<Rightarrow> []
           | Some params \<Rightarrow>
               (case ssh_credentials_load (ssh_crates.truncate rc) fs (sshp_key_path params)
                       (sshp_cert_path params) of
                  Inl e \<Rightarrow> []
                | Inr creds \<Rightarrow> [OpStoreSsh (t 1) creds]))
      | ClearSshCredentials \<Rightarrow> [OpClearSsh]
      | CacheCredential \<Rightarrow>
          (case extract_params (rc_cache rc) req of
             None \<Rightarrow> []
           | Some params \<Rightarrow>
               (case rc_timestamp rc (cp_expires_at params) of
                  Inl e \<Rightarrow> []
                | Inr expires_at \<Rightarrow>
                    [OpCache it (t 1) (cp_credential_type params)
                       (cached_credential_new (t 0) (cp_data params) expires_at)]))
      | ClearCredentialCache \<Rightarrow> [OpClearCache]
      | _ \<Rightarrow> [])"

lemma handle_store_session_ops:
  "req_method req = StoreSession \<Longrightarrow>
     fst (snd (handle_store_session rc req t st))
       = agent_run url_parse (request_ops rc fs it req t) st"
  by (simp add: handle_store_session_def request_ops_def agent_run_def Let_def
      split: option.splits sum.splits url_verdict.splits store_mode.splits prod.splits)

lemma handle_store_ssh_ops:
  "req_method req = StoreSshCredentials \<Longrightarrow>
     fst (snd (handle_store_ssh_credentials rc fs req t st))
       = agent_run (ck_url_parse rc) (request_ops rc fs it req t) st"
  by (simp add: handle_store_ssh_credentials_def request_ops_def agent_run_def
      split: option.splits sum.splits prod.splits ssh_store_refusal.splits)

lemma handle_cache_ops:
  "req_method req = CacheCredential \<Longrightarrow>
     fst (snd (handle_cache_credential rc it req t st))
       = agent_run url_parse (request_ops rc fs it req t) st"
  by (simp add: handle_cache_credential_def request_ops_def agent_run_def Let_def
      split: option.splits sum.splits prod.splits cache_refusal.splits)

lemma handle_request_ops:
  "fst (snd (handle_request rc fs it req t st))
     = agent_run (ck_url_parse rc) (request_ops rc fs it req t) st"
proof (cases "req_method req")
  case StoreSession
  then show ?thesis by (simp add: handle_request_def handle_store_session_ops)
next
  case StoreSshCredentials
  then show ?thesis by (simp add: handle_request_def handle_store_ssh_ops)
next
  case CacheCredential
  then show ?thesis by (simp add: handle_request_def handle_cache_ops)
qed (auto simp: handle_request_def request_ops_def agent_run_def rpc_handlers split: option.splits)

lemma request_ops_ok: "hash_order_ok it \<Longrightarrow> list_all agent_op_ok (request_ops rc fs it req t)"
  by (auto simp: request_ops_def Let_def
      split: rpc_method.splits option.splits sum.splits url_verdict.splits store_mode.splits)

text \<open>A history of requests, each with the disk, the hash order and the clock it met.\<close>

type_synonym history = "(file_system \<times> cache_order \<times> rpc_request \<times> (nat \<Rightarrow> timestamp)) list"

fun server_exec ::
    "rpc_crates \<Rightarrow> file_system \<times> cache_order \<times> rpc_request \<times> (nat \<Rightarrow> timestamp) \<Rightarrow> agent_state
       \<Rightarrow> agent_state" where
  "server_exec rc (fs, it, req, t) st = fst (snd (handle_request rc fs it req t st))"

definition server_run :: "rpc_crates \<Rightarrow> history \<Rightarrow> agent_state" where
  "server_run rc h = fold (server_exec rc) h agent_new"

lemma server_run_ops:
  "server_run rc h
     = agent_run (ck_url_parse rc) (concat (map (\<lambda>(fs, it, req, t). request_ops rc fs it req t) h)) agent_new"
proof -
  have "fold (server_exec rc) h st
      = fold (agent_exec (ck_url_parse rc)) (concat (map (\<lambda>(fs, it, req, t). request_ops rc fs it req t) h)) st"
    for st
    by (induction h arbitrary: st) (auto simp: handle_request_ops agent_run_def)
  then show ?thesis by (simp add: server_run_def agent_run_def)
qed


section \<open>Policies of the server\<close>

text \<open>Which server URLs a stored session may carry.\<close>

definition url_allowed :: "rpc_crates \<Rightarrow> string \<Rightarrow> bool" where
  "url_allowed rc u \<longleftrightarrow>
     (case ck_url_parse rc u of
        None \<Rightarrow> False
      | Some p \<Rightarrow>
          url_scheme p = ''https''
          \<or> url_scheme p = ''http''
            \<and> (is_loopback_host (case url_host_str p of Some h \<Rightarrow> h | None \<Rightarrow> [])
               \<or> allow_insecure rc))"

definition url_policy :: "rpc_crates \<Rightarrow> agent_state \<Rightarrow> bool" where
  "url_policy rc st =
     (case Option.bind st slot_server_url of None \<Rightarrow> True | Some u \<Rightarrow> url_allowed rc u)"

lemma truncate_url_parse [simp]: "ck_url_parse (ssh_crates.truncate rc) = ck_url_parse rc"
  by (simp add: ssh_crates.defs)

lemma judge_server_url_allowed:
  "judge_server_url rc server_url = UseUrl (Some u) \<Longrightarrow> url_allowed rc u"
  by (auto simp: judge_server_url_def url_allowed_def check_url_security_def
      split: option.splits if_splits)

fun op_url :: "agent_op \<Rightarrow> string option" where
  "op_url (OpStoreSession s u) = u"
| "op_url (OpStoreIfNoLive now s u) = u"
| "op_url _ = None"

lemma url_policy_op:
  assumes "case op_url op of None \<Rightarrow> True | Some u \<Rightarrow> url_allowed rc u" and "url_policy rc st"
  shows "url_policy rc (agent_exec (ck_url_parse rc) op st)"
proof (cases op)
  case (OpStoreSsh now c)
  with assms show ?thesis
    by (cases st) (auto simp: url_policy_def store_ssh_credentials_def live_eq)
next
  case (OpCache it now k c)
  with assms show ?thesis
    by (cases st) (auto simp: url_policy_def cache_credential_def live_eq)
next
  case OpClearSsh
  with assms show ?thesis by (cases st) (auto simp: url_policy_def clear_ssh_credentials_def)
next
  case OpClearCache
  with assms show ?thesis by (cases st) (auto simp: url_policy_def clear_credential_cache_def)
next
  case (OpStoreIfNoLive now s u)
  with assms show ?thesis
    by (auto simp: url_policy_def store_session_if_no_live_session_def slot_new_def)
qed (use assms in \<open>auto simp: url_policy_def store_session_def clear_session_def slot_new_def\<close>)

lemma request_ops_url:
  "list_all (\<lambda>op. case op_url op of None \<Rightarrow> True | Some u \<Rightarrow> url_allowed rc u)
     (request_ops rc fs it req t)"
  by (auto simp: request_ops_def Let_def dest: judge_server_url_allowed
      split: rpc_method.splits option.splits sum.splits url_verdict.splits store_mode.splits)

lemma url_policy_request:
  assumes "url_policy rc st"
  shows "url_policy rc (fst (snd (handle_request rc fs it req t st)))"
proof -
  have "url_policy rc (fold (agent_exec (ck_url_parse rc)) ops st)"
    if "list_all (\<lambda>op. case op_url op of None \<Rightarrow> True | Some u \<Rightarrow> url_allowed rc u) ops" for ops
    using assms that by (induction ops arbitrary: st) (auto intro: url_policy_op)
  then show ?thesis using request_ops_url by (simp add: handle_request_ops agent_run_def)
qed

interpretation url_server: op_machine "server_exec rc" agent_new "url_policy rc" "\<lambda>_. True"
  for rc
proof unfold_locales
  show "url_policy rc agent_new" by (simp add: url_policy_def agent_new_def)
  show "url_policy rc (server_exec rc r st)" if "url_policy rc st" for r st
    using that by (cases r) (simp add: url_policy_request)
qed

text \<open>The state with the token blanked out.\<close>

definition redact :: "agent_state \<Rightarrow> agent_state" where
  "redact st = map_option (\<lambda>slot. slot\<lparr>slot_session := (slot_session slot)\<lparr>sess_token := []\<rparr>\<rparr>) st"

lemma live_redact:
  "Option.bind (redact st) (live now) = redact (Option.bind st (live now))"
  by (cases st) (simp_all add: redact_def live_eq)

lemma redact_reads [simp]:
  "session_info now (redact st) = session_info now st"
  "has_ssh_credentials (redact st) = has_ssh_credentials st"
  "get_cached_credential now k (redact st) = get_cached_credential now k st"
  "get_valid_ssh_credentials now (redact st) = get_valid_ssh_credentials now st"
  by (cases st; simp add: redact_def session_info_def session_info_from_def live_eq
      session_expires_in_seconds_def has_ssh_credentials_def get_cached_credential_def
      get_valid_ssh_credentials_def)+

lemma redact_writes [simp]:
  "fst (store_session_if_no_live_session now s u (redact st))
     = fst (store_session_if_no_live_session now s u st)"
  "fst (store_ssh_credentials url_parse now c (redact st)) = fst (store_ssh_credentials url_parse now c st)"
  "fst (cache_credential it now k cc (redact st)) = fst (cache_credential it now k cc st)"
  by (cases st; simp add: redact_def live_eq store_session_if_no_live_session_def
      store_ssh_credentials_def cache_credential_def)+

lemma redact_exec:
  "redact (agent_exec url_parse op (redact st)) = redact (agent_exec url_parse op st)"
  by (cases op; cases st; simp add: redact_def live_eq agent_ops)

lemma redact_run:
  "redact (agent_run url_parse ops (redact st)) = redact (agent_run url_parse ops st)"
proof (induction ops arbitrary: st)
  case (Cons op ops)
  have "redact (agent_run url_parse ops (agent_exec url_parse op (redact st)))
      = redact (agent_run url_parse ops (redact (agent_exec url_parse op (redact st))))"
    by (simp only: Cons.IH)
  then show ?case by (simp add: agent_run_def redact_exec Cons.IH [unfolded agent_run_def])
qed (simp add: agent_run_def redact_def option.map_comp comp_def)

lemma redact_response:
  assumes "req_method req \<noteq> GetToken"
  shows "fst (handle_request rc fs it req t (redact st)) = fst (handle_request rc fs it req t st)"
proof (cases "req_method req")
  case StoreSession
  have "fst (handle_store_session rc req t (redact st)) = fst (handle_store_session rc req t st)"
    using redact_writes(1) [of "t 1" _ _ st]
    by (simp add: handle_store_session_def Let_def case_prod_beta
        split: option.splits sum.splits url_verdict.splits store_mode.splits)
  with StoreSession show ?thesis by (simp add: handle_request_def)
next
  case StoreSshCredentials
  have "fst (handle_store_ssh_credentials rc fs req t (redact st))
      = fst (handle_store_ssh_credentials rc fs req t st)"
    using redact_writes(2) [of "ck_url_parse rc" "t 1" _ st]
    by (simp add: handle_store_ssh_credentials_def case_prod_beta
        split: option.splits sum.splits ssh_store_refusal.splits)
  with StoreSshCredentials show ?thesis by (simp add: handle_request_def)
next
  case CacheCredential
  have "fst (handle_cache_credential rc it req t (redact st))
      = fst (handle_cache_credential rc it req t st)"
    using redact_writes(3) [of it "t 1" _ _ st]
    by (simp add: handle_cache_credential_def Let_def case_prod_beta
        split: option.splits sum.splits cache_refusal.splits)
  with CacheCredential show ?thesis by (simp add: handle_request_def)
qed (use assms in \<open>auto simp: handle_request_def rpc_handlers split: option.splits\<close>)

text \<open>The invariant of an accept loop.\<close>

definition listener_inv :: "u32 \<Rightarrow> listener \<Rightarrow> bool" where
  "listener_inv uid l \<longleftrightarrow>
     length (ls_serving l) \<le> MAX_CONNECTIONS \<and> list_all (\<lambda>(_, peer). pc_uid peer = uid) (ls_serving l)"

lemma accept_authorized_uid:
  "accept_authorized kind uid accepted = (Some peer, evs) \<Longrightarrow> pc_uid peer = uid"
  by (auto simp: accept_authorized_def authorize_peer_def split: sum.splits if_splits
      peer_rejection.splits)

lemma listener_inv_step:
  assumes "listener_inv uid l"
  shows "listener_inv uid (run_listener_step kind uid ev l)"
proof (cases ev)
  case (Accepted i accepted)
  with assms show ?thesis
    by (auto simp: listener_inv_def dest: accept_authorized_uid split: prod.splits option.splits)
next
  case (Finished i)
  have "length (filter P xs) \<le> MAX_CONNECTIONS" if "length xs \<le> MAX_CONNECTIONS"
    for P and xs :: "(nat \<times> peer_credentials) list"
    using that length_filter_le le_trans by blast
  with Finished assms show ?thesis by (auto simp: listener_inv_def list_all_iff)
qed (use assms in \<open>auto simp: listener_inv_def\<close>)

interpretation accept_loop: op_machine "run_listener_step kind uid" listener_new "listener_inv uid" "\<lambda>_. True"
  for kind uid
proof unfold_locales
  show "listener_inv uid listener_new" by (simp add: listener_inv_def listener_new_def)
qed (rule listener_inv_step)

lemma method_of_None: "method_of s = None \<longleftrightarrow> s \<notin> set (map method_name all_methods)"
  by (auto simp: method_of_def find_None_iff)

text \<open>Every handler answers the request it was given.\<close>

lemma handle_request_reply:
  "response_ok (fst (handle_request rc fs it req t st))
   \<and> resp_id (fst (handle_request rc fs it req t st)) = req_id req"
proof (cases "req_method req")
  case StoreSession
  then show ?thesis
    by (simp add: handle_request_def handle_store_session_def Let_def case_prod_beta
        split: option.split sum.split url_verdict.split)
next
  case StoreSshCredentials
  then show ?thesis
    by (simp add: handle_request_def handle_store_ssh_credentials_def case_prod_beta
        split: option.split sum.split ssh_store_refusal.split)
next
  case CacheCredential
  then show ?thesis
    by (simp add: handle_request_def handle_cache_credential_def case_prod_beta Let_def
        split: option.split sum.split cache_refusal.split)
qed (simp_all add: handle_request_def rpc_handlers split: option.split)

section \<open>Properties\<close>


text \<open>
  C20: transport policy. In every state the IPC server can reach, the session's server URL, if
  it has one, is an https URL, or an http URL of a loopback host, or an http URL with
  \<open>VOUCH_ALLOW_INSECURE\<close> switched on.
\<close>

theorem server_url_secure:
  assumes "get_server_url now (server_run rc h) = Some u"
  shows "\<exists>p. ck_url_parse rc u = Some p
           \<and> (url_scheme p = ''https''
              \<or> url_scheme p = ''http''
                \<and> (is_loopback_host (case url_host_str p of Some host \<Rightarrow> host | None \<Rightarrow> [])
                   \<or> allow_insecure rc))"
proof -
  have "url_policy rc (server_run rc h)"
    unfolding server_run_def by (rule url_server.run_inv) (simp add: list_all_iff)
  moreover from assms have "Option.bind (server_run rc h) slot_server_url = Some u"
    by (auto simp: get_server_url_def bind_eq_Some_conv live_eq split: if_splits)
  ultimately show ?thesis
    by (auto simp: url_policy_def url_allowed_def split: option.splits)
qed

definition demo_rpc :: rpc_crates where
  "demo_rpc = ssh_crates.extend
     (demo_crates\<lparr>ck_url_parse := (\<lambda>s. if s = ''https://x'' then
        Some \<lparr>url_scheme = ''https'', url_host_of = Some (Domain ''x''), url_host_str = Some ''x''\<rparr>
        else None)\<rparr>)
     (rpc_crates.fields (\<lambda>_. None)
        (\<lambda>j. Some \<lparr>ssp_token = ''tok'', ssp_user_email = ''u@x'', ssp_expires_at = ''t'',
                   ssp_server_url = Some ''https://x'', ssp_mode = Replace\<rparr>)
        (\<lambda>_. None) (\<lambda>_. None) (\<lambda>_. None) (\<lambda>_. Inr 100) (\<lambda>_. None) None)"

definition demo_history :: history where
  "demo_history = [(demo_fs, \<lambda>m. m,
     \<lparr>req_id = 1, req_method = StoreSession, req_params = Some ''{}''\<rparr>, \<lambda>_. 0)]"

lemma demo_server_url: "get_server_url 5 (server_run demo_rpc demo_history) = Some ''https://x''"
  by (simp add: server_run_def demo_history_def demo_rpc_def handle_request_def
      handle_store_session_def extract_params_def judge_server_url_def check_url_security_def
      store_session_def slot_new_def session_new_def get_server_url_def live_eq
      ssh_crates.defs rpc_crates.defs demo_crates_def Let_def)

theorem server_url_secure_witness:
  "\<exists>p. ck_url_parse demo_rpc ''https://x'' = Some p
     \<and> (url_scheme p = ''https''
        \<or> url_scheme p = ''http''
          \<and> (is_loopback_host (case url_host_str p of Some host \<Rightarrow> host | None \<Rightarrow> [])
             \<or> allow_insecure demo_rpc))"
  by (rule server_url_secure [OF demo_server_url])



text \<open>
  admission. In every state of the accept loop at most 64 connections are served, and each
  of them belongs to a process of the agent's own user.
\<close>

theorem listener_serves_own_user:
  "listener_inv uid (fold (run_listener_step kind uid) evs listener_new)"
  by (rule accept_loop.run_inv) (simp add: list_all_iff)

text \<open>
  replies. Every message gets exactly one response, with a result or an error and never
  both; it carries the request's id, or 0 when the message does not parse; and a message that
  does not parse or names no method changes nothing and is answered with the JSON-RPC code for
  it.
\<close>

theorem dispatch_response:
  "(case dispatch rc fs it t buf st of (resp, st', evs) \<Rightarrow>
      response_ok resp
      \<and> (case rc_raw_request rc buf of
           None \<Rightarrow> resp = response_error 0 PARSE_ERROR ''parse error'' \<and> st' = st \<and> evs = []
         | Some raw \<Rightarrow>
             resp_id resp = raw_id raw
             \<and> (if raw_method raw \<in> set (map method_name all_methods) then True
                else resp = response_error (raw_id raw) METHOD_NOT_FOUND ''method not found''
                     \<and> st' = st \<and> evs = [])))"
proof (cases "rc_raw_request rc buf")
  case None
  then show ?thesis by (simp add: dispatch_def)
next
  case (Some raw)
  show ?thesis
  proof (cases "method_of (raw_method raw)")
    case None
    moreover from None have "raw_method raw \<notin> set (map method_name all_methods)"
      using method_of_None by blast
    ultimately show ?thesis
      using Some by (simp add: dispatch_def method_not_found_def)
  next
    case (Some mth)
    then have "raw_method raw \<in> set (map method_name all_methods)"
      by (metis method_of_None option.distinct(1))
    with Some \<open>rc_raw_request rc buf = Some raw\<close> handle_request_reply show ?thesis
      by (simp add: dispatch_def case_prod_beta)
  qed
qed

end
