(* ===== verification/Agent_Expiry.thy ===== *)
theory Agent_Expiry
  imports Agent_Ssh
begin

text \<open>
  The expiry monitor (\<open>vouch-agent/src/expiry_monitor.rs\<close>): once a minute it decides which
  warnings are due and sends them. Its state is the session it tracks, named by its expiry,
  and the thresholds it has fired for that session.
\<close>

section \<open>The monitor\<close>

definition WARN_THRESHOLDS_SECS :: "nat list" where
  "WARN_THRESHOLDS_SECS = [30 * 60, 5 * 60]"

record monitor =
  mon_tracked :: "timestamp option"
  mon_fired :: "nat list"

definition monitor_new :: monitor where
  "monitor_new = \<lparr>mon_tracked = None, mon_fired = []\<rparr>"

text \<open>The loop over the thresholds: those fired before, and those that fire now.\<close>

fun cross_thresholds :: "nat \<Rightarrow> nat list \<Rightarrow> nat list \<Rightarrow> nat list \<times> nat list" where
  "cross_thresholds remaining [] fired = (fired, [])"
| "cross_thresholds remaining (th # ths) fired =
     (if remaining \<le> th \<and> th \<notin> set fired
      then (case cross_thresholds remaining ths (fired @ [th]) of (f, fired_now) \<Rightarrow> (f, th # fired_now))
      else cross_thresholds remaining ths fired)"

definition thresholds_to_fire ::
    "monitor \<Rightarrow> timestamp option \<Rightarrow> nat option \<Rightarrow> monitor \<times> nat list" where
  "thresholds_to_fire m session_expiry remaining_secs =
     (let m1 = (if session_expiry \<noteq> mon_tracked m
                then \<lparr>mon_tracked = session_expiry, mon_fired = []\<rparr> else m)
      in case remaining_secs of
           None \<Rightarrow> (m1, [])
         | Some remaining \<Rightarrow>
             if remaining = 0
             then if 0 \<notin> set (mon_fired m1)
                  then (m1\<lparr>mon_fired := mon_fired m1 @ [0]\<rparr>, [0])
                  else (m1, [])
             else (case cross_thresholds remaining WARN_THRESHOLDS_SECS (mon_fired m1) of
                     (fired, fired_now) \<Rightarrow> (m1\<lparr>mon_fired := fired\<rparr>, fired_now)))"

text \<open>
  One turn of the loop. The expiry is read in one critical section and the e-mail address of
  the audit event in another, so the two may see different states.
\<close>

datatype notification = SessionExpiredNote | SessionExpiringNote nat

definition monitor_tick ::
    "timestamp \<Rightarrow> agent_state \<Rightarrow> agent_state \<Rightarrow> monitor
       \<Rightarrow> monitor \<times> notification list \<times> audit_event list" where
  "monitor_tick now st st_later m =
     (case session_expiry_info now st of
        (session_expiry, remaining_secs) \<Rightarrow>
          (case thresholds_to_fire m session_expiry remaining_secs of
             (m1, fires) \<Rightarrow>
               (m1,
                map (\<lambda>th. if th = 0 then SessionExpiredNote else SessionExpiringNote (th div 60)) fires,
                concat (map (\<lambda>th. if th = 0 then [AuditSessionExpired (current_user_email st_later)]
                                 else []) fires))))"

section \<open>Lemmas\<close>

lemma cross_thresholds_spec:
  assumes "distinct ths" and "distinct fired" and "cross_thresholds remaining ths fired = (f, new)"
  shows "f = fired @ new \<and> new = filter (\<lambda>th. remaining \<le> th \<and> th \<notin> set fired) ths"
  using assms
proof (induction ths arbitrary: fired f new)
  case (Cons th ths)
  show ?case
  proof (cases "remaining \<le> th \<and> th \<notin> set fired")
    case True
    with Cons.prems obtain new' where
      r: "cross_thresholds remaining ths (fired @ [th]) = (f, new')" "new = th # new'"
      by (auto split: prod.splits)
    from Cons.IH [OF _ _ r(1)] Cons.prems True
    have "f = (fired @ [th]) @ new'"
      "new' = filter (\<lambda>x. remaining \<le> x \<and> x \<notin> set (fired @ [th])) ths" by auto
    moreover have "filter (\<lambda>x. remaining \<le> x \<and> x \<notin> set (fired @ [th])) ths
        = filter (\<lambda>x. remaining \<le> x \<and> x \<notin> set fired) ths"
      using Cons.prems(1) by (intro filter_cong) auto
    ultimately show ?thesis using True r(2) by simp
  next
    case False
    with Cons show ?thesis by auto
  qed
qed simp

lemma distinct_thresholds: "distinct WARN_THRESHOLDS_SECS" "0 \<notin> set WARN_THRESHOLDS_SECS"
  by (simp_all add: WARN_THRESHOLDS_SECS_def)

text \<open>What one tick does while the session stays the same.\<close>

definition due :: "nat \<Rightarrow> nat list" where
  "due remaining = (if remaining = 0 then [0] else filter (\<lambda>th. remaining \<le> th) WARN_THRESHOLDS_SECS)"

lemma in_due: "th \<in> set (due r) \<longleftrightarrow> (if r = 0 then th = 0 else r \<le> th \<and> th \<in> {1800, 300})"
  by (simp add: due_def WARN_THRESHOLDS_SECS_def) auto

lemma due_subset: "set (due remaining) \<subseteq> insert 0 (set WARN_THRESHOLDS_SECS)"
  by (auto simp: due_def)

lemma distinct_due: "distinct (due remaining)"
  by (simp add: due_def distinct_thresholds)

lemma tick_same:
  assumes "distinct (mon_fired m)"
  shows "thresholds_to_fire m (mon_tracked m) (Some remaining)
           = (m\<lparr>mon_fired := mon_fired m @ filter (\<lambda>th. th \<notin> set (mon_fired m)) (due remaining)\<rparr>,
              filter (\<lambda>th. th \<notin> set (mon_fired m)) (due remaining))"
proof (cases "remaining = 0")
  case True
  then show ?thesis by (simp add: thresholds_to_fire_def due_def)
next
  case False
  obtain f new where x: "cross_thresholds remaining WARN_THRESHOLDS_SECS (mon_fired m) = (f, new)"
    by fastforce
  from cross_thresholds_spec [OF distinct_thresholds(1) assms x] x False show ?thesis
    by (simp add: thresholds_to_fire_def due_def)
qed

text \<open>All that fires over a sequence of ticks on one session.\<close>

fun fire_all :: "monitor \<Rightarrow> timestamp \<Rightarrow> nat list \<Rightarrow> nat list" where
  "fire_all m e [] = []"
| "fire_all m e (r # rs) =
     (case thresholds_to_fire m (Some e) (Some r) of (m1, fires) \<Rightarrow> fires @ fire_all m1 e rs)"

lemma fire_all_tracked:
  assumes "distinct (mon_fired m)" and "mon_tracked m = Some e"
  shows "distinct (mon_fired m @ fire_all m e rs)
       \<and> set (fire_all m e rs) = \<Union> (set (map (set \<circ> due) rs)) - set (mon_fired m)"
  using assms
proof (induction rs arbitrary: m)
  case (Cons r rs)
  let ?new = "filter (\<lambda>th. th \<notin> set (mon_fired m)) (due r)"
  let ?m = "m\<lparr>mon_fired := mon_fired m @ ?new\<rparr>"
  have all: "fire_all m e (r # rs) = ?new @ fire_all ?m e rs"
    using tick_same [OF Cons.prems(1), of r] Cons.prems(2) by simp
  have "distinct (mon_fired ?m)" using Cons.prems distinct_due [of r] by auto
  moreover have "mon_tracked ?m = Some e" using Cons.prems by simp
  ultimately have IH: "distinct (mon_fired ?m @ fire_all ?m e rs)"
    "set (fire_all ?m e rs) = \<Union> (set (map (set \<circ> due) rs)) - set (mon_fired ?m)"
    using Cons.IH by blast+
  from IH(1) have "distinct (mon_fired m @ fire_all m e (r # rs))" unfolding all by simp
  moreover have "set (fire_all m e (r # rs))
      = \<Union> (set (map (set \<circ> due) (r # rs))) - set (mon_fired m)"
    unfolding all set_append IH(2) by auto
  ultimately show ?case ..
qed simp

section \<open>Properties\<close>

text \<open>
  expiry warnings. Over any sequence of ticks during one session that the monitor has not
  tracked before, no threshold fires twice; those that fire are exactly those that some tick
  found due: the warning at 30 or 5 minutes when at most that much time was left, and the
  expiry notice when none was.
\<close>

theorem warnings_fire_once:
  assumes "mon_tracked m \<noteq> Some e"
  shows "distinct (fire_all m e rs)
       \<and> (th \<in> set (fire_all m e rs) \<longleftrightarrow>
            (\<exists>r \<in> set rs. if r = 0 then th = 0 else r \<le> th \<and> th \<in> {1800, 300}))"
proof (cases rs)
  case (Cons r rs')
  let ?m = "\<lparr>mon_tracked = Some e, mon_fired = []\<rparr>"
  have "thresholds_to_fire m (Some e) (Some r) = thresholds_to_fire ?m (Some e) (Some r)"
    using assms by (simp add: thresholds_to_fire_def)
  then have "fire_all m e rs = fire_all ?m e rs" using Cons by simp
  moreover have "th \<in> \<Union> (set (map (set \<circ> due) rs)) \<longleftrightarrow>
      (\<exists>r \<in> set rs. if r = 0 then th = 0 else r \<le> th \<and> th \<in> {1800, 300})"
    by (simp only: set_map UN_iff comp_apply in_due)
  ultimately show ?thesis using fire_all_tracked [of ?m e rs] by simp
qed simp

theorem warnings_fire_once_witness:
  "distinct (fire_all monitor_new 99 [2000, 1700, 200, 0, 0])
   \<and> (300 \<in> set (fire_all monitor_new 99 [2000, 1700, 200, 0, 0]) \<longleftrightarrow>
        (\<exists>r \<in> set [2000, 1700, 200, 0, 0 :: nat].
           if r = 0 then (300 :: nat) = 0 else r \<le> 300 \<and> (300 :: nat) \<in> {1800, 300}))"
  by (rule warnings_fire_once) (simp add: monitor_new_def)


end
