(* ===== verification/Sfv.thy ===== *)
theory Sfv
  imports Vouch_Prelude
begin

text \<open>
  Structured field values of RFC 8941 (\<open>vouch-httpsig/src/sfv/\<close>): the types, the parser and
  the serializer. The parser's cursor is the input that is left. Base64 is an argument, an
  encoder and a decoder. A decimal is its sign and its absolute value in thousandths: below
  10 to the 12 a 64-bit float tells any two such numbers apart and prints them back exactly
  with three digits.
\<close>

section \<open>Types\<close>

datatype httpsig_error =
    MissingComponent string
  | InvalidComponent string
  | BaseConstruction string
  | SigningFailed string
  | VerificationFailed string
  | InvalidSignature string
  | MissingHeader string
  | SfvParse string
  | UnsupportedAlgorithm string
  | Expired string
  | DigestMismatch string
  | MissingDigest

datatype sfv_bare_item =
    Integer int
  | Decimal bool nat
  | String string
  | Token string
  | ByteSequence bytes
  | Boolean bool

type_synonym sfv_params = "(string \<times> sfv_bare_item option) list"

record sfv_item =
  item_value :: sfv_bare_item
  item_params :: sfv_params

record sfv_inner_list =
  il_items :: "sfv_item list"
  il_params :: sfv_params

datatype sfv_member = Item sfv_item | InnerList sfv_inner_list

type_synonym sfv_list = "sfv_member list"
type_synonym sfv_dictionary = "(string \<times> sfv_member) list"

text \<open>
  Parameters keep the order of their first insertion; an insertion under a key that is there
  replaces the value in its place.
\<close>

fun params_insert :: "string \<Rightarrow> sfv_bare_item option \<Rightarrow> sfv_params \<Rightarrow> sfv_params" where
  "params_insert key v [] = [(key, v)]"
| "params_insert key v ((k, w) # ps) =
     (if k = key then (k, v) # ps else (k, w) # params_insert key v ps)"

definition params_get :: "string \<Rightarrow> sfv_params \<Rightarrow> sfv_bare_item option option" where
  "params_get key ps = map_option snd (List.find (\<lambda>(k, _). k = key) ps)"

definition params_contains_key :: "string \<Rightarrow> sfv_params \<Rightarrow> bool" where
  "params_contains_key key ps = list_ex (\<lambda>(k, _). k = key) ps"

definition dict_get :: "string \<Rightarrow> sfv_dictionary \<Rightarrow> sfv_member option" where
  "dict_get key d = map_option snd (List.find (\<lambda>(k, _). k = key) d)"

section \<open>Character classes\<close>

definition code :: "char \<Rightarrow> nat" where
  "code c = of_char c"

definition is_ascii_digit :: "char \<Rightarrow> bool" where
  "is_ascii_digit c \<longleftrightarrow> 48 \<le> code c \<and> code c \<le> 57"

definition is_ascii_lowercase :: "char \<Rightarrow> bool" where
  "is_ascii_lowercase c \<longleftrightarrow> 97 \<le> code c \<and> code c \<le> 122"

definition is_ascii_alphabetic :: "char \<Rightarrow> bool" where
  "is_ascii_alphabetic c \<longleftrightarrow> is_ascii_lowercase c \<or> 65 \<le> code c \<and> code c \<le> 90"

definition is_token_char :: "char \<Rightarrow> bool" where
  "is_token_char c \<longleftrightarrow>
     is_ascii_alphabetic c \<or> is_ascii_digit c
     \<or> c \<in> {CHR ''!'', CHR ''#'', CHR ''$'', CHR ''%'', CHR ''&'', CHR 0x27, CHR ''*'', CHR ''+'',
           CHR ''-'', CHR ''.'', CHR ''^'', CHR ''_'', CHR 0x60, CHR ''|'', CHR ''~'', CHR '':'', CHR ''/''}"

definition is_token_start :: "char \<Rightarrow> bool" where
  "is_token_start c \<longleftrightarrow> is_ascii_alphabetic c \<or> c = CHR ''*''"

definition is_key_start :: "char \<Rightarrow> bool" where
  "is_key_start c \<longleftrightarrow> is_ascii_lowercase c \<or> c = CHR ''*''"

definition is_key_char :: "char \<Rightarrow> bool" where
  "is_key_char c \<longleftrightarrow>
     is_ascii_lowercase c \<or> is_ascii_digit c
     \<or> c \<in> {CHR ''_'', CHR ''-'', CHR ''.'', CHR ''*''}"

definition is_string_char :: "char \<Rightarrow> bool" where
  "is_string_char c \<longleftrightarrow> 32 \<le> code c \<and> code c \<le> 126"

section \<open>The parser\<close>

type_synonym 'a parsed = "httpsig_error + ('a \<times> string)"

text \<open>The cursor looks at the next byte, if there is one.\<close>

fun peek :: "string \<Rightarrow> char option" where
  "peek [] = None"
| "peek (c # s) = Some c"

definition skip_sp :: "string \<Rightarrow> string" where
  "skip_sp s = dropWhile (\<lambda>c. c = CHR '' '') s"

definition skip_ows :: "string \<Rightarrow> string" where
  "skip_ows s = dropWhile (\<lambda>c. c = CHR '' '' \<or> c = CHR 0x09) s"

definition p_key :: "string \<Rightarrow> string parsed" where
  "p_key s =
     (case s of
        [] \<Rightarrow> Inl (SfvParse ''expected key start'')
      | c # r \<Rightarrow>
          if is_key_start c then Inr (c # takeWhile is_key_char r, dropWhile is_key_char r)
          else Inl (SfvParse ''expected key start''))"

definition p_token :: "string \<Rightarrow> sfv_bare_item parsed" where
  "p_token s =
     (case s of
        [] \<Rightarrow> Inl (SfvParse ''expected token start'')
      | c # r \<Rightarrow>
          if is_token_start c
          then Inr (Token (c # takeWhile is_token_char r), dropWhile is_token_char r)
          else Inl (SfvParse ''expected token start''))"

text \<open>The characters up to the closing quote, with the escapes undone.\<close>

fun p_string_rest :: "string \<Rightarrow> string parsed" where
  "p_string_rest [] = Inl (SfvParse ''unterminated string'')"
| "p_string_rest (c # s) =
     (if c = CHR 0x22 then Inr ([], s)
      else if c = CHR 0x5C
      then (case s of
              [] \<Rightarrow> Inl (SfvParse ''invalid escape in string'')
            | d # s' \<Rightarrow>
                if d = CHR 0x22 \<or> d = CHR 0x5C
                then (case p_string_rest s' of
                        Inl e \<Rightarrow> Inl e
                      | Inr (t, r) \<Rightarrow> Inr (d # t, r))
                else Inl (SfvParse ''invalid escape in string''))
      else if is_string_char c
      then (case p_string_rest s of
              Inl e \<Rightarrow> Inl e
            | Inr (t, r) \<Rightarrow> Inr (c # t, r))
      else Inl (SfvParse ''invalid character in string''))"

definition p_string :: "string \<Rightarrow> sfv_bare_item parsed" where
  "p_string s =
     (if peek s \<noteq> Some (CHR 0x22) then Inl (SfvParse ''expected quote for string'')
      else (case p_string_rest (tl s) of
              Inl e \<Rightarrow> Inl e
            | Inr (t, r) \<Rightarrow> Inr (String t, r)))"

text \<open>A base64 codec: the \<open>STANDARD\<close> engine of the crate.\<close>

record base64 =
  b64_encode :: "bytes \<Rightarrow> string"
  b64_decode :: "string \<Rightarrow> bytes option"

definition p_byte_sequence :: "base64 \<Rightarrow> string \<Rightarrow> sfv_bare_item parsed" where
  "p_byte_sequence b64 s =
     (if peek s \<noteq> Some (CHR '':'') then Inl (SfvParse ''expected colon for byte sequence'')
      else let enc = takeWhile (\<lambda>c. c \<noteq> CHR '':'') (tl s);
               r = dropWhile (\<lambda>c. c \<noteq> CHR '':'') (tl s)
           in if r = [] then Inl (SfvParse ''unterminated byte sequence'')
              else (case b64_decode b64 enc of
                      None \<Rightarrow> Inl (SfvParse ''base64 decode error'')
                    | Some bs \<Rightarrow> Inr (ByteSequence bs, tl r)))"

definition p_boolean :: "string \<Rightarrow> sfv_bare_item parsed" where
  "p_boolean s =
     (if peek s \<noteq> Some (CHR ''?'') then Inl (SfvParse ''expected ? for boolean'')
      else (case peek (tl s) of
              Some c \<Rightarrow>
                if c = CHR ''0'' then Inr (Boolean False, tl (tl s))
                else if c = CHR ''1'' then Inr (Boolean True, tl (tl s))
                else Inl (SfvParse ''expected 0 or 1 after ?'')
            | None \<Rightarrow> Inl (SfvParse ''expected 0 or 1 after ?'')))"

definition SFV_INTEGER_MAX :: int where
  "SFV_INTEGER_MAX = 999999999999999"

definition SFV_INTEGER_MIN :: int where
  "SFV_INTEGER_MIN = -999999999999999"

text \<open>The number a string of digits denotes.\<close>

definition nat_of_digits :: "string \<Rightarrow> nat" where
  "nat_of_digits ds = foldl (\<lambda>n c. 10 * n + (code c - 48)) 0 ds"

definition p_decimal_remainder :: "bool \<Rightarrow> string \<Rightarrow> string \<Rightarrow> sfv_bare_item parsed" where
  "p_decimal_remainder neg ds s =
     (let fs = takeWhile is_ascii_digit s; r = dropWhile is_ascii_digit s
      in if length fs = 0 \<or> length fs > 3
         then Inl (SfvParse ''decimal fractional part must be 1-3 digits'')
         else if length ds > 12
         then Inl (SfvParse ''decimal integer part must be at most 12 digits'')
         else Inr (Decimal neg (nat_of_digits ds * 1000 + nat_of_digits fs * 10 ^ (3 - length fs)), r))"

definition p_integer_or_decimal :: "string \<Rightarrow> sfv_bare_item parsed" where
  "p_integer_or_decimal s =
     (let neg = (peek s = Some (CHR ''-''));
          s1 = (if neg then tl s else s);
          ds = takeWhile is_ascii_digit s1;
          r = dropWhile is_ascii_digit s1
      in if ds = [] then Inl (SfvParse ''expected digit in number'')
         else if peek r = Some (CHR ''.'') then p_decimal_remainder neg ds (tl r)
         else let v = (if neg then - int (nat_of_digits ds) else int (nat_of_digits ds))
              in if v < - (2 ^ 63) \<or> v > 2 ^ 63 - 1 then Inl (SfvParse ''integer parse error'')
                 else if v < SFV_INTEGER_MIN \<or> v > SFV_INTEGER_MAX
                 then Inl (SfvParse ''integer out of range'')
                 else Inr (Integer v, r))"

definition p_bare_item :: "base64 \<Rightarrow> string \<Rightarrow> sfv_bare_item parsed" where
  "p_bare_item b64 s =
     (case peek s of
        None \<Rightarrow> Inl (SfvParse ''unexpected end of input'')
      | Some c \<Rightarrow>
          if c = CHR 0x22 then p_string s
          else if c = CHR '':'' then p_byte_sequence b64 s
          else if c = CHR ''?'' then p_boolean s
          else if c = CHR ''-'' \<or> is_ascii_digit c then p_integer_or_decimal s
          else if is_token_start c then p_token s
          else Inl (SfvParse ''unexpected character''))"

section \<open>The parser consumes input\<close>

lemma length_dropWhile: "length (dropWhile P s) \<le> length s"
  by (induction s) auto

lemma p_key_shorter: "p_key s = Inr (k, r) \<Longrightarrow> length r < length s"
  by (auto simp: p_key_def less_Suc_eq_le length_dropWhile split: list.splits if_splits)

lemma p_string_rest_shorter: "p_string_rest s = Inr (t, r) \<Longrightarrow> length r < length s"
  by (induction s arbitrary: t r rule: p_string_rest.induct)
    (fastforce split: if_splits list.splits sum.splits prod.splits)+

lemma length_dropWhile_tl: "s \<noteq> [] \<Longrightarrow> length (dropWhile P (tl s)) < length s"
  using length_dropWhile [of P "tl s"] by (cases s) auto

lemma p_integer_or_decimal_shorter:
  assumes "p_integer_or_decimal s = Inr (b, r)"
  shows "length r < length s"
proof -
  define s1 where "s1 = (if peek s = Some (CHR ''-'') then tl s else s)"
  let ?r1 = "dropWhile is_ascii_digit s1"
  have ds: "takeWhile is_ascii_digit s1 \<noteq> []"
    using assms by (auto simp: p_integer_or_decimal_def s1_def Let_def split: if_splits)
  then have "length ?r1 < length s1"
    by (metis length_append takeWhile_dropWhile_id length_greater_0_conv less_add_same_cancel2)
  moreover have "length s1 \<le> length s" by (simp add: s1_def)
  moreover have "r = ?r1 \<or> r = dropWhile is_ascii_digit (tl ?r1)"
    using assms
    by (auto simp: p_integer_or_decimal_def p_decimal_remainder_def s1_def Let_def split: if_splits)
  moreover have "length (dropWhile is_ascii_digit (tl ?r1)) \<le> length ?r1"
    using length_dropWhile [of is_ascii_digit "tl ?r1"] by (simp del: dropWhile_eq_Nil_conv)
  ultimately show ?thesis by auto
qed

lemma p_bare_item_shorter:
  assumes "p_bare_item b64 s = Inr (b, r)"
  shows "length r < length s"
proof (cases s)
  case (Cons c s')
  from assms Cons consider "p_string s = Inr (b, r)" | "p_byte_sequence b64 s = Inr (b, r)"
    | "p_boolean s = Inr (b, r)" | "p_integer_or_decimal s = Inr (b, r)" | "p_token s = Inr (b, r)"
    by (auto simp: p_bare_item_def split: if_splits)
  then show ?thesis
  proof cases
    case 1
    then show ?thesis
      using Cons by (auto simp: p_string_def dest!: p_string_rest_shorter split: if_splits sum.splits)
  next
    case 2
    then show ?thesis
      using Cons length_dropWhile [of "\<lambda>c. c \<noteq> CHR '':''" s']
      by (auto simp: p_byte_sequence_def Let_def split: if_splits option.splits)
  next
    case 3
    then show ?thesis using Cons by (cases s') (auto simp: p_boolean_def split: if_splits)
  next
    case 4
    then show ?thesis by (rule p_integer_or_decimal_shorter)
  next
    case 5
    then show ?thesis
      using Cons by (auto simp: p_token_def less_Suc_eq_le length_dropWhile split: if_splits)
  qed
qed (use assms in \<open>simp add: p_bare_item_def\<close>)

lemma skip_sp_shorter: "length (skip_sp s) \<le> length s"
  by (simp add: skip_sp_def length_dropWhile)

lemma skip_ows_shorter: "length (skip_ows s) \<le> length s"
  by (simp add: skip_ows_def length_dropWhile)

section \<open>The parser, continued\<close>

definition p_param :: "base64 \<Rightarrow> string \<Rightarrow> (string \<times> sfv_bare_item option) parsed" where
  "p_param b64 s =
     (case p_key (skip_sp s) of
        Inl e \<Rightarrow> Inl e
      | Inr (key, r) \<Rightarrow>
          if peek r = Some (CHR ''='')
          then (case p_bare_item b64 (tl r) of
                  Inl e \<Rightarrow> Inl e
                | Inr (v, r') \<Rightarrow> Inr ((key, Some v), r'))
          else Inr ((key, None), r))"

lemma p_param_shorter: "p_param b64 s = Inr (kv, r) \<Longrightarrow> length r < length s"
  using skip_sp_shorter [of s]
  by (fastforce simp: p_param_def dest: p_key_shorter p_bare_item_shorter
      split: sum.splits if_splits)

function p_params_loop :: "base64 \<Rightarrow> sfv_params \<Rightarrow> string \<Rightarrow> sfv_params parsed" where
  "p_params_loop b64 ps s =
     (if peek s = Some (CHR '';'')
      then (case p_param b64 (tl s) of
              Inl e \<Rightarrow> Inl e
            | Inr ((key, v), r) \<Rightarrow> p_params_loop b64 (params_insert key v ps) r)
      else Inr (ps, s))"
  by auto
termination
  by (relation "measure (\<lambda>(b64, ps, s). length s)")
    (auto dest!: p_param_shorter)

declare p_params_loop.simps [simp del]

definition p_parameters :: "base64 \<Rightarrow> string \<Rightarrow> sfv_params parsed" where
  "p_parameters b64 s = p_params_loop b64 [] s"

definition p_item :: "base64 \<Rightarrow> string \<Rightarrow> sfv_item parsed" where
  "p_item b64 s =
     (case p_bare_item b64 s of
        Inl e \<Rightarrow> Inl e
      | Inr (v, r) \<Rightarrow>
          (case p_parameters b64 r of
             Inl e \<Rightarrow> Inl e
           | Inr (ps, r') \<Rightarrow> Inr (\<lparr>item_value = v, item_params = ps\<rparr>, r')))"

lemma p_params_loop_shorter: "p_params_loop b64 ps s = Inr (qs, r) \<Longrightarrow> length r \<le> length s"
proof (induction b64 ps s rule: p_params_loop.induct)
  case (1 b64 ps s)
  show ?case
  proof (cases "peek s = Some (CHR '';'')")
    case True
    with "1.prems" obtain key v r' where p: "p_param b64 (tl s) = Inr ((key, v), r')"
      "p_params_loop b64 (params_insert key v ps) r' = Inr (qs, r)"
      by (subst (asm) p_params_loop.simps) (auto split: sum.splits)
    with "1.IH" [OF True p(1) refl refl] p_param_shorter [OF p(1)] show ?thesis by simp
  next
    case False
    with "1.prems" show ?thesis by (subst (asm) p_params_loop.simps) simp
  qed
qed

lemma p_item_shorter: "p_item b64 s = Inr (v, r) \<Longrightarrow> length r < length s"
  by (fastforce simp: p_item_def p_parameters_def dest: p_bare_item_shorter p_params_loop_shorter
      split: sum.splits)

function p_inner_items :: "base64 \<Rightarrow> string \<Rightarrow> sfv_item list parsed" where
  "p_inner_items b64 s =
     (let s1 = skip_sp s
      in if peek s1 = Some (CHR '')'') then Inr ([], tl s1)
         else if s1 = [] then Inl (SfvParse ''unterminated inner list'')
         else (case p_item b64 s1 of
                 Inl e \<Rightarrow> Inl e
               | Inr (item, r) \<Rightarrow>
                   (case p_inner_items b64 r of
                      Inl e \<Rightarrow> Inl e
                    | Inr (items, r') \<Rightarrow> Inr (item # items, r'))))"
  by auto
termination
proof (relation "measure (\<lambda>(b64, s). length s)", goal_cases)
  case (2 b64 s s1 b item r)
  then show ?case using p_item_shorter [of b64 s1 item r] skip_sp_shorter [of s] by auto
qed simp

declare p_inner_items.simps [simp del]

definition p_inner_list :: "base64 \<Rightarrow> string \<Rightarrow> sfv_inner_list parsed" where
  "p_inner_list b64 s =
     (if peek s \<noteq> Some (CHR ''('') then Inl (SfvParse ''expected ( for inner list'')
      else (case p_inner_items b64 (tl s) of
              Inl e \<Rightarrow> Inl e
            | Inr (items, r) \<Rightarrow>
                (case p_parameters b64 r of
                   Inl e \<Rightarrow> Inl e
                 | Inr (ps, r') \<Rightarrow> Inr (\<lparr>il_items = items, il_params = ps\<rparr>, r'))))"

definition p_member_value :: "base64 \<Rightarrow> string \<Rightarrow> sfv_member parsed" where
  "p_member_value b64 s =
     (if peek s = Some (CHR ''('')
      then (case p_inner_list b64 s of Inl e \<Rightarrow> Inl e | Inr (l, r) \<Rightarrow> Inr (InnerList l, r))
      else (case p_item b64 s of Inl e \<Rightarrow> Inl e | Inr (i, r) \<Rightarrow> Inr (Item i, r)))"

definition p_list_member :: "base64 \<Rightarrow> string \<Rightarrow> sfv_member parsed" where
  "p_list_member b64 s =
     (if peek s = Some (CHR ''('')
      then (case p_inner_list b64 s of Inl e \<Rightarrow> Inl e | Inr (l, r) \<Rightarrow> Inr (InnerList l, r))
      else (case p_item b64 s of Inl e \<Rightarrow> Inl e | Inr (i, r) \<Rightarrow> Inr (Item i, r)))"

definition p_dict_member :: "base64 \<Rightarrow> string \<Rightarrow> (string \<times> sfv_member) parsed" where
  "p_dict_member b64 s =
     (case p_key s of
        Inl e \<Rightarrow> Inl e
      | Inr (key, r) \<Rightarrow>
          if peek r = Some (CHR ''='')
          then (case p_member_value b64 (tl r) of
                  Inl e \<Rightarrow> Inl e
                | Inr (member, r') \<Rightarrow> Inr ((key, member), r'))
          else (case p_parameters b64 r of
                  Inl e \<Rightarrow> Inl e
                | Inr (ps, r') \<Rightarrow>
                    Inr ((key, Item \<lparr>item_value = Boolean True, item_params = ps\<rparr>), r')))"

lemma skip_ows_tl_shorter: "length (skip_ows (tl (skip_ows s))) \<le> length s"
  using skip_ows_shorter [of s] skip_ows_shorter [of "tl (skip_ows s)"] by simp

lemma p_inner_items_shorter: "p_inner_items b64 s = Inr (items, r) \<Longrightarrow> length r \<le> length s"
proof (induction b64 s arbitrary: items rule: p_inner_items.induct)
  case (1 b64 s)
  show ?case
  proof (cases "peek (skip_sp s) = Some (CHR '')'')")
    case True
    with "1.prems" skip_sp_shorter [of s] show ?thesis
      by (subst (asm) p_inner_items.simps) (auto simp: Let_def)
  next
    case False
    with "1.prems" obtain item items' r' where
      p: "p_item b64 (skip_sp s) = Inr (item, r')" "p_inner_items b64 r' = Inr (items', r)"
      and ne: "skip_sp s \<noteq> []"
      by (subst (asm) p_inner_items.simps) (auto simp: Let_def split: if_splits sum.splits)
    from "1.IH" [OF refl False ne p(1) refl p(2)] p_item_shorter [OF p(1)] skip_sp_shorter [of s]
    show ?thesis by simp
  qed
qed

lemma p_inner_list_shorter: "p_inner_list b64 s = Inr (l, r) \<Longrightarrow> length r < length s"
  by (cases s) (fastforce simp: p_inner_list_def p_parameters_def
      dest: p_inner_items_shorter p_params_loop_shorter split: if_splits sum.splits)+

lemma p_list_member_shorter: "p_list_member b64 s = Inr (m, r) \<Longrightarrow> length r < length s"
  by (auto simp: p_list_member_def dest: p_inner_list_shorter p_item_shorter
      split: if_splits sum.splits)

lemma p_member_value_shorter: "p_member_value b64 s = Inr (m, r) \<Longrightarrow> length r < length s"
  by (auto simp: p_member_value_def dest: p_inner_list_shorter p_item_shorter
      split: if_splits sum.splits)

lemma p_dict_member_shorter: "p_dict_member b64 s = Inr (m, r) \<Longrightarrow> length r < length s"
  by (fastforce simp: p_dict_member_def p_parameters_def
      dest: p_key_shorter p_member_value_shorter p_params_loop_shorter
      split: if_splits sum.splits)

text \<open>The loops of lists and dictionaries over the members behind the first.\<close>

function p_dict_loop :: "base64 \<Rightarrow> string \<Rightarrow> sfv_dictionary parsed" where
  "p_dict_loop b64 s =
     (let s1 = skip_ows s
      in if peek s1 \<noteq> Some (CHR '','') then Inr ([], s1)
         else let s2 = skip_ows (tl s1)
              in if s2 = [] then Inl (SfvParse ''trailing comma in dictionary'')
                 else (case p_dict_member b64 s2 of
                         Inl e \<Rightarrow> Inl e
                       | Inr (m, r) \<Rightarrow>
                           (case p_dict_loop b64 r of
                              Inl e \<Rightarrow> Inl e
                            | Inr (ms, r') \<Rightarrow> Inr (m # ms, r'))))"
  by auto
termination
proof (relation "measure (\<lambda>(b64, s). length s)", goal_cases)
  case (2 b64 s s1 s2 b m r)
  then have "length r < length s2" using p_dict_member_shorter by fastforce
  with 2 show ?case using skip_ows_tl_shorter [of s] by simp
qed simp

declare p_dict_loop.simps [simp del]

function p_list_loop :: "base64 \<Rightarrow> string \<Rightarrow> sfv_list parsed" where
  "p_list_loop b64 s =
     (let s1 = skip_ows s
      in if peek s1 \<noteq> Some (CHR '','') then Inr ([], s1)
         else let s2 = skip_ows (tl s1)
              in if s2 = [] then Inl (SfvParse ''trailing comma in list'')
                 else (case p_list_member b64 s2 of
                         Inl e \<Rightarrow> Inl e
                       | Inr (m, r) \<Rightarrow>
                           (case p_list_loop b64 r of
                              Inl e \<Rightarrow> Inl e
                            | Inr (ms, r') \<Rightarrow> Inr (m # ms, r'))))"
  by auto
termination
proof (relation "measure (\<lambda>(b64, s). length s)", goal_cases)
  case (2 b64 s s1 s2 b m r)
  then have "length r < length s2" using p_list_member_shorter by fastforce
  with 2 show ?case using skip_ows_tl_shorter [of s] by simp
qed simp

declare p_list_loop.simps [simp del]

definition p_dictionary :: "base64 \<Rightarrow> string \<Rightarrow> sfv_dictionary parsed" where
  "p_dictionary b64 s =
     (let s1 = skip_sp s
      in if s1 = [] then Inr ([], s1)
         else (case p_dict_member b64 s1 of
                 Inl e \<Rightarrow> Inl e
               | Inr (m, r) \<Rightarrow>
                   (case p_dict_loop b64 r of
                      Inl e \<Rightarrow> Inl e
                    | Inr (ms, r') \<Rightarrow> Inr (m # ms, r'))))"

definition p_list :: "base64 \<Rightarrow> string \<Rightarrow> sfv_list parsed" where
  "p_list b64 s =
     (let s1 = skip_sp s
      in if s1 = [] then Inr ([], s1)
         else (case p_list_member b64 s1 of
                 Inl e \<Rightarrow> Inl e
               | Inr (m, r) \<Rightarrow>
                   (case p_list_loop b64 r of
                      Inl e \<Rightarrow> Inl e
                    | Inr (ms, r') \<Rightarrow> Inr (m # ms, r'))))"

definition MAX_SFV_INPUT_LEN :: nat where
  "MAX_SFV_INPUT_LEN = 8192"

text \<open>The entry points: a bound on the input, and nothing but spaces behind the value.\<close>

definition parse_all :: "(string \<Rightarrow> 'a parsed) \<Rightarrow> string \<Rightarrow> string \<Rightarrow> httpsig_error + 'a" where
  "parse_all p trailing input =
     (if length input > MAX_SFV_INPUT_LEN then Inl (SfvParse ''input too large'')
      else (case p input of
              Inl e \<Rightarrow> Inl e
            | Inr (v, r) \<Rightarrow> if skip_sp r \<noteq> [] then Inl (SfvParse trailing) else Inr v))"

definition parse_dictionary :: "base64 \<Rightarrow> string \<Rightarrow> httpsig_error + sfv_dictionary" where
  "parse_dictionary b64 = parse_all (p_dictionary b64) ''trailing data after dictionary''"

definition parse_list :: "base64 \<Rightarrow> string \<Rightarrow> httpsig_error + sfv_list" where
  "parse_list b64 = parse_all (p_list b64) ''trailing data after list''"

definition parse_inner_list :: "base64 \<Rightarrow> string \<Rightarrow> httpsig_error + sfv_inner_list" where
  "parse_inner_list b64 = parse_all (p_inner_list b64) ''trailing data after inner list''"

definition parse_item :: "base64 \<Rightarrow> string \<Rightarrow> httpsig_error + sfv_item" where
  "parse_item b64 = parse_all (p_item b64) ''trailing data after item''"

section \<open>The serializer\<close>

definition digit_char :: "nat \<Rightarrow> char" where
  "digit_char d = char_of (48 + d)"

fun show_nat :: "nat \<Rightarrow> string" where
  "show_nat n = (if n < 10 then [digit_char n] else show_nat (n div 10) @ [digit_char (n mod 10)])"

declare show_nat.simps [simp del]

definition show_int :: "int \<Rightarrow> string" where
  "show_int i = (if i < 0 then ''-'' @ show_nat (nat (- i)) else show_nat (nat i))"

text \<open>The format \<open>{:.3}\<close>: three digits behind the point.\<close>

definition show_thousandths :: "bool \<Rightarrow> nat \<Rightarrow> string" where
  "show_thousandths neg k =
     (if neg then ''-'' else []) @ show_nat (k div 1000) @ ''.''
       @ [digit_char (k div 100 mod 10), digit_char (k div 10 mod 10), digit_char (k mod 10)]"

definition trim_end_zeros :: "string \<Rightarrow> string" where
  "trim_end_zeros s = rev (dropWhile (\<lambda>c. c = CHR ''0'') (rev s))"

definition serialize_decimal :: "bool \<Rightarrow> nat \<Rightarrow> string" where
  "serialize_decimal neg k =
     (let s = trim_end_zeros (show_thousandths neg k)
      in if ends_with ''.'' s then s @ ''0'' else s)"

definition escape_string :: "string \<Rightarrow> string" where
  "escape_string s = concat (map (\<lambda>c. if c = CHR 0x22 \<or> c = CHR 0x5C then [CHR 0x5C, c] else [c]) s)"

fun serialize_bare_item :: "base64 \<Rightarrow> sfv_bare_item \<Rightarrow> string" where
  "serialize_bare_item b64 (Integer v) = show_int v"
| "serialize_bare_item b64 (Decimal neg k) = serialize_decimal neg k"
| "serialize_bare_item b64 (String s) = [CHR 0x22] @ escape_string s @ [CHR 0x22]"
| "serialize_bare_item b64 (Token t) = t"
| "serialize_bare_item b64 (ByteSequence bs) = '':'' @ b64_encode b64 bs @ '':''"
| "serialize_bare_item b64 (Boolean b) = ''?'' @ (if b then ''1'' else ''0'')"

definition serialize_params :: "base64 \<Rightarrow> sfv_params \<Rightarrow> string" where
  "serialize_params b64 ps =
     concat (map (\<lambda>(key, v). '';'' @ key
       @ (case v of Some w \<Rightarrow> ''='' @ serialize_bare_item b64 w | None \<Rightarrow> [])) ps)"

definition serialize_item :: "base64 \<Rightarrow> sfv_item \<Rightarrow> string" where
  "serialize_item b64 i = serialize_bare_item b64 (item_value i) @ serialize_params b64 (item_params i)"

text \<open>The elements of a list with a separator before each but the first.\<close>

fun each_after :: "string \<Rightarrow> string list \<Rightarrow> string" where
  "each_after sep [] = []"
| "each_after sep (x # xs) = sep @ x @ each_after sep xs"

fun separated :: "string \<Rightarrow> string list \<Rightarrow> string" where
  "separated sep [] = []"
| "separated sep (x # xs) = x @ each_after sep xs"

definition serialize_inner_list :: "base64 \<Rightarrow> sfv_inner_list \<Rightarrow> string" where
  "serialize_inner_list b64 l =
     ''('' @ separated '' '' (map (serialize_item b64) (il_items l)) @ '')''
       @ serialize_params b64 (il_params l)"

definition serialize_list_member :: "base64 \<Rightarrow> sfv_member \<Rightarrow> string" where
  "serialize_list_member b64 m =
     (case m of Item i \<Rightarrow> serialize_item b64 i | InnerList l \<Rightarrow> serialize_inner_list b64 l)"

definition serialize_list :: "base64 \<Rightarrow> sfv_list \<Rightarrow> string" where
  "serialize_list b64 ms = separated '', '' (map (serialize_list_member b64) ms)"

definition serialize_dict_member :: "base64 \<Rightarrow> string \<times> sfv_member \<Rightarrow> string" where
  "serialize_dict_member b64 km =
     fst km @
     (case snd km of
        Item i \<Rightarrow>
          (if item_value i \<noteq> Boolean True then ''='' @ serialize_bare_item b64 (item_value i) else [])
          @ serialize_params b64 (item_params i)
      | InnerList l \<Rightarrow> ''='' @ serialize_inner_list b64 l)"

definition serialize_dictionary :: "base64 \<Rightarrow> sfv_dictionary \<Rightarrow> string" where
  "serialize_dictionary b64 d = separated '', '' (map (serialize_dict_member b64) d)"

end
