(* ===== verification/Sfv_Roundtrip.thy ===== *)
theory Sfv_Roundtrip
  imports Sfv
begin

text \<open>
  Correctness of the structured field parser and serializer: what the serializer writes for a
  well-formed value the parser reads back, and everything the parser accepts is well-formed.
  Well-formedness is the value ranges and character sets of RFC 8941 and, for parameters,
  distinct keys. Of base64 it is assumed that decoding inverts encoding and that an encoding
  has no colon.
\<close>

section \<open>Well-formed values\<close>

definition base64_ok :: "base64 \<Rightarrow> bool" where
  "base64_ok b64 \<longleftrightarrow>
     (\<forall>bs. b64_decode b64 (b64_encode b64 bs) = Some bs \<and> CHR '':'' \<notin> set (b64_encode b64 bs))"

fun wf_key :: "string \<Rightarrow> bool" where
  "wf_key [] = False"
| "wf_key (c # s) = (is_key_start c \<and> list_all is_key_char s)"

fun wf_token :: "string \<Rightarrow> bool" where
  "wf_token [] = False"
| "wf_token (c # s) = (is_token_start c \<and> list_all is_token_char s)"

fun wf_bare :: "sfv_bare_item \<Rightarrow> bool" where
  "wf_bare (Integer v) = (SFV_INTEGER_MIN \<le> v \<and> v \<le> SFV_INTEGER_MAX)"
| "wf_bare (Decimal neg k) = (k < 10 ^ 15)"
| "wf_bare (String s) = list_all is_string_char s"
| "wf_bare (Token t) = wf_token t"
| "wf_bare (ByteSequence bs) = True"
| "wf_bare (Boolean b) = True"

definition wf_params :: "sfv_params \<Rightarrow> bool" where
  "wf_params ps \<longleftrightarrow>
     distinct (map fst ps)
     \<and> list_all (\<lambda>(k, v). wf_key k \<and> (case v of None \<Rightarrow> True | Some w \<Rightarrow> wf_bare w)) ps"

definition wf_item :: "sfv_item \<Rightarrow> bool" where
  "wf_item i \<longleftrightarrow> wf_bare (item_value i) \<and> wf_params (item_params i)"

definition wf_inner_list :: "sfv_inner_list \<Rightarrow> bool" where
  "wf_inner_list l \<longleftrightarrow> list_all wf_item (il_items l) \<and> wf_params (il_params l)"

fun wf_member :: "sfv_member \<Rightarrow> bool" where
  "wf_member (Item i) = wf_item i"
| "wf_member (InnerList l) = wf_inner_list l"

definition wf_dictionary :: "sfv_dictionary \<Rightarrow> bool" where
  "wf_dictionary d = list_all (\<lambda>(k, m). wf_key k \<and> wf_member m) d"

section \<open>Scanning\<close>

text \<open>Where a value ends: at the end of the input, or at a delimiter.\<close>

definition stops :: "string \<Rightarrow> bool" where
  "stops r \<longleftrightarrow> r = [] \<or> hd r \<in> {CHR '' '', CHR '')'', CHR '';'', CHR '',''}"

lemma scan_append:
  assumes "list_all P xs" and "r = [] \<or> \<not> P (hd r)"
  shows "takeWhile P (xs @ r) = xs \<and> dropWhile P (xs @ r) = r"
  using assms by (induction xs) (auto, (cases r; simp)+)

lemmas char_classes = is_ascii_digit_def is_ascii_lowercase_def is_ascii_alphabetic_def
  is_token_char_def is_token_start_def is_key_start_def is_key_char_def is_string_char_def code_def

lemma stops_not_digit: "stops r \<Longrightarrow> r = [] \<or> \<not> is_ascii_digit (hd r)"
  by (auto simp: stops_def char_classes)

lemma stops_not_token: "stops r \<Longrightarrow> r = [] \<or> \<not> is_token_char (hd r)"
  by (auto simp: stops_def char_classes)

lemma stops_not_key: "stops r \<or> peek r = Some (CHR ''='') \<Longrightarrow> r = [] \<or> \<not> is_key_char (hd r)"
  by (cases r) (auto simp: stops_def char_classes)

lemma peek_Some: "peek s = Some c \<longleftrightarrow> (\<exists>r. s = c # r)"
  by (cases s) auto

section \<open>Numbers\<close>

lemma code_digit_char [simp]: "d < 10 \<Longrightarrow> code (digit_char d) = 48 + d"
  by (simp add: code_def digit_char_def)

lemma digit_char_digit [simp]: "d < 10 \<Longrightarrow> is_ascii_digit (digit_char d)"
  by (simp add: is_ascii_digit_def)

lemma digit_char_0 [simp]: "digit_char 0 = CHR ''0''"
  by code_simp

lemma digit_char_zero: "d < 10 \<Longrightarrow> digit_char d = CHR ''0'' \<longleftrightarrow> d = 0"
proof
  assume "d < 10" and "digit_char d = CHR ''0''"
  then have "48 + d = code (CHR ''0'')" by (metis code_digit_char)
  then show "d = 0" by (simp add: code_def)
qed simp

lemma nat_of_digits_append: "nat_of_digits (xs @ [c]) = 10 * nat_of_digits xs + (code c - 48)"
  by (simp add: nat_of_digits_def)

lemma show_nat_digits: "list_all is_ascii_digit (show_nat n)"
proof (induction n rule: show_nat.induct)
  case (1 n)
  then show ?case by (subst show_nat.simps) simp
qed

lemma show_nat_nonempty [simp]: "show_nat n \<noteq> []"
  by (subst show_nat.simps) simp

lemma nat_of_show_nat [simp]: "nat_of_digits (show_nat n) = n"
proof (induction n rule: show_nat.induct)
  case (1 n)
  show ?case
  proof (cases "n < 10")
    case True
    then show ?thesis by (subst show_nat.simps) (simp add: nat_of_digits_def)
  next
    case False
    with 1 show ?thesis by (subst show_nat.simps) (simp add: nat_of_digits_append)
  qed
qed

lemma length_show_nat: "n < 10 ^ Suc d \<Longrightarrow> length (show_nat n) \<le> Suc d"
proof (induction d arbitrary: n)
  case 0
  then show ?case by (subst show_nat.simps) simp
next
  case (Suc d)
  then have "n div 10 < 10 ^ Suc d" by (simp add: less_mult_imp_div_less)
  with Suc.IH have "length (show_nat (n div 10)) \<le> Suc d" .
  then show ?case by (subst show_nat.simps) simp
qed

lemma nat_of_digits_bound:
  "list_all is_ascii_digit ds \<Longrightarrow> nat_of_digits ds < 10 ^ length ds"
proof (induction ds rule: rev_induct)
  case (snoc c ds)
  then have "code c - 48 < 10" "nat_of_digits ds < 10 ^ length ds" by (auto simp: is_ascii_digit_def)
  then show ?case by (simp add: nat_of_digits_append)
qed (simp add: nat_of_digits_def)

lemma show_nat_head: "\<exists>c s. show_nat n = c # s \<and> is_ascii_digit c"
  using show_nat_digits [of n] by (cases "show_nat n") auto

text \<open>A decimal is written as its sign, its integer part, a point, and one to three digits.\<close>

lemma mod_1000: "k mod 1000 = 100 * (k div 100 mod 10) + 10 * (k div 10 mod 10) + k mod (10 :: nat)"
proof -
  have "k mod 1000 = 10 * (k div 10 mod 100) + k mod 10"
    using mod_mult2_eq [of k 10 100] by simp
  moreover have "k div 10 mod 100 = 10 * (k div 10 div 10 mod 10) + k div 10 mod 10"
    using mod_mult2_eq [of "k div 10" 10 10] by simp
  moreover have "k div 10 div 10 = k div 100" using div_mult2_eq [of k 10 10] by simp
  ultimately show ?thesis by simp
qed

lemma trim_zeros_point:
  assumes "a < 10" and "b < 10" and "c < 10"
  shows "trim_end_zeros (pre @ ''.'' @ [digit_char a, digit_char b, digit_char c])
           = pre @ ''.'' @ (if c \<noteq> 0 then [digit_char a, digit_char b, digit_char c]
                           else if b \<noteq> 0 then [digit_char a, digit_char b]
                           else if a \<noteq> 0 then [digit_char a] else [])"
  using assms by (simp add: trim_end_zeros_def digit_char_zero)

lemma ends_with_point: "ends_with ''.'' (pre @ ''.'' @ fs @ [d]) \<longleftrightarrow> d = CHR ''.''"
  by (auto simp: ends_with_iff)

lemma digit_not_point [simp]: "d < 10 \<Longrightarrow> digit_char d \<noteq> CHR ''.''"
proof
  assume "d < 10" and "digit_char d = CHR ''.''"
  then have "48 + d = code (CHR ''.'')" by (metis code_digit_char)
  then show False by (simp add: code_def)
qed

lemma serialize_decimal_form:
  "\<exists>fs. serialize_decimal neg k = (if neg then ''-'' else []) @ show_nat (k div 1000) @ ''.'' @ fs
      \<and> list_all is_ascii_digit fs \<and> fs \<noteq> [] \<and> length fs \<le> 3
      \<and> nat_of_digits fs * 10 ^ (3 - length fs) = k mod 1000"
proof -
  define pre where "pre = (if neg then ''-'' else []) @ show_nat (k div 1000)"
  define a b c where "a = k div 100 mod 10" and "b = k div 10 mod 10" and "c = k mod 10"
  have abc: "a < 10" "b < 10" "c < 10" and k: "k mod 1000 = 100 * a + 10 * b + c"
    using mod_1000 [of k] by (simp_all add: a_def b_def c_def)
  let ?fs = "if c \<noteq> 0 then [digit_char a, digit_char b, digit_char c]
     else if b \<noteq> 0 then [digit_char a, digit_char b] else [digit_char a]"
  have trim: "trim_end_zeros (show_thousandths neg k)
      = pre @ ''.'' @ (if c \<noteq> 0 then [digit_char a, digit_char b, digit_char c]
          else if b \<noteq> 0 then [digit_char a, digit_char b] else if a \<noteq> 0 then [digit_char a] else [])"
    using trim_zeros_point [OF abc, of pre]
    by (simp add: show_thousandths_def pre_def a_def b_def c_def)
  have "serialize_decimal neg k = pre @ ''.'' @ ?fs"
    unfolding serialize_decimal_def Let_def trim
    using abc ends_with_point [of pre "[digit_char a, digit_char b]" "digit_char c"]
      ends_with_point [of pre "[digit_char a]" "digit_char b"]
      ends_with_point [of pre "[]" "digit_char a"]
    by (auto simp: ends_with_iff)
  moreover have "list_all is_ascii_digit ?fs \<and> ?fs \<noteq> [] \<and> length ?fs \<le> 3" using abc by simp
  moreover have "nat_of_digits ?fs * 10 ^ (3 - length ?fs) = k mod 1000"
    using abc by (simp add: k nat_of_digits_def)
  ultimately show ?thesis by (auto simp: pre_def)
qed

section \<open>Bare items\<close>

lemma p_number_int:
  assumes "SFV_INTEGER_MIN \<le> v" and "v \<le> SFV_INTEGER_MAX" and "stops r"
  shows "p_integer_or_decimal (show_int v @ r) = Inr (Integer v, r)"
proof -
  let ?ds = "show_nat (nat \<bar>v\<bar>)"
  obtain c s where head: "?ds = c # s" "is_ascii_digit c" using show_nat_head by blast
  then have c: "c \<noteq> CHR ''-''" by (auto simp: char_classes)
  have scan: "takeWhile is_ascii_digit (?ds @ r) = ?ds" "dropWhile is_ascii_digit (?ds @ r) = r"
    using scan_append [OF show_nat_digits stops_not_digit [OF assms(3)]] by blast+
  have point: "peek r \<noteq> Some (CHR ''.'')" using assms(3) by (auto simp: stops_def peek_Some)
  have start: "peek (?ds @ r) \<noteq> Some (CHR ''-'')" using head c by simp
  have range: "- (2 ^ 63) \<le> v" "v \<le> 2 ^ 63 - 1"
    using assms(1,2) by (simp_all add: SFV_INTEGER_MIN_def SFV_INTEGER_MAX_def)
  show ?thesis
  proof (cases "v < 0")
    case True
    then have "show_int v @ r = CHR ''-'' # ?ds @ r" by (simp add: show_int_def)
    moreover have "- int (nat_of_digits ?ds) = v" using True by simp
    ultimately show ?thesis
      using True scan point range assms(1,2)
      by (simp add: p_integer_or_decimal_def SFV_INTEGER_MIN_def SFV_INTEGER_MAX_def)
  next
    case False
    then have "show_int v @ r = ?ds @ r" by (simp add: show_int_def)
    moreover have "int (nat_of_digits ?ds) = v" using False by simp
    ultimately show ?thesis
      using False scan point start range assms(1,2)
      by (simp add: p_integer_or_decimal_def SFV_INTEGER_MIN_def SFV_INTEGER_MAX_def)
  qed
qed

lemma p_number_decimal:
  assumes "k < 10 ^ 15" and "stops r"
  shows "p_integer_or_decimal (serialize_decimal neg k @ r) = Inr (Decimal neg k, r)"
proof -
  let ?ds = "show_nat (k div 1000)"
  obtain fs where form: "serialize_decimal neg k = (if neg then ''-'' else []) @ ?ds @ ''.'' @ fs"
    and fs: "list_all is_ascii_digit fs" "fs \<noteq> []" "length fs \<le> 3"
      "nat_of_digits fs * 10 ^ (3 - length fs) = k mod 1000"
    using serialize_decimal_form by blast
  obtain c s where head: "?ds = c # s" "is_ascii_digit c" using show_nat_head by blast
  then have c: "c \<noteq> CHR ''-''" by (auto simp: char_classes)
  let ?t = "CHR ''.'' # fs @ r"
  have "\<not> is_ascii_digit (CHR ''.'')" by (simp add: char_classes)
  then have scan: "takeWhile is_ascii_digit (?ds @ ?t) = ?ds" "dropWhile is_ascii_digit (?ds @ ?t) = ?t"
    using scan_append [OF show_nat_digits, of ?t] by auto
  have frac: "takeWhile is_ascii_digit (fs @ r) = fs" "dropWhile is_ascii_digit (fs @ r) = r"
    using scan_append [OF fs(1) stops_not_digit [OF assms(2)]] by blast+
  have "length ?ds \<le> 12" using length_show_nat [of "k div 1000" 11] assms(1) by simp
  moreover have "k div 1000 * 1000 + k mod 1000 = k" by simp
  ultimately have rem: "p_decimal_remainder neg ?ds (fs @ r) = Inr (Decimal neg k, r)"
    using fs frac by (simp add: p_decimal_remainder_def)
  have "peek (?ds @ ?t) \<noteq> Some (CHR ''-'')" using head c by simp
  with form scan rem show ?thesis by (cases neg) (simp_all add: p_integer_or_decimal_def)
qed

lemma p_string_escape:
  "list_all is_string_char s \<Longrightarrow> p_string_rest (escape_string s @ CHR 0x22 # r) = Inr (s, r)"
  by (induction s) (auto simp: escape_string_def)

lemma p_bytes_encode:
  assumes "base64_ok b64"
  shows "p_byte_sequence b64 ('':'' @ b64_encode b64 bs @ '':'' @ r) = Inr (ByteSequence bs, r)"
proof -
  have "list_all (\<lambda>c. c \<noteq> CHR '':'') (b64_encode b64 bs)"
    using assms by (auto simp: base64_ok_def list_all_iff)
  from scan_append [OF this, of "CHR '':'' # r"] assms show ?thesis
    by (simp add: p_byte_sequence_def base64_ok_def)
qed

lemma p_token_append:
  assumes "wf_token t" and "stops r"
  shows "p_token (t @ r) = Inr (Token t, r)"
proof -
  obtain c s where t: "t = c # s" "is_token_start c" "list_all is_token_char s"
    using assms(1) by (cases t) auto
  with scan_append [OF t(3) stops_not_token [OF assms(2)]] show ?thesis by (simp add: p_token_def)
qed

lemma p_key_append:
  assumes "wf_key k" and "stops r \<or> peek r = Some (CHR ''='')"
  shows "p_key (k @ r) = Inr (k, r)"
proof -
  obtain c s where k: "k = c # s" "is_key_start c" "list_all is_key_char s"
    using assms(1) by (cases k) auto
  with scan_append [OF k(3) stops_not_key [OF assms(2)]] show ?thesis by (simp add: p_key_def)
qed

text \<open>How the text of a bare item starts.\<close>

fun starts_item :: "sfv_bare_item \<Rightarrow> char \<Rightarrow> bool" where
  "starts_item (Integer v) c = (c = CHR ''-'' \<or> is_ascii_digit c)"
| "starts_item (Decimal neg k) c = (c = CHR ''-'' \<or> is_ascii_digit c)"
| "starts_item (String s) c = (c = CHR 0x22)"
| "starts_item (Token t) c = is_token_start c"
| "starts_item (ByteSequence bs) c = (c = CHR '':'')"
| "starts_item (Boolean b) c = (c = CHR ''?'')"

lemma bare_head:
  assumes "wf_bare b"
  shows "\<exists>c s. serialize_bare_item b64 b = c # s \<and> starts_item b c"
proof (cases b)
  case (Integer v)
  then show ?thesis using show_nat_head [of "nat v"] by (auto simp: show_int_def)
next
  case (Decimal neg k)
  then show ?thesis
    using serialize_decimal_form [of neg k] show_nat_head [of "k div 1000"] by (auto split: if_splits)
next
  case (Token t)
  with assms show ?thesis by (cases t) auto
qed auto

lemma starts_item_not:
  "starts_item b c \<Longrightarrow> c \<notin> {CHR '' '', CHR 0x09, CHR ''('', CHR '')'', CHR '','', CHR '';'', CHR ''=''}"
  by (cases b) (auto simp: char_classes)

lemma p_bare_item_serialize:
  assumes "base64_ok b64" and "wf_bare b" and "stops r"
  shows "p_bare_item b64 (serialize_bare_item b64 b @ r) = Inr (b, r)"
proof -
  obtain c s where head: "serialize_bare_item b64 b = c # s" "starts_item b c"
    using bare_head [OF assms(2)] by blast
  have pk: "peek (serialize_bare_item b64 b @ r) = Some c" using head by simp
  show ?thesis
  proof (cases b)
    case (Integer v)
    with head(2) have "c \<noteq> CHR 0x22 \<and> c \<noteq> CHR '':'' \<and> c \<noteq> CHR ''?'' \<and> (c = CHR ''-'' \<or> is_ascii_digit c)"
      by (auto simp: char_classes)
    with pk Integer assms p_number_int show ?thesis by (simp add: p_bare_item_def)
  next
    case (Decimal neg k)
    with head(2) have "c \<noteq> CHR 0x22 \<and> c \<noteq> CHR '':'' \<and> c \<noteq> CHR ''?'' \<and> (c = CHR ''-'' \<or> is_ascii_digit c)"
      by (auto simp: char_classes)
    with pk Decimal assms p_number_decimal show ?thesis by (simp add: p_bare_item_def)
  next
    case (String t)
    with assms(2) show ?thesis by (simp add: p_bare_item_def p_string_def p_string_escape)
  next
    case (Token t)
    with head(2) have "c \<noteq> CHR 0x22 \<and> c \<noteq> CHR '':'' \<and> c \<noteq> CHR ''?'' \<and> c \<noteq> CHR ''-''
        \<and> \<not> is_ascii_digit c \<and> is_token_start c"
      by (auto simp: char_classes)
    with pk Token assms p_token_append show ?thesis by (simp add: p_bare_item_def)
  next
    case (ByteSequence bs)
    with p_bytes_encode [OF assms(1)] show ?thesis by (simp add: p_bare_item_def)
  next
    case (Boolean v)
    then show ?thesis by (simp add: p_bare_item_def p_boolean_def)
  qed
qed

section \<open>Parameters, items and lists\<close>

lemma params_insert_new: "key \<notin> fst ` set ps \<Longrightarrow> params_insert key v ps = ps @ [(key, v)]"
  by (induction key v ps rule: params_insert.induct) auto

lemma serialize_params_Cons:
  "serialize_params b64 ((k, v) # ps) =
     '';'' @ k @ (case v of Some w \<Rightarrow> ''='' @ serialize_bare_item b64 w | None \<Rightarrow> [])
       @ serialize_params b64 ps"
  by (simp add: serialize_params_def)

lemma stops_params: "stops r \<Longrightarrow> stops (serialize_params b64 ps @ r)"
  by (cases ps) (auto simp: stops_def serialize_params_def)

lemma wf_key_head: "wf_key k \<Longrightarrow> \<exists>c s. k = c # s \<and> c \<notin> {CHR '' '', CHR 0x09}"
  by (cases k) (auto simp: char_classes)

lemma skip_head: "c \<noteq> CHR '' '' \<Longrightarrow> skip_sp (c # s) = c # s"
  "c \<notin> {CHR '' '', CHR 0x09} \<Longrightarrow> skip_ows (c # s) = c # s"
  by (simp_all add: skip_sp_def skip_ows_def)

lemma p_param_serialize:
  assumes "base64_ok b64" and "wf_key k" and "case v of None \<Rightarrow> True | Some w \<Rightarrow> wf_bare w"
    and "stops r"
  shows "p_param b64 (k @ (case v of Some w \<Rightarrow> ''='' @ serialize_bare_item b64 w | None \<Rightarrow> []) @ r)
           = Inr ((k, v), r)"
proof -
  have skip: "skip_sp (k @ t) = k @ t" for t
    using wf_key_head [OF assms(2)] by (auto simp: skip_head)
  show ?thesis
  proof (cases v)
    case None
    with p_key_append [OF assms(2), of r] skip assms(4) show ?thesis
      by (auto simp: p_param_def stops_def peek_Some)
  next
    case (Some w)
    with p_key_append [OF assms(2), of "''='' @ serialize_bare_item b64 w @ r"] skip
      p_bare_item_serialize [OF assms(1) _ assms(4), of w] assms(3) show ?thesis
      by (simp add: p_param_def)
  qed
qed

lemma p_params_loop_serialize:
  assumes "base64_ok b64" and "wf_params (ps @ qs)" and "stops r" and "peek r \<noteq> Some (CHR '';'')"
  shows "p_params_loop b64 ps (serialize_params b64 qs @ r) = Inr (ps @ qs, r)"
  using assms(2)
proof (induction qs arbitrary: ps)
  case Nil
  with assms(4) show ?case by (subst p_params_loop.simps) (simp add: serialize_params_def)
next
  case (Cons kv qs)
  obtain k v where kv: "kv = (k, v)" by (cases kv)
  have wf: "wf_key k" "case v of None \<Rightarrow> True | Some w \<Rightarrow> wf_bare w"
    and new: "k \<notin> fst ` set ps" and rest: "wf_params ((ps @ [kv]) @ qs)"
    using Cons.prems kv by (auto simp: wf_params_def)
  have "p_param b64 (tl (serialize_params b64 (kv # qs) @ r)) = Inr ((k, v), serialize_params b64 qs @ r)"
    using p_param_serialize [OF assms(1) wf stops_params [OF assms(3)], of b64 qs]
    by (simp add: kv serialize_params_Cons)
  moreover have "peek (serialize_params b64 (kv # qs) @ r) = Some (CHR '';'')"
    by (simp add: kv serialize_params_Cons)
  ultimately show ?case
    using Cons.IH [OF rest] params_insert_new [OF new] kv
    by (subst p_params_loop.simps) simp
qed

lemma p_parameters_serialize:
  assumes "base64_ok b64" and "wf_params qs" and "stops r" and "peek r \<noteq> Some (CHR '';'')"
  shows "p_parameters b64 (serialize_params b64 qs @ r) = Inr (qs, r)"
  using p_params_loop_serialize [of b64 "[]"] assms by (simp add: p_parameters_def)

lemma p_item_serialize:
  assumes "base64_ok b64" and "wf_item i" and "stops r" and "peek r \<noteq> Some (CHR '';'')"
  shows "p_item b64 (serialize_item b64 i @ r) = Inr (i, r)"
  using assms p_bare_item_serialize [OF assms(1) _ stops_params [OF assms(3)], of "item_value i" b64]
    p_parameters_serialize [OF assms(1) _ assms(3,4), of "item_params i"]
  by (simp add: p_item_def serialize_item_def wf_item_def)

lemma item_head:
  assumes "wf_item i"
  shows "\<exists>c s. serialize_item b64 i = c # s
           \<and> c \<notin> {CHR '' '', CHR 0x09, CHR ''('', CHR '')'', CHR '','', CHR '';'', CHR ''=''}"
  using bare_head [of "item_value i" b64] starts_item_not assms
  by (auto simp: serialize_item_def wf_item_def)

lemma p_inner_items_sp: "p_inner_items b64 (CHR '' '' # s) = p_inner_items b64 s"
  by (subst (1 2) p_inner_items.simps) (simp add: skip_sp_def)

lemma p_inner_items_serialize:
  assumes "base64_ok b64" and "list_all wf_item items"
  shows "p_inner_items b64 (separated '' '' (map (serialize_item b64) items) @ '')'' @ r) = Inr (items, r)"
  using assms(2)
proof (induction items)
  case Nil
  show ?case by (subst p_inner_items.simps) (simp add: skip_head)
next
  case (Cons i items)
  define rest where "rest = each_after '' '' (map (serialize_item b64) items) @ '')'' @ r"
  obtain c s where head: "serialize_item b64 i = c # s" "c \<notin> {CHR '' '', CHR '')''}"
    using item_head [of i] Cons.prems by fastforce
  have rest: "p_inner_items b64 rest = Inr (items, r)"
    using Cons by (cases items) (simp_all add: rest_def p_inner_items_sp)
  have "stops rest" "peek rest \<noteq> Some (CHR '';'')"
    by (cases items; simp add: rest_def stops_def)+
  then have item: "p_item b64 (serialize_item b64 i @ rest) = Inr (i, rest)"
    using p_item_serialize [OF assms(1)] Cons.prems by simp
  have "p_inner_items b64 (serialize_item b64 i @ rest) = Inr (i # items, r)"
    using head item rest by (subst p_inner_items.simps) (simp add: skip_head)
  then show ?case by (simp add: rest_def)
qed

lemma p_inner_list_serialize:
  assumes "base64_ok b64" and "wf_inner_list l" and "stops r" and "peek r \<noteq> Some (CHR '';'')"
  shows "p_inner_list b64 (serialize_inner_list b64 l @ r) = Inr (l, r)"
  using p_inner_items_serialize [OF assms(1), of "il_items l" "serialize_params b64 (il_params l) @ r"]
    p_parameters_serialize [OF assms(1) _ assms(3,4), of "il_params l"] assms(2)
  by (simp add: p_inner_list_def serialize_inner_list_def wf_inner_list_def)


lemma member_head:
  assumes "wf_member m"
  shows "\<exists>c s. serialize_list_member b64 m = c # s
           \<and> c \<notin> {CHR '' '', CHR 0x09} \<and> (c = CHR ''('' \<longleftrightarrow> (\<exists>l. m = InnerList l))"
proof (cases m)
  case (Item i)
  with assms item_head [of i b64] show ?thesis by (auto simp: serialize_list_member_def)
qed (simp add: serialize_list_member_def serialize_inner_list_def)

lemma p_member_serialize:
  assumes "base64_ok b64" and "wf_member m" and "stops r" and "peek r \<noteq> Some (CHR '';'')"
  shows "p_list_member b64 (serialize_list_member b64 m @ r) = Inr (m, r)"
    and "p_member_value b64 (serialize_list_member b64 m @ r) = Inr (m, r)"
proof -
  obtain c s where head: "serialize_list_member b64 m = c # s"
    "c = CHR ''('' \<longleftrightarrow> (\<exists>l. m = InnerList l)" using member_head [OF assms(2)] by blast
  have pk: "peek (serialize_list_member b64 m @ r) = Some c" using head by simp
  have "(case m of Item i \<Rightarrow> p_item b64 (serialize_item b64 i @ r) = Inr (i, r) \<and> c \<noteq> CHR ''(''
      | InnerList l \<Rightarrow> p_inner_list b64 (serialize_inner_list b64 l @ r) = Inr (l, r) \<and> c = CHR ''('')"
    using head(2) p_item_serialize [OF assms(1) _ assms(3,4)]
      p_inner_list_serialize [OF assms(1) _ assms(3,4)] assms(2) by (cases m) simp_all
  with pk show "p_list_member b64 (serialize_list_member b64 m @ r) = Inr (m, r)"
    "p_member_value b64 (serialize_list_member b64 m @ r) = Inr (m, r)"
    by (cases m; simp add: p_list_member_def p_member_value_def serialize_list_member_def)+
qed

lemma p_dict_member_serialize:
  assumes "base64_ok b64" and "wf_key k" and "wf_member m" and "stops r" and "peek r \<noteq> Some (CHR '';'')"
  shows "p_dict_member b64 (serialize_dict_member b64 (k, m) @ r) = Inr ((k, m), r)"
proof (cases "\<exists>ps. m = Item \<lparr>item_value = Boolean True, item_params = ps\<rparr>")
  case True
  then obtain ps where m: "m = Item \<lparr>item_value = Boolean True, item_params = ps\<rparr>" by blast
  let ?t = "serialize_params b64 ps @ r"
  have "stops ?t" using stops_params [OF assms(4)] .
  moreover from this have "peek ?t \<noteq> Some (CHR ''='')" by (auto simp: stops_def peek_Some)
  ultimately show ?thesis
    using p_key_append [OF assms(2), of ?t] p_parameters_serialize [OF assms(1) _ assms(4,5), of ps]
      assms(3) m
    by (simp add: p_dict_member_def serialize_dict_member_def wf_item_def)
next
  case False
  have "serialize_dict_member b64 (k, m) = k @ ''='' @ serialize_list_member b64 m"
  proof (cases m)
    case (Item i)
    with False have "item_value i \<noteq> Boolean True" by (cases i) auto
    with Item show ?thesis
      by (simp add: serialize_dict_member_def serialize_list_member_def serialize_item_def)
  qed (simp add: serialize_dict_member_def serialize_list_member_def)
  with p_key_append [OF assms(2), of "''='' @ serialize_list_member b64 m @ r"]
    p_member_serialize(2) [OF assms(1,3,4,5)]
  show ?thesis by (simp add: p_dict_member_def)
qed

lemma stops_members: "stops (each_after '', '' xs) \<and> peek (each_after '', '' xs) \<noteq> Some (CHR '';'')"
  by (cases xs) (simp_all add: stops_def)

lemma p_list_loop_serialize:
  assumes "base64_ok b64" and "list_all wf_member ms"
  shows "p_list_loop b64 (each_after '', '' (map (serialize_list_member b64) ms)) = Inr (ms, [])"
  using assms(2)
proof (induction ms)
  case Nil
  show ?case by (subst p_list_loop.simps) (simp add: skip_ows_def)
next
  case (Cons m ms)
  let ?rest = "each_after '', '' (map (serialize_list_member b64) ms)"
  obtain c s where head: "serialize_list_member b64 m = c # s" "c \<notin> {CHR '' '', CHR 0x09}"
    using member_head [of m b64] Cons.prems by auto
  have m: "p_list_member b64 (serialize_list_member b64 m @ ?rest) = Inr (m, ?rest)"
    using p_member_serialize(1) [OF assms(1) _ stops_members [THEN conjunct1] stops_members [THEN conjunct2]]
      Cons.prems by simp
  have "skip_ows (CHR '' '' # serialize_list_member b64 m @ ?rest) = serialize_list_member b64 m @ ?rest"
    using head by (simp add: skip_ows_def)
  moreover have "p_list_loop b64 ?rest = Inr (ms, [])" using Cons by simp
  ultimately show ?case
    using m head(1) by (subst p_list_loop.simps) (simp add: skip_head)
qed

lemma p_dict_loop_serialize:
  assumes "base64_ok b64" and "wf_dictionary d"
  shows "p_dict_loop b64 (each_after '', '' (map (serialize_dict_member b64) d)) = Inr (d, [])"
  using assms(2)
proof (induction d)
  case Nil
  show ?case by (subst p_dict_loop.simps) (simp add: skip_ows_def)
next
  case (Cons km d)
  obtain k m where km: "km = (k, m)" by (cases km)
  let ?rest = "each_after '', '' (map (serialize_dict_member b64) d)"
  have wf: "wf_key k" "wf_member m" "wf_dictionary d" using Cons.prems km by (auto simp: wf_dictionary_def)
  obtain c s where head: "serialize_dict_member b64 km = c # s" "c \<notin> {CHR '' '', CHR 0x09}"
    using wf_key_head [OF wf(1)] km by (auto simp: serialize_dict_member_def)
  have m: "p_dict_member b64 (serialize_dict_member b64 km @ ?rest) = Inr (km, ?rest)"
    unfolding km
    by (rule p_dict_member_serialize [OF assms(1) wf(1,2) stops_members [THEN conjunct1]
          stops_members [THEN conjunct2]])
  have "skip_ows (CHR '' '' # serialize_dict_member b64 km @ ?rest) = serialize_dict_member b64 km @ ?rest"
    using head by (simp add: skip_ows_def)
  with Cons.IH [OF wf(3)] m head(1) show ?case
    by (subst p_dict_loop.simps) (simp add: skip_head)
qed

lemma p_dictionary_serialize:
  assumes "base64_ok b64" and "wf_dictionary d"
  shows "p_dictionary b64 (serialize_dictionary b64 d) = Inr (d, [])"
proof (cases d)
  case Nil
  then show ?thesis by (simp add: p_dictionary_def serialize_dictionary_def skip_sp_def)
next
  case (Cons km d')
  obtain k m where km: "km = (k, m)" by (cases km)
  have wf: "wf_key k" "wf_member m" "wf_dictionary d'"
    using assms(2) Cons km by (auto simp: wf_dictionary_def)
  let ?rest = "each_after '', '' (map (serialize_dict_member b64) d')"
  obtain c s where head: "serialize_dict_member b64 km = c # s" "c \<noteq> CHR '' ''"
    using wf_key_head [OF wf(1)] km by (auto simp: serialize_dict_member_def)
  have "serialize_dictionary b64 d = serialize_dict_member b64 km @ ?rest"
    by (simp add: Cons serialize_dictionary_def)
  moreover have "p_dict_member b64 (serialize_dict_member b64 km @ ?rest) = Inr (km, ?rest)"
    unfolding km
    by (rule p_dict_member_serialize [OF assms(1) wf(1,2) stops_members [THEN conjunct1]
          stops_members [THEN conjunct2]])
  moreover have "skip_sp (serialize_dict_member b64 km @ ?rest) = serialize_dict_member b64 km @ ?rest"
    using head by (simp add: skip_head)
  ultimately show ?thesis
    using p_dict_loop_serialize [OF assms(1) wf(3)] head Cons by (simp add: p_dictionary_def)
qed

lemma p_list_serialize:
  assumes "base64_ok b64" and "list_all wf_member ms"
  shows "p_list b64 (serialize_list b64 ms) = Inr (ms, [])"
proof (cases ms)
  case Nil
  then show ?thesis by (simp add: p_list_def serialize_list_def skip_sp_def)
next
  case (Cons m ms')
  have wf: "wf_member m" "list_all wf_member ms'" using assms(2) Cons by auto
  let ?rest = "each_after '', '' (map (serialize_list_member b64) ms')"
  obtain c s where head: "serialize_list_member b64 m = c # s" "c \<noteq> CHR '' ''"
    using member_head [OF wf(1)] by blast
  have "serialize_list b64 ms = serialize_list_member b64 m @ ?rest"
    by (simp add: Cons serialize_list_def)
  moreover have "p_list_member b64 (serialize_list_member b64 m @ ?rest) = Inr (m, ?rest)"
    by (rule p_member_serialize(1) [OF assms(1) wf(1) stops_members [THEN conjunct1]
          stops_members [THEN conjunct2]])
  moreover have "skip_sp (serialize_list_member b64 m @ ?rest) = serialize_list_member b64 m @ ?rest"
    using head by (simp add: skip_head)
  ultimately show ?thesis
    using p_list_loop_serialize [OF assms(1) wf(2)] head Cons by (simp add: p_list_def)
qed

section \<open>What the parser accepts is well-formed\<close>

lemma list_all_takeWhile: "list_all P (takeWhile P s)"
  by (auto simp: list_all_iff dest: set_takeWhileD)

lemma p_key_wf: "p_key s = Inr (k, r) \<Longrightarrow> wf_key k"
  by (auto simp: p_key_def list_all_takeWhile split: list.splits if_splits)

lemma p_string_rest_wf: "p_string_rest s = Inr (t, r) \<Longrightarrow> list_all is_string_char t"
proof (induction s arbitrary: t r rule: p_string_rest.induct)
  case (2 c s)
  have esc: "is_string_char (CHR 0x22)" "is_string_char (CHR 0x5C)" by (simp_all add: char_classes)
  from "2.prems" consider "t = []"
    | d s' t' where "s = d # s'" "c \<noteq> CHR 0x22" "c = CHR 0x5C" "d = CHR 0x22 \<or> d = CHR 0x5C"
        "p_string_rest s' = Inr (t', r)" "t = d # t'"
    | t' where "c \<noteq> CHR 0x22" "c \<noteq> CHR 0x5C" "is_string_char c" "p_string_rest s = Inr (t', r)" "t = c # t'"
    by (auto split: if_splits list.splits sum.splits)
  then show ?case
  proof cases
    case (2 d s' t')
    with "2.IH"(1) [of d s'] esc show ?thesis by auto
  next
    case (3 t')
    with "2.IH"(2) show ?thesis by auto
  qed simp
qed simp

lemma p_decimal_wf:
  assumes "p_decimal_remainder neg ds s = Inr (b, r)" and "list_all is_ascii_digit ds"
  shows "wf_bare b"
proof -
  let ?fs = "takeWhile is_ascii_digit s"
  let ?i = "nat_of_digits ds" and ?f = "nat_of_digits ?fs * 10 ^ (3 - length ?fs)"
  from assms(1) have len: "length ?fs \<le> 3" "length ds \<le> 12" and b: "b = Decimal neg (?i * 1000 + ?f)"
    by (auto simp: p_decimal_remainder_def Let_def split: if_splits)
  have "?i < 10 ^ length ds" using nat_of_digits_bound [OF assms(2)] .
  also have "\<dots> \<le> 10 ^ 12" using len(2) by (intro power_increasing) auto
  finally have i: "?i < 10 ^ 12" .
  have "nat_of_digits ?fs < 10 ^ length ?fs" by (rule nat_of_digits_bound [OF list_all_takeWhile])
  then have "?f < 10 ^ length ?fs * 10 ^ (3 - length ?fs)" by simp
  also have "\<dots> = 10 ^ 3" using len(1) by (simp flip: power_add)
  finally have "?f < 1000" by simp
  with i have "?i * 1000 + ?f < 10 ^ 15" by simp
  with b show ?thesis by simp
qed

lemma p_number_wf: "p_integer_or_decimal s = Inr (b, r) \<Longrightarrow> wf_bare b"
  using p_decimal_wf [OF _ list_all_takeWhile]
  by (auto simp: p_integer_or_decimal_def Let_def split: if_splits)

lemma p_bare_item_wf:
  assumes "p_bare_item b64 s = Inr (b, r)"
  shows "wf_bare b"
proof (cases s)
  case (Cons c s')
  from assms Cons consider "p_string s = Inr (b, r)" | "p_byte_sequence b64 s = Inr (b, r)"
    | "p_boolean s = Inr (b, r)" | "p_integer_or_decimal s = Inr (b, r)" | "p_token s = Inr (b, r)"
    by (auto simp: p_bare_item_def split: if_splits)
  then show ?thesis
  proof cases
    case 1
    then show ?thesis by (auto simp: p_string_def intro: p_string_rest_wf split: if_splits sum.splits)
  next
    case 2
    then show ?thesis by (auto simp: p_byte_sequence_def Let_def split: if_splits option.splits)
  next
    case 3
    then show ?thesis by (auto simp: p_boolean_def split: if_splits option.splits)
  next
    case 4
    then show ?thesis by (rule p_number_wf)
  next
    case 5
    then show ?thesis by (auto simp: p_token_def list_all_takeWhile split: list.splits if_splits)
  qed
qed (use assms in \<open>simp add: p_bare_item_def\<close>)

lemma keys_params_insert: "fst ` set (params_insert key v ps) = insert key (fst ` set ps)"
  by (induction key v ps rule: params_insert.induct) auto

lemma params_insert_wf:
  "wf_params ps \<Longrightarrow> wf_key key \<Longrightarrow> (case v of None \<Rightarrow> True | Some w \<Rightarrow> wf_bare w)
     \<Longrightarrow> wf_params (params_insert key v ps)"
proof (induction key v ps rule: params_insert.induct)
  case (2 key v k w ps)
  then show ?case using keys_params_insert [of key v ps] by (auto simp: wf_params_def)
qed (simp add: wf_params_def)

lemma p_param_wf:
  "p_param b64 s = Inr ((k, v), r) \<Longrightarrow> wf_key k \<and> (case v of None \<Rightarrow> True | Some w \<Rightarrow> wf_bare w)"
  by (auto simp: p_param_def intro: p_key_wf p_bare_item_wf split: sum.splits if_splits option.splits)

lemma p_params_loop_wf: "p_params_loop b64 ps s = Inr (qs, r) \<Longrightarrow> wf_params ps \<Longrightarrow> wf_params qs"
proof (induction b64 ps s rule: p_params_loop.induct)
  case (1 b64 ps s)
  show ?case
  proof (cases "peek s = Some (CHR '';'')")
    case True
    with "1.prems" obtain key v r' where p: "p_param b64 (tl s) = Inr ((key, v), r')"
      "p_params_loop b64 (params_insert key v ps) r' = Inr (qs, r)"
      by (subst (asm) p_params_loop.simps) (auto split: sum.splits)
    from p_param_wf [OF p(1)] "1.prems"(2) have "wf_params (params_insert key v ps)"
      by (intro params_insert_wf) auto
    with "1.IH" [OF True p(1) refl refl p(2)] show ?thesis .
  next
    case False
    with "1.prems" show ?thesis by (subst (asm) p_params_loop.simps) simp
  qed
qed

lemma p_parameters_wf: "p_parameters b64 s = Inr (qs, r) \<Longrightarrow> wf_params qs"
  unfolding p_parameters_def by (rule p_params_loop_wf) (auto simp: wf_params_def)

lemma p_item_wf: "p_item b64 s = Inr (i, r) \<Longrightarrow> wf_item i"
  by (auto simp: p_item_def wf_item_def split: sum.splits)
    (blast intro: p_bare_item_wf p_parameters_wf)+

lemma p_inner_items_wf: "p_inner_items b64 s = Inr (items, r) \<Longrightarrow> list_all wf_item items"
proof (induction b64 s arbitrary: items rule: p_inner_items.induct)
  case (1 b64 s)
  show ?case
  proof (cases "peek (skip_sp s) = Some (CHR '')'')")
    case True
    with "1.prems" show ?thesis by (subst (asm) p_inner_items.simps) (simp add: Let_def)
  next
    case False
    with "1.prems" obtain item items' r' where
      p: "p_item b64 (skip_sp s) = Inr (item, r')" "p_inner_items b64 r' = Inr (items', r)"
        "items = item # items'" and ne: "skip_sp s \<noteq> []"
      by (subst (asm) p_inner_items.simps) (auto simp: Let_def split: if_splits sum.splits)
    from "1.IH" [OF refl False ne p(1) refl p(2)] p_item_wf [OF p(1)] p(3) show ?thesis by simp
  qed
qed

lemma p_inner_list_wf: "p_inner_list b64 s = Inr (l, r) \<Longrightarrow> wf_inner_list l"
  by (auto simp: p_inner_list_def wf_inner_list_def split: if_splits sum.splits)
    (blast intro: p_inner_items_wf p_parameters_wf)+

lemma p_list_member_wf: "p_list_member b64 s = Inr (m, r) \<Longrightarrow> wf_member m"
  by (auto simp: p_list_member_def intro: p_inner_list_wf p_item_wf split: if_splits sum.splits)

lemma p_member_value_wf: "p_member_value b64 s = Inr (m, r) \<Longrightarrow> wf_member m"
  by (auto simp: p_member_value_def intro: p_inner_list_wf p_item_wf split: if_splits sum.splits)

lemma p_dict_member_wf: "p_dict_member b64 s = Inr ((k, m), r) \<Longrightarrow> wf_key k \<and> wf_member m"
  by (auto simp: p_dict_member_def wf_item_def split: if_splits sum.splits)
    (blast intro: p_key_wf p_member_value_wf p_parameters_wf)+

lemma p_list_loop_wf: "p_list_loop b64 s = Inr (ms, r) \<Longrightarrow> list_all wf_member ms"
proof (induction b64 s arbitrary: ms rule: p_list_loop.induct)
  case (1 b64 s)
  show ?case
  proof (cases "peek (skip_ows s) = Some (CHR '','')")
    case True
    with "1.prems" obtain m ms' r' where
      p: "p_list_member b64 (skip_ows (tl (skip_ows s))) = Inr (m, r')" "p_list_loop b64 r' = Inr (ms', r)"
        "ms = m # ms'" and ne: "skip_ows (tl (skip_ows s)) \<noteq> []"
      by (subst (asm) p_list_loop.simps) (auto simp: Let_def split: if_splits sum.splits)
    from "1.IH" [OF refl _ refl ne p(1) refl p(2)] True p_list_member_wf [OF p(1)] p(3)
    show ?thesis by simp
  next
    case False
    with "1.prems" show ?thesis by (subst (asm) p_list_loop.simps) (simp add: Let_def)
  qed
qed

lemma p_dict_loop_wf: "p_dict_loop b64 s = Inr (d, r) \<Longrightarrow> wf_dictionary d"
proof (induction b64 s arbitrary: d rule: p_dict_loop.induct)
  case (1 b64 s)
  show ?case
  proof (cases "peek (skip_ows s) = Some (CHR '','')")
    case True
    with "1.prems" obtain k m d' r' where
      p: "p_dict_member b64 (skip_ows (tl (skip_ows s))) = Inr ((k, m), r')" "p_dict_loop b64 r' = Inr (d', r)"
        "d = (k, m) # d'" and ne: "skip_ows (tl (skip_ows s)) \<noteq> []"
      by (subst (asm) p_dict_loop.simps) (auto simp: Let_def split: if_splits sum.splits)
    from "1.IH" [OF refl _ refl ne p(1) refl p(2)] True p_dict_member_wf [OF p(1)] p(3)
    show ?thesis by (simp add: wf_dictionary_def)
  next
    case False
    with "1.prems" show ?thesis
      by (subst (asm) p_dict_loop.simps) (simp add: Let_def wf_dictionary_def)
  qed
qed

lemma parse_dictionary_wf:
  assumes "parse_dictionary b64 s = Inr d"
  shows "wf_dictionary d"
proof -
  from assms obtain r where "p_dictionary b64 s = Inr (d, r)"
    by (auto simp: parse_dictionary_def parse_all_def split: if_splits sum.splits)
  then show ?thesis
    using p_dict_member_wf p_dict_loop_wf
    by (fastforce simp: p_dictionary_def Let_def wf_dictionary_def split: if_splits sum.splits)
qed

lemma parse_list_wf:
  assumes "parse_list b64 s = Inr ms"
  shows "list_all wf_member ms"
proof -
  from assms obtain r where "p_list b64 s = Inr (ms, r)"
    by (auto simp: parse_list_def parse_all_def split: if_splits sum.splits)
  then show ?thesis
    by (auto simp: p_list_def Let_def split: if_splits sum.splits)
      (blast intro: p_list_member_wf p_list_loop_wf)+
qed


section \<open>A codec\<close>

text \<open>A codec that meets the assumptions, two letters per byte.\<close>

definition hex_encode :: "bytes \<Rightarrow> string" where
  "hex_encode bs = concat (map (\<lambda>b. [char_of (65 + unat b div 16), char_of (65 + unat b mod 16)]) bs)"

fun hex_decode :: "string \<Rightarrow> bytes option" where
  "hex_decode [] = Some []"
| "hex_decode [c] = None"
| "hex_decode (c # d # s) =
     map_option (Cons (of_nat ((code c - 65) * 16 + (code d - 65)))) (hex_decode s)"

definition hex_codec :: base64 where
  "hex_codec = \<lparr>b64_encode = hex_encode, b64_decode = hex_decode\<rparr>"

lemma hex_codec_ok: "base64_ok hex_codec"
proof -
  have nibble: "unat b div 16 < 16" for b :: u8
  proof -
    have "unat b < 256" using unsigned_less [of b, where 'a = nat] by simp
    then show ?thesis by (simp add: less_mult_imp_div_less)
  qed
  have "hex_decode (hex_encode bs) = Some bs" for bs
  proof (induction bs)
    case (Cons b bs)
    have "code (char_of (65 + unat b div 16)) = 65 + unat b div 16"
      "code (char_of (65 + unat b mod 16)) = 65 + unat b mod 16"
      using nibble [of b] by (simp_all add: code_def)
    then show ?case using Cons by (simp add: hex_encode_def)
  qed (simp add: hex_encode_def)
  moreover have "CHR '':'' \<notin> set (hex_encode bs)" for bs
  proof
    assume "CHR '':'' \<in> set (hex_encode bs)"
    then obtain b :: u8 where "CHR '':'' = char_of (65 + unat b div 16)
        \<or> CHR '':'' = char_of (65 + unat b mod 16)"
      by (auto simp: hex_encode_def)
    moreover have "unat b mod 16 < 16" by simp
    ultimately obtain n where "n < 16" "CHR '':'' = char_of (65 + n :: nat)"
      using nibble [of b] by blast
    moreover from this have "(of_char (char_of (65 + n :: nat)) :: nat) = 65 + n" by simp
    ultimately have "(of_char CHR '':'' :: nat) = 65 + n" by simp
    then show False by simp
  qed
  ultimately show ?thesis by (simp add: base64_ok_def hex_codec_def)
qed

section \<open>Properties\<close>

text \<open>
  C31: dictionary round trip. Every well-formed dictionary whose text fits the 8 KiB limit is
  read back from it unchanged, with its order, its parameters and its duplicate keys.
\<close>

theorem dictionary_roundtrip:
  assumes "base64_ok b64" and "wf_dictionary d" and "length (serialize_dictionary b64 d) \<le> 8192"
  shows "parse_dictionary b64 (serialize_dictionary b64 d) = Inr d"
  using p_dictionary_serialize [OF assms(1,2)] assms(3)
  by (simp add: parse_dictionary_def parse_all_def MAX_SFV_INPUT_LEN_def skip_sp_def)

definition demo_dictionary :: sfv_dictionary where
  "demo_dictionary =
     [(''sig1'', InnerList \<lparr>il_items = [\<lparr>item_value = String ''@method'', item_params = []\<rparr>],
                          il_params = [(''created'', Some (Integer (-5))), (''x'', None)]\<rparr>),
      (''b'', Item \<lparr>item_value = Decimal True 1250, item_params = []\<rparr>),
      (''c'', Item \<lparr>item_value = Boolean True, item_params = []\<rparr>),
      (''d'', Item \<lparr>item_value = ByteSequence [1, 255], item_params = []\<rparr>)]"

theorem dictionary_roundtrip_witness:
  "parse_dictionary hex_codec (serialize_dictionary hex_codec demo_dictionary) = Inr demo_dictionary"
proof (rule dictionary_roundtrip [OF hex_codec_ok])
  show "wf_dictionary demo_dictionary" by code_simp
  show "length (serialize_dictionary hex_codec demo_dictionary) \<le> 8192" by code_simp
qed

text \<open>
  list round trip, for top-level lists of items and inner lists.
\<close>

theorem list_roundtrip:
  assumes "base64_ok b64" and "list_all wf_member ms" and "length (serialize_list b64 ms) \<le> 8192"
  shows "parse_list b64 (serialize_list b64 ms) = Inr ms"
  using p_list_serialize [OF assms(1,2)] assms(3)
  by (simp add: parse_list_def parse_all_def MAX_SFV_INPUT_LEN_def skip_sp_def)

theorem list_roundtrip_witness:
  "parse_list hex_codec (serialize_list hex_codec (map snd demo_dictionary)) = Inr (map snd demo_dictionary)"
proof (rule list_roundtrip [OF hex_codec_ok])
  show "list_all wf_member (map snd demo_dictionary)" by code_simp
  show "length (serialize_list hex_codec (map snd demo_dictionary)) \<le> 8192" by code_simp
qed



text \<open>
  two leniencies against RFC 8941. A dictionary keeps both members of a duplicate key and
  a lookup finds the first, where the RFC lets the last one win; and an inner list may have no
  space between its items, where the RFC fails the parse.
\<close>

theorem sfv_leniencies:
  "parse_dictionary hex_codec ''a=1, a=2''
     = Inr [(''a'', Item \<lparr>item_value = Integer 1, item_params = []\<rparr>),
            (''a'', Item \<lparr>item_value = Integer 2, item_params = []\<rparr>)]
   \<and> dict_get ''a'' [(''a'', Item \<lparr>item_value = Integer 1, item_params = []\<rparr>),
                     (''a'', Item \<lparr>item_value = Integer 2, item_params = []\<rparr>)]
       = Some (Item \<lparr>item_value = Integer 1, item_params = []\<rparr>)
   \<and> parse_inner_list hex_codec ''(?1?0)''
      = Inr \<lparr>il_items = [\<lparr>item_value = Boolean True, item_params = []\<rparr>,
                         \<lparr>item_value = Boolean False, item_params = []\<rparr>], il_params = []\<rparr>"
  by code_simp

end
