(* ===== verification/Httpsig_Component.thy ===== *)
theory Httpsig_Component
  imports Sfv_Roundtrip "HOL-Library.Char_ord" "HOL-Library.List_Lexorder" "HOL-Library.Product_Lexorder"
begin

text \<open>
  Component identifiers of RFC 9421 and the values they resolve to
  (\<open>vouch-httpsig/src/component.rs\<close>). A request or response of the \<open>http\<close> crate is a record
  of what its accessors return; a header map is the values under each lower-case name, in
  order. The reading of a header value as text is an argument.
\<close>

section \<open>Messages\<close>

type_synonym headers = "string \<Rightarrow> string list"

record http_request =
  rq_method :: string
  rq_scheme :: "string option"
  rq_host :: "string option"
  rq_port :: "nat option"
  rq_path :: string
  rq_query :: "string option"
  rq_headers :: headers

record http_response =
  rp_status :: nat
  rp_headers :: headers

definition get_all :: "headers \<Rightarrow> string \<Rightarrow> string list" where
  "get_all h name = h name"

definition header_get :: "headers \<Rightarrow> string \<Rightarrow> string option" where
  "header_get h name = (case h name of [] \<Rightarrow> None | v # _ \<Rightarrow> Some v)"

definition header_contains_key :: "headers \<Rightarrow> string \<Rightarrow> bool" where
  "header_contains_key h name \<longleftrightarrow> h name \<noteq> []"

text \<open>The crates: \<open>HeaderValue::to_str\<close> and \<open>from_str\<close> on the bytes of a value, and base64.\<close>

record http_crate =
  hc_to_str :: "string \<Rightarrow> string option"
  hc_from_str :: "string \<Rightarrow> string option"
  hc_b64 :: base64

section \<open>Identifiers\<close>

datatype derived_component =
    DMethod
  | DTargetUri
  | DAuthority
  | DScheme
  | DRequestTarget
  | DPath
  | DQuery
  | DQueryParam
  | DStatus

datatype component_param = Sf | Key string | Name string | Bs | Req | Tr

fun key_name :: "component_param \<Rightarrow> string" where
  "key_name Sf = ''sf''"
| "key_name (Key _) = ''key''"
| "key_name (Name _) = ''name''"
| "key_name Bs = ''bs''"
| "key_name Req = ''req''"
| "key_name Tr = ''tr''"

text \<open>
  The derived order: by variant in the order of declaration, then by the string, bytewise.
\<close>

fun param_rank :: "component_param \<Rightarrow> nat \<times> string" where
  "param_rank Sf = (0, [])"
| "param_rank (Key s) = (1, s)"
| "param_rank (Name s) = (2, s)"
| "param_rank Bs = (3, [])"
| "param_rank Req = (4, [])"
| "param_rank Tr = (5, [])"

lemma param_rank_inj: "param_rank p = param_rank q \<Longrightarrow> p = q"
  by (cases p; cases q) auto

instantiation component_param :: linorder
begin

definition less_eq_component_param :: "component_param \<Rightarrow> component_param \<Rightarrow> bool" where
  "less_eq_component_param p q \<longleftrightarrow> param_rank p \<le> param_rank q"

definition less_component_param :: "component_param \<Rightarrow> component_param \<Rightarrow> bool" where
  "less_component_param p q \<longleftrightarrow> param_rank p < param_rank q"

instance
  by standard (auto simp: less_eq_component_param_def less_component_param_def dest: param_rank_inj)

end

type_synonym component_params = "component_param list"

definition params_sf :: "component_params \<Rightarrow> bool" where "params_sf ps = list_ex ((=) Sf) ps"
definition params_bs :: "component_params \<Rightarrow> bool" where "params_bs ps = list_ex ((=) Bs) ps"
definition params_req :: "component_params \<Rightarrow> bool" where "params_req ps = list_ex ((=) Req) ps"
definition params_tr :: "component_params \<Rightarrow> bool" where "params_tr ps = list_ex ((=) Tr) ps"

fun params_key :: "component_params \<Rightarrow> string option" where
  "params_key [] = None"
| "params_key (Key k # ps) = Some k"
| "params_key (_ # ps) = params_key ps"

fun params_name :: "component_params \<Rightarrow> string option" where
  "params_name [] = None"
| "params_name (Name n # ps) = Some n"
| "params_name (_ # ps) = params_name ps"

datatype component_identifier =
    Field string component_params
  | Derived derived_component component_params

fun derived_name :: "derived_component \<Rightarrow> string" where
  "derived_name DMethod = ''@method''"
| "derived_name DTargetUri = ''@target-uri''"
| "derived_name DAuthority = ''@authority''"
| "derived_name DScheme = ''@scheme''"
| "derived_name DRequestTarget = ''@request-target''"
| "derived_name DPath = ''@path''"
| "derived_name DQuery = ''@query''"
| "derived_name DQueryParam = ''@query-param''"
| "derived_name DStatus = ''@status''"

fun component_name :: "component_identifier \<Rightarrow> string" where
  "component_name (Field name ps) = name"
| "component_name (Derived d ps) = derived_name d"

definition covers :: "component_identifier \<Rightarrow> component_identifier \<Rightarrow> bool" where
  "covers c required \<longleftrightarrow> component_name c = component_name required"

definition component_field :: "string \<Rightarrow> component_identifier" where
  "component_field name = Field (to_ascii_lowercase name) []"

text \<open>The other constructors: a derived component without parameters, and a query parameter.\<close>

definition component_derived :: "derived_component \<Rightarrow> component_identifier" where
  "component_derived d = Derived d []"

definition component_query_param :: "string \<Rightarrow> component_identifier" where
  "component_query_param name = Derived DQueryParam [Name name]"

fun param_value :: "component_param \<Rightarrow> sfv_bare_item option" where
  "param_value (Key v) = Some (String v)"
| "param_value (Name v) = Some (String v)"
| "param_value _ = None"

definition to_sfv_item :: "component_identifier \<Rightarrow> sfv_item" where
  "to_sfv_item c =
     (case c of
        Field name ps \<Rightarrow>
          \<lparr>item_value = String name,
           item_params = fold (\<lambda>p acc. params_insert (key_name p) (param_value p) acc) ps []\<rparr>
      | Derived d ps \<Rightarrow>
          \<lparr>item_value = String (derived_name d),
           item_params = fold (\<lambda>p acc. params_insert (key_name p) (param_value p) acc) ps []\<rparr>)"

definition parse_derived_name :: "string \<Rightarrow> httpsig_error + derived_component" where
  "parse_derived_name name =
     (if name = ''method'' then Inr DMethod
      else if name = ''target-uri'' then Inr DTargetUri
      else if name = ''authority'' then Inr DAuthority
      else if name = ''scheme'' then Inr DScheme
      else if name = ''request-target'' then Inr DRequestTarget
      else if name = ''path'' then Inr DPath
      else if name = ''query'' then Inr DQuery
      else if name = ''query-param'' then Inr DQueryParam
      else if name = ''status'' then Inr DStatus
      else Inl (InvalidComponent ''unknown derived component''))"

datatype param_context = CtxField | CtxQueryParam | CtxDerived

fun context_allows :: "param_context \<Rightarrow> component_param \<Rightarrow> bool" where
  "context_allows ctx (Name _) = (ctx = CtxQueryParam)"
| "context_allows ctx Req = True"
| "context_allows ctx _ = (ctx = CtxField)"

definition expect_flag :: "sfv_bare_item option \<Rightarrow> httpsig_error + unit" where
  "expect_flag v =
     (if v = None \<or> v = Some (Boolean True) then Inr ()
      else Inl (InvalidComponent ''component parameter is a Boolean flag and takes no value''))"

definition expect_string :: "sfv_bare_item option \<Rightarrow> httpsig_error + string" where
  "expect_string v =
     (case v of
        Some (String s) \<Rightarrow> Inr s
      | _ \<Rightarrow> Inl (InvalidComponent ''component parameter must be a string''))"

definition parse_one_param :: "string \<Rightarrow> sfv_bare_item option \<Rightarrow> httpsig_error + component_param" where
  "parse_one_param key v =
     (if key = ''sf'' then (case expect_flag v of Inl e \<Rightarrow> Inl e | Inr _ \<Rightarrow> Inr Sf)
      else if key = ''bs'' then (case expect_flag v of Inl e \<Rightarrow> Inl e | Inr _ \<Rightarrow> Inr Bs)
      else if key = ''req'' then (case expect_flag v of Inl e \<Rightarrow> Inl e | Inr _ \<Rightarrow> Inr Req)
      else if key = ''tr'' then (case expect_flag v of Inl e \<Rightarrow> Inl e | Inr _ \<Rightarrow> Inr Tr)
      else if key = ''key'' then (case expect_string v of Inl e \<Rightarrow> Inl e | Inr s \<Rightarrow> Inr (Key s))
      else if key = ''name'' then (case expect_string v of Inl e \<Rightarrow> Inl e | Inr s \<Rightarrow> Inr (Name s))
      else Inl (InvalidComponent ''unknown component parameter''))"

fun parse_params_each :: "param_context \<Rightarrow> sfv_params \<Rightarrow> httpsig_error + component_params" where
  "parse_params_each ctx [] = Inr []"
| "parse_params_each ctx ((key, v) # sfv) =
     (case parse_one_param key v of
        Inl e \<Rightarrow> Inl e
      | Inr p \<Rightarrow>
          if \<not> context_allows ctx p
          then Inl (InvalidComponent ''component parameter does not apply to this component identifier'')
          else (case parse_params_each ctx sfv of
                  Inl e \<Rightarrow> Inl e
                | Inr ps \<Rightarrow> Inr (p # ps)))"

definition parse_component_params :: "sfv_params \<Rightarrow> param_context \<Rightarrow> httpsig_error + component_params" where
  "parse_component_params sfv ctx =
     (case parse_params_each ctx sfv of
        Inl e \<Rightarrow> Inl e
      | Inr ps \<Rightarrow>
          if params_bs ps \<and> (params_sf ps \<or> params_key ps \<noteq> None)
          then Inl (InvalidComponent ''component parameter ;bs is incompatible with ;sf and ;key'')
          else Inr ps)"

definition from_sfv_item :: "sfv_item \<Rightarrow> httpsig_error + component_identifier" where
  "from_sfv_item item =
     (case item_value item of
        String name \<Rightarrow>
          (case strip_prefix ''@'' name of
             None \<Rightarrow>
               (case parse_component_params (item_params item) CtxField of
                  Inl e \<Rightarrow> Inl e
                | Inr ps \<Rightarrow> Inr (Field (to_ascii_lowercase name) ps))
           | Some stripped \<Rightarrow>
               (case parse_derived_name stripped of
                  Inl e \<Rightarrow> Inl e
                | Inr d \<Rightarrow>
                    (case parse_component_params (item_params item)
                            (if d = DQueryParam then CtxQueryParam else CtxDerived) of
                       Inl e \<Rightarrow> Inl e
                     | Inr ps \<Rightarrow>
                         if d = DQueryParam \<and> params_name ps = None
                         then Inl (InvalidComponent ''@query-param requires the ;name parameter'')
                         else Inr (Derived d ps))))
      | _ \<Rightarrow> Inl (InvalidComponent ''component identifier must be a string''))"

definition serialize_id :: "base64 \<Rightarrow> component_identifier \<Rightarrow> string" where
  "serialize_id b64 c = serialize_item b64 (to_sfv_item c)"

definition dedup_key :: "component_identifier \<Rightarrow> string \<times> component_params" where
  "dedup_key c =
     (case c of
        Field name ps \<Rightarrow> (name, sort ps)
      | Derived d ps \<Rightarrow> (derived_name d, sort ps))"

section \<open>Field values\<close>

definition is_ows :: "char \<Rightarrow> bool" where
  "is_ows c \<longleftrightarrow> c = CHR '' '' \<or> c = CHR 0x09"

text \<open>
  \<open>trim_matches([' ', '\t'])\<close> and \<open>trim_ascii_ows\<close>: the part from the first to the last
  character that is not optional white space.
\<close>

definition trim_ascii_ows :: "string \<Rightarrow> string" where
  "trim_ascii_ows s = rev (dropWhile is_ows (rev (dropWhile is_ows s)))"

fun read_values :: "http_crate \<Rightarrow> string list \<Rightarrow> string list option" where
  "read_values hc [] = Some []"
| "read_values hc (v # vs) =
     (case hc_to_str hc v of
        None \<Rightarrow> None
      | Some s \<Rightarrow> map_option (Cons (trim_ascii_ows s)) (read_values hc vs))"

definition resolve_field_raw :: "http_crate \<Rightarrow> headers \<Rightarrow> string \<Rightarrow> httpsig_error + string" where
  "resolve_field_raw hc h lower_name =
     (case read_values hc (get_all h lower_name) of
        None \<Rightarrow> Inl (InvalidComponent ''header has a value outside the visible-ASCII range'')
      | Some [] \<Rightarrow> Inl (MissingComponent ''header not found'')
      | Some vs \<Rightarrow> Inr (separated '', '' vs))"

definition serialize_dict_member_value :: "base64 \<Rightarrow> sfv_member \<Rightarrow> string" where
  "serialize_dict_member_value b64 m =
     (case m of Item i \<Rightarrow> serialize_item b64 i | InnerList l \<Rightarrow> serialize_inner_list b64 l)"

definition resolve_field_sf ::
    "http_crate \<Rightarrow> headers \<Rightarrow> string \<Rightarrow> component_params \<Rightarrow> httpsig_error + string" where
  "resolve_field_sf hc h lower_name ps =
     (case resolve_field_raw hc h lower_name of
        Inl e \<Rightarrow> Inl e
      | Inr raw \<Rightarrow>
          (case params_key ps of
             Some key \<Rightarrow>
               (case parse_dictionary (hc_b64 hc) raw of
                  Inl e \<Rightarrow> Inl (InvalidComponent ''failed to parse as SFV Dictionary'')
                | Inr d \<Rightarrow>
                    (case dict_get key d of
                       None \<Rightarrow> Inl (MissingComponent ''dictionary key not found'')
                     | Some m \<Rightarrow> Inr (serialize_dict_member_value (hc_b64 hc) m)))
           | None \<Rightarrow>
               (case parse_dictionary (hc_b64 hc) raw of
                  Inr d \<Rightarrow> Inr (serialize_dictionary (hc_b64 hc) d)
                | Inl _ \<Rightarrow>
                    (case parse_list (hc_b64 hc) raw of
                       Inr l \<Rightarrow> Inr (serialize_list (hc_b64 hc) l)
                     | Inl _ \<Rightarrow>
                         (case parse_item (hc_b64 hc) raw of
                            Inr i \<Rightarrow> Inr (serialize_item (hc_b64 hc) i)
                          | Inl _ \<Rightarrow> Inl (InvalidComponent ''failed to parse as any SFV type''))))))"

text \<open>The bytes of a value are characters here and words in the codec.\<close>

definition bytes_of :: "string \<Rightarrow> bytes" where
  "bytes_of s = map of_char s"

definition resolve_field_bs :: "http_crate \<Rightarrow> headers \<Rightarrow> string \<Rightarrow> httpsig_error + string" where
  "resolve_field_bs hc h lower_name =
     (let vs = get_all h lower_name
      in if vs = [] then Inl (MissingComponent ''header not found'')
         else Inr (separated '', ''
                (map (\<lambda>v. '':'' @ b64_encode (hc_b64 hc) (bytes_of (trim_ascii_ows v)) @ '':'') vs)))"

definition resolve_field ::
    "http_crate \<Rightarrow> headers \<Rightarrow> string \<Rightarrow> component_params \<Rightarrow> httpsig_error + string" where
  "resolve_field hc h name ps =
     (if params_bs ps then resolve_field_bs hc h name
      else if params_sf ps \<or> params_key ps \<noteq> None then resolve_field_sf hc h name ps
      else resolve_field_raw hc h name)"

section \<open>Query parameters\<close>

definition hex_val :: "char \<Rightarrow> nat option" where
  "hex_val c =
     (if 48 \<le> code c \<and> code c \<le> 57 then Some (code c - 48)
      else if 97 \<le> code c \<and> code c \<le> 102 then Some (code c - 97 + 10)
      else if 65 \<le> code c \<and> code c \<le> 70 then Some (code c - 65 + 10)
      else None)"

fun form_urlencoded_decode :: "string \<Rightarrow> string" where
  "form_urlencoded_decode [] = []"
| "form_urlencoded_decode (c # s) =
     (case (c = CHR ''%'', s) of
        (True, h # l # s') \<Rightarrow>
          (case (hex_val h, hex_val l) of
             (Some hi, Some lo) \<Rightarrow> char_of (hi * 16 + lo) # form_urlencoded_decode s'
           | _ \<Rightarrow> c # form_urlencoded_decode s)
      | _ \<Rightarrow> (if c = CHR ''+'' then CHR '' '' else c) # form_urlencoded_decode s)"

text \<open>
  \<open>String::from_utf8_lossy\<close>: every maximal part of a byte sequence that starts a character
  and does not complete it, and every byte that starts none, becomes U+FFFD. \<open>utf8_step\<close>
  is the length of the next character, or of the part to replace.
\<close>

definition is_cont :: "nat option \<Rightarrow> nat \<Rightarrow> nat \<Rightarrow> bool" where
  "is_cont b lo hi = (case b of None \<Rightarrow> False | Some n \<Rightarrow> lo \<le> n \<and> n \<le> hi)"

definition byte_at :: "nat list \<Rightarrow> nat \<Rightarrow> nat option" where
  "byte_at bs i = (if i < length bs then Some (bs ! i) else None)"

definition second_range :: "nat \<Rightarrow> nat \<times> nat" where
  "second_range b =
     (if b = 0xE0 then (0xA0, 0xBF) else if b = 0xED then (0x80, 0x9F)
      else if b = 0xF0 then (0x90, 0xBF) else if b = 0xF4 then (0x80, 0x8F) else (0x80, 0xBF))"

definition utf8_step :: "nat \<Rightarrow> nat list \<Rightarrow> bool \<times> nat" where
  "utf8_step b r =
     (let two = is_cont (byte_at r 0) (fst (second_range b)) (snd (second_range b));
          three = is_cont (byte_at r 1) 0x80 0xBF;
          four = is_cont (byte_at r 2) 0x80 0xBF
      in if b < 0x80 then (True, 1)
         else if 0xC2 \<le> b \<and> b \<le> 0xDF then (if two then (True, 2) else (False, 1))
         else if 0xE0 \<le> b \<and> b \<le> 0xEF
         then (if \<not> two then (False, 1) else if \<not> three then (False, 2) else (True, 3))
         else if 0xF0 \<le> b \<and> b \<le> 0xF4
         then (if \<not> two then (False, 1) else if \<not> three then (False, 2)
               else if \<not> four then (False, 3) else (True, 4))
         else (False, 1))"

function from_utf8_lossy :: "nat list \<Rightarrow> nat list" where
  "from_utf8_lossy [] = []"
| "from_utf8_lossy (b # r) =
     (case utf8_step b r of
        (ok, n) \<Rightarrow> (if ok then take n (b # r) else [0xEF, 0xBF, 0xBD])
                   @ from_utf8_lossy (drop (n - 1) r))"
  by pat_completeness auto
termination
  by (relation "measure length") auto

definition hex_digit_upper :: "nat \<Rightarrow> char" where
  "hex_digit_upper n = (if n < 10 then char_of (48 + n) else char_of (55 + n))"

definition percent_encode_byte :: "nat \<Rightarrow> string" where
  "percent_encode_byte b =
     (let c = char_of b
      in if is_ascii_alphabetic c \<or> is_ascii_digit c
            \<or> c \<in> {CHR ''*'', CHR ''-'', CHR ''.'', CHR ''_''}
         then [c]
         else [CHR ''%'', hex_digit_upper (b div 16), hex_digit_upper (b mod 16)])"

definition percent_encode_form :: "nat list \<Rightarrow> string" where
  "percent_encode_form bs = concat (map percent_encode_byte bs)"

definition form_urlencoded_component :: "string \<Rightarrow> string" where
  "form_urlencoded_component raw =
     percent_encode_form (from_utf8_lossy (map code (form_urlencoded_decode raw)))"

fun find_query_param :: "string \<Rightarrow> string list \<Rightarrow> string option \<Rightarrow> httpsig_error + string option" where
  "find_query_param name [] found = Inr found"
| "find_query_param name (pair # pairs) found =
     (if pair = [] then find_query_param name pairs found
      else let (raw_name, raw_value) =
                 (case split_once (CHR ''='') pair of Some nv \<Rightarrow> nv | None \<Rightarrow> (pair, []))
           in if form_urlencoded_component raw_name \<noteq> name then find_query_param name pairs found
              else if found \<noteq> None
              then Inl (InvalidComponent ''query parameter occurs more than once and cannot be covered'')
              else find_query_param name pairs (Some (form_urlencoded_component raw_value)))"

definition resolve_query_param :: "string \<Rightarrow> string \<Rightarrow> httpsig_error + string" where
  "resolve_query_param query name =
     (case find_query_param name (split_on (CHR ''&'') query) None of
        Inl e \<Rightarrow> Inl e
      | Inr None \<Rightarrow> Inl (MissingComponent ''query parameter not found'')
      | Inr (Some v) \<Rightarrow> Inr v)"

section \<open>Derived components\<close>

definition extract_scheme :: "http_request \<Rightarrow> httpsig_error + string" where
  "extract_scheme req =
     (case rq_scheme req of
        None \<Rightarrow> Inl (MissingComponent ''URI has no scheme'')
      | Some s \<Rightarrow> Inr (to_ascii_lowercase s))"

definition strip_suffix_or :: "string \<Rightarrow> string \<Rightarrow> string" where
  "strip_suffix_or suffix s = (case strip_suffix suffix s of Some r \<Rightarrow> r | None \<Rightarrow> s)"

definition extract_authority :: "http_crate \<Rightarrow> http_request \<Rightarrow> httpsig_error + string" where
  "extract_authority hc req =
     (let scheme = (case rq_scheme req of Some s \<Rightarrow> s | None \<Rightarrow> ''https'')
      in case rq_host req of
           Some h \<Rightarrow>
             (let host = to_ascii_lowercase h
              in case rq_port req of
                   None \<Rightarrow> Inr host
                 | Some p \<Rightarrow>
                     if scheme = ''http'' \<and> p = 80 \<or> scheme = ''https'' \<and> p = 443 then Inr host
                     else Inr (host @ '':'' @ show_nat p))
         | None \<Rightarrow>
             (case Option.bind (header_get (rq_headers req) ''host'') (hc_to_str hc) of
                None \<Rightarrow> Inl (MissingComponent ''URI has no authority and no Host header'')
              | Some host_header \<Rightarrow>
                  (let normalized = to_ascii_lowercase (trim host_header)
                   in if scheme = ''https'' then Inr (strip_suffix_or '':443'' normalized)
                      else if scheme = ''http'' then Inr (strip_suffix_or '':80'' normalized)
                      else Inr normalized)))"

definition extract_path :: "http_request \<Rightarrow> string" where
  "extract_path req = (if rq_path req = [] then ''/'' else rq_path req)"

definition resolve_derived_from_request ::
    "http_crate \<Rightarrow> derived_component \<Rightarrow> component_params \<Rightarrow> http_request \<Rightarrow> httpsig_error + string" where
  "resolve_derived_from_request hc d ps req =
     (case d of
        DMethod \<Rightarrow> Inr (rq_method req)
      | DTargetUri \<Rightarrow>
          (case extract_scheme req of
             Inl e \<Rightarrow> Inl e
           | Inr scheme \<Rightarrow>
               (case extract_authority hc req of
                  Inl e \<Rightarrow> Inl e
                | Inr authority \<Rightarrow>
                    Inr (scheme @ ''://'' @ authority @ extract_path req
                         @ (case rq_query req of Some q \<Rightarrow> ''?'' @ q | None \<Rightarrow> []))))
      | DAuthority \<Rightarrow> extract_authority hc req
      | DScheme \<Rightarrow> extract_scheme req
      | DRequestTarget \<Rightarrow>
          Inr (case rq_query req of
                 Some q \<Rightarrow> extract_path req @ ''?'' @ q
               | None \<Rightarrow> extract_path req)
      | DPath \<Rightarrow> Inr (extract_path req)
      | DQuery \<Rightarrow> Inr (case rq_query req of Some q \<Rightarrow> ''?'' @ q | None \<Rightarrow> ''?'')
      | DQueryParam \<Rightarrow>
          (case params_name ps of
             None \<Rightarrow> Inl (InvalidComponent ''@query-param requires the ;name parameter'')
           | Some name \<Rightarrow>
               (case rq_query req of
                  None \<Rightarrow> Inl (MissingComponent ''no query string for @query-param'')
                | Some query \<Rightarrow> resolve_query_param query name))
      | DStatus \<Rightarrow> Inl (InvalidComponent ''@status is only valid for responses''))"

definition resolve_derived_from_response ::
    "derived_component \<Rightarrow> http_response \<Rightarrow> httpsig_error + string" where
  "resolve_derived_from_response d resp =
     (case d of
        DStatus \<Rightarrow> Inr (show_nat (rp_status resp))
      | _ \<Rightarrow> Inl (InvalidComponent ''only valid for requests''))"

definition reject_req_on_request :: "component_params \<Rightarrow> httpsig_error + unit" where
  "reject_req_on_request ps =
     (if params_req ps
      then Inl (InvalidComponent ''the ;req parameter is not allowed when the target message is a request'')
      else Inr ())"

definition reject_trailers :: "component_params \<Rightarrow> httpsig_error + unit" where
  "reject_trailers ps =
     (if params_tr ps then Inl (InvalidComponent ''trailer fields (;tr) are not supported'') else Inr ())"

definition resolve_from_request ::
    "http_crate \<Rightarrow> http_request \<Rightarrow> component_identifier \<Rightarrow> httpsig_error + string" where
  "resolve_from_request hc req c =
     (case c of
        Field name ps \<Rightarrow>
          (case reject_req_on_request ps of
             Inl e \<Rightarrow> Inl e
           | Inr _ \<Rightarrow>
               (case reject_trailers ps of
                  Inl e \<Rightarrow> Inl e
                | Inr _ \<Rightarrow> resolve_field hc (rq_headers req) name ps))
      | Derived d ps \<Rightarrow>
          (case reject_req_on_request ps of
             Inl e \<Rightarrow> Inl e
           | Inr _ \<Rightarrow> resolve_derived_from_request hc d ps req))"

definition resolve_from_response ::
    "http_crate \<Rightarrow> http_response \<Rightarrow> http_request option \<Rightarrow> component_identifier
       \<Rightarrow> httpsig_error + string" where
  "resolve_from_response hc resp req c =
     (case c of
        Field name ps \<Rightarrow>
          (case reject_trailers ps of
             Inl e \<Rightarrow> Inl e
           | Inr _ \<Rightarrow>
               if params_req ps
               then (case req of
                       None \<Rightarrow> Inl (MissingComponent ''req flag set but no request provided'')
                     | Some request \<Rightarrow> resolve_field hc (rq_headers request) name ps)
               else resolve_field hc (rp_headers resp) name ps)
      | Derived d ps \<Rightarrow>
          if params_req ps
          then (case req of
                  None \<Rightarrow> Inl (MissingComponent ''req flag set but no request provided'')
                | Some request \<Rightarrow> resolve_derived_from_request hc d ps request)
          else resolve_derived_from_response d resp)"

end
