(* ===== verification/Httpsig_Identifier.thy ===== *)
theory Httpsig_Identifier
  imports Httpsig_Component
begin

text \<open>
  Correctness of component identifiers: reading and printing them, the equality under which
  duplicates are rejected, and the canonical form of query parameters.
\<close>

section \<open>Identifier round trip\<close>

definition wf_id_params :: "param_context \<Rightarrow> component_params \<Rightarrow> bool" where
  "wf_id_params ctx ps \<longleftrightarrow>
     distinct (map key_name ps) \<and> list_all (context_allows ctx) ps
     \<and> \<not> (params_bs ps \<and> (params_sf ps \<or> params_key ps \<noteq> None))"

definition derived_context :: "derived_component \<Rightarrow> param_context" where
  "derived_context d = (if d = DQueryParam then CtxQueryParam else CtxDerived)"

fun wf_component :: "component_identifier \<Rightarrow> bool" where
  "wf_component (Field name ps) =
     (strip_prefix ''@'' name = None \<and> to_ascii_lowercase name = name \<and> wf_id_params CtxField ps)"
| "wf_component (Derived d ps) =
     (wf_id_params (derived_context d) ps \<and> (d = DQueryParam \<longrightarrow> params_name ps \<noteq> None))"

fun component_params_of :: "component_identifier \<Rightarrow> component_params" where
  "component_params_of (Field name ps) = ps"
| "component_params_of (Derived d ps) = ps"

lemma ascii_lower_idem [simp]: "ascii_lower (ascii_lower c) = ascii_lower c"
proof (cases "65 \<le> (of_char c :: nat) \<and> (of_char c :: nat) \<le> 90")
  case True
  then have "(of_char (ascii_lower c) :: nat) = of_char c + 32" by (simp add: ascii_lower_def)
  with True show ?thesis by (subst ascii_lower_def) simp
qed (auto simp: ascii_lower_def)

lemma lowercase_idem [simp]: "to_ascii_lowercase (to_ascii_lowercase s) = to_ascii_lowercase s"
  by (simp add: to_ascii_lowercase_def)

lemma lowercase_at: "ascii_lower c = CHR ''@'' \<longleftrightarrow> c = CHR ''@''"
proof
  assume *: "ascii_lower c = CHR ''@''"
  show "c = CHR ''@''"
  proof (cases "65 \<le> (of_char c :: nat) \<and> (of_char c :: nat) \<le> 90")
    case True
    then have "(of_char (ascii_lower c) :: nat) = of_char c + 32" by (simp add: ascii_lower_def)
    with * True show ?thesis by simp
  qed (use * in \<open>auto simp: ascii_lower_def\<close>)
qed (simp add: ascii_lower_def)

lemma strip_at_lowercase:
  "strip_prefix ''@'' (to_ascii_lowercase s) = None \<longleftrightarrow> strip_prefix ''@'' s = None"
  by (cases s) (simp_all add: strip_prefix_def to_ascii_lowercase_def lowercase_at)

definition sfv_of_params :: "component_params \<Rightarrow> sfv_params" where
  "sfv_of_params ps = map (\<lambda>p. (key_name p, param_value p)) ps"

lemma fold_params_insert:
  assumes "distinct (map key_name ps)" and "fst ` set acc \<inter> key_name ` set ps = {}"
  shows "fold (\<lambda>p acc. params_insert (key_name p) (param_value p) acc) ps acc = acc @ sfv_of_params ps"
  using assms
proof (induction ps arbitrary: acc)
  case (Cons p ps)
  then have "params_insert (key_name p) (param_value p) acc = acc @ [(key_name p, param_value p)]"
    by (intro params_insert_new) auto
  with Cons show ?case by (auto simp: sfv_of_params_def)
qed (simp add: sfv_of_params_def)

lemma parse_one_param_print: "parse_one_param (key_name p) (param_value p) = Inr p"
  by (cases p) (simp_all add: parse_one_param_def expect_flag_def expect_string_def)

lemma parse_params_each_print:
  "list_all (context_allows ctx) ps \<Longrightarrow> parse_params_each ctx (sfv_of_params ps) = Inr ps"
  by (induction ps) (simp_all add: sfv_of_params_def parse_one_param_print)

lemma parse_component_params_print:
  "wf_id_params ctx ps \<Longrightarrow>
     parse_component_params (fold (\<lambda>p acc. params_insert (key_name p) (param_value p) acc) ps []) ctx = Inr ps"
  by (simp add: wf_id_params_def fold_params_insert parse_component_params_def parse_params_each_print)

lemma parse_derived_name_print:
  "strip_prefix ''@'' (derived_name d) = Some (tl (derived_name d))
   \<and> parse_derived_name (tl (derived_name d)) = Inr d"
  by (cases d) (simp_all add: parse_derived_name_def strip_prefix_def)

lemma from_to_sfv_item: "wf_component c \<Longrightarrow> from_sfv_item (to_sfv_item c) = Inr c"
proof (cases c)
  case (Field name ps)
  then show "wf_component c \<Longrightarrow> ?thesis"
    by (simp add: from_sfv_item_def to_sfv_item_def parse_component_params_print)
next
  case (Derived d ps)
  then show "wf_component c \<Longrightarrow> ?thesis"
    using parse_derived_name_print [of d]
    by (auto simp: from_sfv_item_def to_sfv_item_def parse_component_params_print derived_context_def)
qed

lemma parse_one_param_key: "parse_one_param key v = Inr p \<Longrightarrow> key_name p = key"
  by (auto simp: parse_one_param_def split: if_splits sum.splits)

lemma parse_params_each_keys:
  "parse_params_each ctx sfv = Inr ps
     \<Longrightarrow> map key_name ps = map fst sfv \<and> list_all (context_allows ctx) ps"
  by (induction ctx sfv arbitrary: ps rule: parse_params_each.induct)
    (auto split: sum.splits if_splits dest: parse_one_param_key)

lemma parse_component_params_wf:
  "parse_component_params sfv ctx = Inr ps \<Longrightarrow> distinct (map fst sfv) \<Longrightarrow> wf_id_params ctx ps"
  by (auto simp: parse_component_params_def wf_id_params_def split: sum.splits if_splits
      dest: parse_params_each_keys)

lemma from_sfv_item_wf:
  assumes "from_sfv_item i = Inr c" and "wf_item i"
  shows "wf_component c"
proof -
  have d: "distinct (map fst (item_params i))" using assms(2) by (simp add: wf_item_def wf_params_def)
  from assms(1) show ?thesis
    by (auto simp: from_sfv_item_def derived_context_def strip_at_lowercase
        split: sfv_bare_item.splits option.splits sum.splits if_splits
        intro: parse_component_params_wf [OF _ d])
qed
section \<open>Equivalent identifiers\<close>

lemma dedup_key_eq_iff:
  "dedup_key c = dedup_key d \<longleftrightarrow>
     component_name c = component_name d
     \<and> mset (component_params_of c) = mset (component_params_of d)"
proof -
  have s: "sort xs = sort ys \<longleftrightarrow> mset xs = mset ys" for xs ys :: component_params
    using properties_for_sort [of "sort xs" ys] by (auto dest: arg_cong [of _ _ mset])
  show ?thesis by (cases c; cases d) (auto simp: dedup_key_def s)
qed

lemma option_ext: "(\<And>k. x = Some k \<longleftrightarrow> y = Some k) \<Longrightarrow> x = y"
  by (cases x; cases y) auto

lemma params_key_Some: "params_key ps = Some k \<Longrightarrow> Key k \<in> set ps"
  by (induction ps rule: params_key.induct) auto

lemma params_key_None: "params_key ps = None \<longleftrightarrow> (\<forall>k. Key k \<notin> set ps)"
  by (induction ps rule: params_key.induct) auto

lemma params_name_Some: "params_name ps = Some k \<Longrightarrow> Name k \<in> set ps"
  by (induction ps rule: params_name.induct) auto

lemma params_name_None: "params_name ps = None \<longleftrightarrow> (\<forall>k. Name k \<notin> set ps)"
  by (induction ps rule: params_name.induct) auto

lemma distinct_keys_unique:
  assumes "distinct (map key_name ps)" and "p \<in> set ps" and "q \<in> set ps" and "key_name p = key_name q"
  shows "p = q"
  using assms by (simp add: distinct_map inj_on_def)

lemma params_key_set:
  assumes "distinct (map key_name ps)"
  shows "params_key ps = Some k \<longleftrightarrow> Key k \<in> set ps"
proof
  assume k: "Key k \<in> set ps"
  then obtain j where j: "params_key ps = Some j" using params_key_None by (cases "params_key ps") auto
  then have "Key j \<in> set ps" by (rule params_key_Some)
  with k assms have "Key j = Key k" by (intro distinct_keys_unique [of ps]) auto
  with j show "params_key ps = Some k" by simp
qed (rule params_key_Some)

lemma params_name_set:
  assumes "distinct (map key_name ps)"
  shows "params_name ps = Some k \<longleftrightarrow> Name k \<in> set ps"
proof
  assume k: "Name k \<in> set ps"
  then obtain j where j: "params_name ps = Some j" using params_name_None by (cases "params_name ps") auto
  then have "Name j \<in> set ps" by (rule params_name_Some)
  with k assms have "Name j = Name k" by (intro distinct_keys_unique [of ps]) auto
  with j show "params_name ps = Some k" by simp
qed (rule params_name_Some)

text \<open>What resolution reads of the parameters.\<close>

lemma params_reads:
  assumes "distinct (map key_name ps)" and "distinct (map key_name qs)" and "mset ps = mset qs"
  shows "params_sf ps = params_sf qs" "params_bs ps = params_bs qs" "params_req ps = params_req qs"
    "params_tr ps = params_tr qs" "params_key ps = params_key qs" "params_name ps = params_name qs"
proof -
  have s: "set ps = set qs" using assms(3) by (metis set_mset_mset)
  then show "params_sf ps = params_sf qs" "params_bs ps = params_bs qs" "params_req ps = params_req qs"
    "params_tr ps = params_tr qs"
    by (simp_all add: params_sf_def params_bs_def params_req_def params_tr_def list_ex_iff)
  show "params_key ps = params_key qs"
    by (rule option_ext) (simp add: params_key_set [OF assms(1)] params_key_set [OF assms(2)] s)
  show "params_name ps = params_name qs"
    by (rule option_ext) (simp add: params_name_set [OF assms(1)] params_name_set [OF assms(2)] s)
qed

lemma derived_name_at: "strip_prefix ''@'' (derived_name d) = Some (tl (derived_name d))"
  using parse_derived_name_print [of d] by simp

lemma derived_name_inj: "derived_name d = derived_name e \<longleftrightarrow> d = e"
  by (metis parse_derived_name_print sum.inject(2))

lemma equivalent_same_kind:
  assumes "wf_component c" and "wf_component d" and "dedup_key c = dedup_key d"
  shows "(\<exists>name ps qs. c = Field name ps \<and> d = Field name qs \<and> mset ps = mset qs
            \<and> distinct (map key_name ps) \<and> distinct (map key_name qs))
       \<or> (\<exists>e ps qs. c = Derived e ps \<and> d = Derived e qs \<and> mset ps = mset qs
            \<and> distinct (map key_name ps) \<and> distinct (map key_name qs))"
  using assms
  by (cases c; cases d)
    (auto simp: dedup_key_eq_iff wf_id_params_def derived_name_at derived_name_inj)

lemma resolve_field_reads:
  assumes "params_sf ps = params_sf qs" "params_bs ps = params_bs qs" "params_key ps = params_key qs"
  shows "resolve_field hc h name ps = resolve_field hc h name qs"
  unfolding resolve_field_def resolve_field_sf_def assms ..

lemma resolve_derived_reads:
  assumes "params_name ps = params_name qs"
  shows "resolve_derived_from_request hc d ps req = resolve_derived_from_request hc d qs req"
  unfolding resolve_derived_from_request_def assms ..

text \<open>
  the key under which duplicates are rejected is the equality of RFC 9421: two identifiers
  share it exactly if they have the same name and, in any order, the same parameters; and two
  well-formed identifiers that share it resolve to the same value on every request and every
  response.
\<close>

theorem dedup_key_equivalence:
  "(dedup_key c = dedup_key d \<longleftrightarrow>
      component_name c = component_name d
      \<and> mset (component_params_of c) = mset (component_params_of d))
   \<and> (wf_component c \<and> wf_component d \<and> dedup_key c = dedup_key d \<longrightarrow>
        resolve_from_request hc req c = resolve_from_request hc req d
        \<and> resolve_from_response hc resp oreq c = resolve_from_response hc resp oreq d)"
proof -
  have "resolve_from_request hc req c = resolve_from_request hc req d
        \<and> resolve_from_response hc resp oreq c = resolve_from_response hc resp oreq d"
    if wf: "wf_component c" "wf_component d" and eq: "dedup_key c = dedup_key d"
    using equivalent_same_kind [OF wf eq]
  proof (elim disjE exE conjE)
    fix name ps qs
    assume *: "c = Field name ps" "d = Field name qs" "mset ps = mset qs"
      "distinct (map key_name ps)" "distinct (map key_name qs)"
    note r = params_reads [OF *(4,5,3)]
    show ?thesis
      using resolve_field_reads [OF r(1,2,5)] r(3,4) *(1,2)
      by (cases oreq) (simp_all add: resolve_from_request_def resolve_from_response_def
          reject_req_on_request_def reject_trailers_def)
  next
    fix e ps qs
    assume *: "c = Derived e ps" "d = Derived e qs" "mset ps = mset qs"
      "distinct (map key_name ps)" "distinct (map key_name qs)"
    note r = params_reads [OF *(4,5,3)]
    show ?thesis
      using resolve_derived_reads [OF r(6)] r(3) *(1,2)
      by (cases oreq) (simp_all add: resolve_from_request_def resolve_from_response_def
          reject_req_on_request_def)
  qed
  with dedup_key_eq_iff show ?thesis by blast
qed
theorem dedup_key_equivalence_witness:
  "dedup_key (Field ''x'' [Key ''a'', Req]) = dedup_key (Field ''x'' [Req, Key ''a''])
   \<and> resolve_from_response \<lparr>hc_to_str = Some, hc_from_str = Some, hc_b64 = hex_codec\<rparr>
       \<lparr>rp_status = 200, rp_headers = (\<lambda>_. [])\<rparr> None (Field ''x'' [Key ''a'', Req])
     = resolve_from_response \<lparr>hc_to_str = Some, hc_from_str = Some, hc_b64 = hex_codec\<rparr>
       \<lparr>rp_status = 200, rp_headers = (\<lambda>_. [])\<rparr> None (Field ''x'' [Req, Key ''a''])"
proof -
  have "wf_component (Field ''x'' [Key ''a'', Req])" "wf_component (Field ''x'' [Req, Key ''a''])"
    "dedup_key (Field ''x'' [Key ''a'', Req]) = dedup_key (Field ''x'' [Req, Key ''a''])"
    by code_simp+
  with dedup_key_equivalence [of "Field ''x'' [Key ''a'', Req]" "Field ''x'' [Req, Key ''a'']"]
  show ?thesis by blast
qed

text \<open>
  identifiers round trip. An identifier that is read from a well-formed item is
  well-formed, and printing it and reading it again gives it back: a field name is lower case
  and never that of a derived component, and its parameters apply to it.
\<close>

theorem identifier_roundtrip:
  assumes "from_sfv_item i = Inr c" and "wf_item i"
  shows "wf_component c \<and> from_sfv_item (to_sfv_item c) = Inr c"
  using from_sfv_item_wf [OF assms] from_to_sfv_item by blast

theorem identifier_roundtrip_witness:
  "from_sfv_item \<lparr>item_value = String ''Content-Digest'',
       item_params = [(''key'', Some (String ''sha-256'')), (''req'', Some (Boolean True))]\<rparr>
     = Inr (Field ''content-digest'' [Key ''sha-256'', Req])
   \<and> from_sfv_item (to_sfv_item (Field ''content-digest'' [Key ''sha-256'', Req]))
     = Inr (Field ''content-digest'' [Key ''sha-256'', Req])"
proof -
  let ?i = "\<lparr>item_value = String ''Content-Digest'',
       item_params = [(''key'', Some (String ''sha-256'')), (''req'', Some (Boolean True))]\<rparr>"
  have p: "from_sfv_item ?i = Inr (Field ''content-digest'' [Key ''sha-256'', Req])" "wf_item ?i"
    by code_simp+
  from identifier_roundtrip [OF p] p show ?thesis by blast
qed

section \<open>Canonical query parameters\<close>

text \<open>The bytes a percent-encoded component consists of.\<close>

definition form_safe :: "char \<Rightarrow> bool" where
  "form_safe c \<longleftrightarrow>
     is_ascii_alphabetic c \<or> is_ascii_digit c
     \<or> c \<in> {CHR ''*'', CHR ''-'', CHR ''.'', CHR ''_'', CHR ''%''}"

lemma hex_val_upper: "n < 16 \<Longrightarrow> hex_val (hex_digit_upper n) = Some n"
  by (cases "n < 10") (simp_all add: hex_val_def hex_digit_upper_def code_def)

lemma hex_digit_upper_safe: "n < 16 \<Longrightarrow> form_safe (hex_digit_upper n)"
  by (cases "n < 10") (simp_all add: form_safe_def hex_digit_upper_def char_classes)

lemma percent_encode_byte_safe:
  assumes "b < 256"
  shows "list_all form_safe (percent_encode_byte b)"
proof -
  have "b div 16 < 16" using assms by (simp add: less_mult_imp_div_less)
  then have "form_safe (hex_digit_upper (b div 16))" "form_safe (hex_digit_upper (b mod 16))"
    by (simp_all add: hex_digit_upper_safe)
  then show ?thesis by (auto simp: percent_encode_byte_def Let_def) (auto simp: form_safe_def)
qed

lemma decode_percent_encode_byte:
  assumes "b < 256"
  shows "form_urlencoded_decode (percent_encode_byte b @ s) = char_of b # form_urlencoded_decode s"
proof -
  have "b div 16 < 16" using assms by (simp add: less_mult_imp_div_less)
  then have h: "hex_val (hex_digit_upper (b div 16)) = Some (b div 16)"
    "hex_val (hex_digit_upper (b mod 16)) = Some (b mod 16)"
    by (simp_all add: hex_val_upper)
  have "\<not> is_ascii_alphabetic (CHR ''%'')" "\<not> is_ascii_digit (CHR ''%'')"
    "\<not> is_ascii_alphabetic (CHR ''+'')" "\<not> is_ascii_digit (CHR ''+'')"
    by (simp_all add: char_classes)
  with h show ?thesis
    by (cases "char_of b = CHR ''%''"; cases "char_of b = CHR ''+''")
      (auto simp: percent_encode_byte_def Let_def split: list.split)
qed

lemma decode_percent_encode:
  "list_all (\<lambda>b. b < 256) bs \<Longrightarrow> form_urlencoded_decode (percent_encode_form bs) = map char_of bs"
  by (induction bs) (simp_all add: percent_encode_form_def decode_percent_encode_byte)

lemma utf8_step_bounds: "1 \<le> snd (utf8_step b r) \<and> (fst (utf8_step b r) \<longrightarrow> snd (utf8_step b r) \<le> Suc (length r))"
  by (cases r)
    (auto simp: utf8_step_def Let_def is_cont_def byte_at_def Suc_le_eq split: option.splits if_splits)

text \<open>Whether a character is complete depends on its own bytes alone.\<close>

lemma utf8_step_prefix:
  assumes "utf8_step b r = (True, n)"
  shows "utf8_step b (take (n - 1) r @ s) = (True, n)"
proof -
  have at: "byte_at (take m r @ s) i = byte_at r i" if "i < m" "byte_at r i \<noteq> None" for m i
    using that by (auto simp: byte_at_def nth_append split: if_splits)
  have c: "is_cont x lo hi \<Longrightarrow> x \<noteq> None" for x lo hi
    by (cases x) (simp_all add: is_cont_def)
  note at' = at [of 0 1] at [of 0 2] at [of 1 2] at [of 0 3] at [of 1 3] at [of 2 3]
  from assms at' c show ?thesis
    by (simp add: utf8_step_def Let_def split: if_splits)
qed

lemma lossy_complete:
  assumes "utf8_step b r = (True, n)"
  shows "from_utf8_lossy (b # take (n - 1) r @ s) = b # take (n - 1) r @ from_utf8_lossy s"
proof -
  have len: "1 \<le> n" "n \<le> Suc (length r)" using utf8_step_bounds [of b r] assms by auto
  then have "length (take (n - 1) r) = n - 1" by simp
  with utf8_step_prefix [OF assms, of s] len show ?thesis
    by (cases n) simp_all
qed

lemma lossy_replacement: "from_utf8_lossy (0xEF # 0xBF # 0xBD # s) = 0xEF # 0xBF # 0xBD # from_utf8_lossy s"
  using lossy_complete [of "0xEF" "[0xBF, 0xBD]" 3 s]
  by (simp add: utf8_step_def second_range_def is_cont_def byte_at_def)

lemma lossy_idem: "from_utf8_lossy (from_utf8_lossy bs) = from_utf8_lossy bs"
proof (induction bs rule: from_utf8_lossy.induct)
  case (2 b r)
  obtain ok n where st: "utf8_step b r = (ok, n)" by force
  have IH: "from_utf8_lossy (from_utf8_lossy (drop (n - 1) r)) = from_utf8_lossy (drop (n - 1) r)"
    using 2 st by metis
  show ?case
  proof (cases ok)
    case True
    with st utf8_step_bounds [of b r] have "1 \<le> n" by auto
    then have "take n (b # r) = b # take (n - 1) r" by (cases n) simp_all
    with st True lossy_complete [of b r n] IH show ?thesis by simp
  qed (use st IH lossy_replacement in simp)
qed simp

lemma lossy_bytes: "list_all (\<lambda>b. b < 256) bs \<Longrightarrow> list_all (\<lambda>b. b < 256) (from_utf8_lossy bs)"
proof (induction bs rule: from_utf8_lossy.induct)
  case (2 b r)
  obtain ok n where st: "utf8_step b r = (ok, n)" by force
  have "list_all (\<lambda>b. b < 256) (drop (n - 1) r)" "list_all (\<lambda>b. b < 256) (take n (b # r))"
    using 2(2) by (auto simp: list_all_iff dest!: in_set_dropD in_set_takeD)
  with 2(1) [OF st [symmetric]] st show ?case by simp
qed simp

text \<open>
  query parameters are canonical. The component value of a query parameter consists of
  letters, digits and the characters \<open>* - . _ %\<close> whatever bytes the query has, so it can
  neither break a line of the signature base nor carry a byte outside ASCII; and the
  canonical form of a canonical form is itself.
\<close>

theorem form_component_canonical:
  "list_all form_safe (form_urlencoded_component raw)
   \<and> form_urlencoded_component (form_urlencoded_component raw) = form_urlencoded_component raw"
proof -
  let ?bs = "from_utf8_lossy (map code (form_urlencoded_decode raw))"
  have "list_all (\<lambda>b. b < 256) (map code (form_urlencoded_decode raw))"
    by (simp add: list_all_iff code_def)
  then have b: "list_all (\<lambda>b. b < 256) ?bs" by (rule lossy_bytes)
  then have "list_all form_safe (percent_encode_form ?bs)"
    using percent_encode_byte_safe by (auto simp: percent_encode_form_def list_all_iff)
  moreover have "map code (map char_of ?bs) = ?bs"
    using b by (intro nth_equalityI) (auto simp: code_def list_all_length)
  ultimately show ?thesis
    using decode_percent_encode [OF b] lossy_idem by (simp add: form_urlencoded_component_def)
qed

end
