(* ===== verification/Httpsig_Base.thy ===== *)
theory Httpsig_Base
  imports Httpsig_Identifier
begin

text \<open>
  Signature parameters and the signature base of RFC 9421
  (\<open>vouch-httpsig/src/signature_params.rs\<close> and \<open>signature_base.rs\<close>). The base is the text
  that is signed: one line per covered component, then the line of the parameters.
\<close>

section \<open>Signature parameters\<close>

record signature_params =
  sp_components :: "component_identifier list"
  sp_alg :: "string option"
  sp_keyid :: "string option"
  sp_created :: "int option"
  sp_expires :: "int option"
  sp_nonce :: "string option"
  sp_tag :: "string option"

definition signature_params_new :: signature_params where
  "signature_params_new =
     \<lparr>sp_components = [], sp_alg = None, sp_keyid = None, sp_created = None, sp_expires = None,
      sp_nonce = None, sp_tag = None\<rparr>"

definition insert_if ::
    "string \<Rightarrow> ('a \<Rightarrow> sfv_bare_item) \<Rightarrow> 'a option \<Rightarrow> sfv_params \<Rightarrow> sfv_params" where
  "insert_if key f v ps = (case v of Some x \<Rightarrow> params_insert key (Some (f x)) ps | None \<Rightarrow> ps)"

definition to_inner_list :: "signature_params \<Rightarrow> sfv_inner_list" where
  "to_inner_list p =
     \<lparr>il_items = map to_sfv_item (sp_components p),
      il_params =
        insert_if ''tag'' String (sp_tag p)
          (insert_if ''nonce'' String (sp_nonce p)
            (insert_if ''keyid'' String (sp_keyid p)
              (insert_if ''expires'' Integer (sp_expires p)
                (insert_if ''created'' Integer (sp_created p)
                  (insert_if ''alg'' String (sp_alg p) [])))))\<rparr>"

definition serialize_signature_params :: "base64 \<Rightarrow> signature_params \<Rightarrow> string" where
  "serialize_signature_params b64 p = serialize_inner_list b64 (to_inner_list p)"

definition extract_string_param :: "sfv_params \<Rightarrow> string \<Rightarrow> string option" where
  "extract_string_param ps key =
     (case params_get key ps of Some (Some (String s)) \<Rightarrow> Some s | _ \<Rightarrow> None)"

definition extract_integer_param :: "sfv_params \<Rightarrow> string \<Rightarrow> int option" where
  "extract_integer_param ps key =
     (case params_get key ps of Some (Some (Integer n)) \<Rightarrow> Some n | _ \<Rightarrow> None)"

fun from_sfv_items :: "sfv_item list \<Rightarrow> httpsig_error + component_identifier list" where
  "from_sfv_items [] = Inr []"
| "from_sfv_items (i # items) =
     (case from_sfv_item i of
        Inl e \<Rightarrow> Inl e
      | Inr c \<Rightarrow> (case from_sfv_items items of Inl e \<Rightarrow> Inl e | Inr cs \<Rightarrow> Inr (c # cs)))"

definition from_inner_list :: "sfv_inner_list \<Rightarrow> httpsig_error + signature_params" where
  "from_inner_list l =
     (case from_sfv_items (il_items l) of
        Inl e \<Rightarrow> Inl e
      | Inr cs \<Rightarrow>
          Inr \<lparr>sp_components = cs,
               sp_alg = extract_string_param (il_params l) ''alg'',
               sp_keyid = extract_string_param (il_params l) ''keyid'',
               sp_created = extract_integer_param (il_params l) ''created'',
               sp_expires = extract_integer_param (il_params l) ''expires'',
               sp_nonce = extract_string_param (il_params l) ''nonce'',
               sp_tag = extract_string_param (il_params l) ''tag''\<rparr>)"

section \<open>The signature base\<close>

record base_builder =
  bb_base :: string
  bb_seen :: "(string \<times> component_params) list"

definition bb_new :: base_builder where
  "bb_new = \<lparr>bb_base = [], bb_seen = []\<rparr>"

definition bb_push ::
    "base64 \<Rightarrow> component_identifier \<Rightarrow> string \<Rightarrow> base_builder \<Rightarrow> httpsig_error + base_builder" where
  "bb_push b64 c value bb =
     (if dedup_key c \<in> set (bb_seen bb)
      then Inl (BaseConstruction ''component identifier appears more than once'')
      else if list_ex (\<lambda>b. \<not> (0x20 \<le> code b \<and> code b \<le> 0x7E)) value
      then Inl (BaseConstruction ''component resolved to a value the signature base does not admit'')
      else Inr \<lparr>bb_base = bb_base bb @ serialize_id b64 c @ '': '' @ value @ [CHR 0x0A],
                bb_seen = bb_seen bb @ [dedup_key c]\<rparr>)"

definition is_ascii :: "string \<Rightarrow> bool" where
  "is_ascii s = list_all (\<lambda>c. code c < 128) s"

definition params_line :: "string \<Rightarrow> string" where
  "params_line params_str = [CHR 0x22] @ ''@signature-params'' @ [CHR 0x22] @ '': '' @ params_str"

definition bb_finish :: "string \<Rightarrow> base_builder \<Rightarrow> httpsig_error + string" where
  "bb_finish params_str bb =
     (let base = bb_base bb @ params_line params_str
      in if is_ascii base then Inr base
         else Inl (BaseConstruction ''signature base contains non-ASCII characters''))"

fun push_components ::
    "base64 \<Rightarrow> (component_identifier \<Rightarrow> httpsig_error + string) \<Rightarrow> component_identifier list
       \<Rightarrow> base_builder \<Rightarrow> httpsig_error + base_builder" where
  "push_components b64 resolve [] bb = Inr bb"
| "push_components b64 resolve (c # cs) bb =
     (case resolve c of
        Inl e \<Rightarrow> Inl e
      | Inr value \<Rightarrow>
          (case bb_push b64 c value bb of
             Inl e \<Rightarrow> Inl e
           | Inr bb' \<Rightarrow> push_components b64 resolve cs bb'))"

definition build_request_base_with_params_str ::
    "http_crate \<Rightarrow> http_request \<Rightarrow> signature_params \<Rightarrow> string \<Rightarrow> httpsig_error + string" where
  "build_request_base_with_params_str hc req params params_str =
     (case push_components (hc_b64 hc) (resolve_from_request hc req) (sp_components params) bb_new of
        Inl e \<Rightarrow> Inl e
      | Inr bb \<Rightarrow> bb_finish params_str bb)"

definition build_response_base_with_params_str ::
    "http_crate \<Rightarrow> http_response \<Rightarrow> http_request option \<Rightarrow> signature_params \<Rightarrow> string
       \<Rightarrow> httpsig_error + string" where
  "build_response_base_with_params_str hc resp req params params_str =
     (case push_components (hc_b64 hc) (resolve_from_response hc resp req) (sp_components params) bb_new of
        Inl e \<Rightarrow> Inl e
      | Inr bb \<Rightarrow> bb_finish params_str bb)"

section \<open>Printable text\<close>

text \<open>The alphabet of base64.\<close>

definition is_base64_char :: "char \<Rightarrow> bool" where
  "is_base64_char c \<longleftrightarrow>
     is_ascii_alphabetic c \<or> is_ascii_digit c \<or> c \<in> {CHR ''+'', CHR ''/'', CHR ''=''}"

definition base64_text :: "base64 \<Rightarrow> bool" where
  "base64_text b64 \<longleftrightarrow> (\<forall>bs. list_all is_base64_char (b64_encode b64 bs))"

lemma printable_classes:
  "is_ascii_digit c \<Longrightarrow> is_string_char c" "is_ascii_alphabetic c \<Longrightarrow> is_string_char c"
  "is_token_char c \<Longrightarrow> is_string_char c" "is_key_char c \<Longrightarrow> is_string_char c"
  "is_key_start c \<Longrightarrow> is_string_char c" "is_token_start c \<Longrightarrow> is_string_char c"
  by (auto simp: char_classes)

lemma printable_base64_char: "is_base64_char c \<Longrightarrow> is_string_char c"
  by (auto simp: is_base64_char_def printable_classes) (simp_all add: char_classes)

lemma printable_base64: "base64_text b64 \<Longrightarrow> list_all is_string_char (b64_encode b64 bs)"
  by (simp add: base64_text_def list_all_iff printable_base64_char)

lemma printable_show_nat: "list_all is_string_char (show_nat n)"
  using show_nat_digits [of n] by (auto simp: list_all_iff printable_classes)

lemma printable_show_int: "list_all is_string_char (show_int v)"
  using printable_show_nat by (simp add: show_int_def char_classes)

lemma printable_thousandths: "list_all is_string_char (show_thousandths neg k)"
  using printable_show_nat by (simp add: show_thousandths_def printable_classes) (simp add: char_classes)

lemma printable_decimal: "list_all is_string_char (serialize_decimal neg k)"
proof -
  have "set (trim_end_zeros s) \<subseteq> set s" for s
    using set_dropWhileD by (fastforce simp: trim_end_zeros_def)
  then have "list_all is_string_char (trim_end_zeros (show_thousandths neg k))"
    using printable_thousandths [of neg k] by (auto simp: list_all_iff)
  then show ?thesis by (simp add: serialize_decimal_def Let_def) (simp add: char_classes)
qed

lemma printable_escape: "list_all is_string_char s \<Longrightarrow> list_all is_string_char (escape_string s)"
  by (induction s) (simp_all add: escape_string_def char_classes)

lemma printable_key: "wf_key k \<Longrightarrow> list_all is_string_char k"
  by (cases k) (auto simp: list_all_iff printable_classes)

lemma printable_token: "wf_token k \<Longrightarrow> list_all is_string_char k"
  by (cases k) (auto simp: list_all_iff printable_classes)

lemma printable_punctuation:
  "is_string_char (CHR '' '')" "is_string_char (CHR 0x22)" "is_string_char (CHR '':'')"
  "is_string_char (CHR '';'')" "is_string_char (CHR ''='')" "is_string_char (CHR ''?'')"
  "is_string_char (CHR ''('')" "is_string_char (CHR '')'')" "is_string_char (CHR '','')"
  "is_string_char (CHR ''0'')" "is_string_char (CHR ''1'')" "is_string_char (CHR ''@'')"
  by (simp_all add: char_classes)

lemma printable_bare:
  "base64_text b64 \<Longrightarrow> wf_bare v \<Longrightarrow> list_all is_string_char (serialize_bare_item b64 v)"
  by (cases v)
    (simp_all add: printable_show_int printable_decimal printable_escape printable_token
      printable_punctuation printable_base64)

lemma printable_params:
  "base64_text b64 \<Longrightarrow> wf_params ps \<Longrightarrow> list_all is_string_char (serialize_params b64 ps)"
  by (induction ps)
    (auto simp: serialize_params_def wf_params_def printable_key printable_bare printable_punctuation
      split: option.splits)

lemma printable_item:
  "base64_text b64 \<Longrightarrow> wf_item i \<Longrightarrow> list_all is_string_char (serialize_item b64 i)"
  by (simp add: serialize_item_def wf_item_def printable_bare printable_params)

lemma printable_separated:
  "list_all is_string_char sep \<Longrightarrow> list_all (list_all is_string_char) xs
     \<Longrightarrow> list_all is_string_char (separated sep xs)"
proof -
  have "list_all is_string_char (each_after sep ys)"
    if "list_all is_string_char sep" "list_all (list_all is_string_char) ys" for ys
    using that by (induction ys) simp_all
  then show "list_all is_string_char sep \<Longrightarrow> list_all (list_all is_string_char) xs
     \<Longrightarrow> list_all is_string_char (separated sep xs)"
    by (cases xs) simp_all
qed

lemma printable_inner_list:
  assumes "base64_text b64" and "wf_inner_list l"
  shows "list_all is_string_char (serialize_inner_list b64 l)"
proof -
  have "list_all (list_all is_string_char) (map (serialize_item b64) (il_items l))"
    using assms printable_item [of b64] by (auto simp: list_all_iff wf_inner_list_def)
  then show ?thesis
    using assms printable_params [of b64] printable_separated [of "'' ''"]
    by (simp add: serialize_inner_list_def wf_inner_list_def printable_punctuation)
qed

section \<open>Identifiers on a line\<close>

lemma printable_lower: "is_string_char c \<Longrightarrow> is_string_char (ascii_lower c)"
  by (auto simp: ascii_lower_def is_string_char_def code_def)

lemma printable_lowercase: "list_all is_string_char s \<Longrightarrow> list_all is_string_char (to_ascii_lowercase s)"
  by (auto simp: to_ascii_lowercase_def list_all_iff printable_lower)

lemma printable_derived_name: "list_all is_string_char (derived_name d)"
  by (cases d) (simp_all add: char_classes)

definition printable_param :: "component_param \<Rightarrow> bool" where
  "printable_param p = (case param_value p of Some v \<Rightarrow> wf_bare v | None \<Rightarrow> True)"

lemma parse_one_param_printable:
  "parse_one_param key v = Inr p \<Longrightarrow> (case v of None \<Rightarrow> True | Some w \<Rightarrow> wf_bare w) \<Longrightarrow> printable_param p"
  by (auto simp: parse_one_param_def expect_string_def printable_param_def
      split: if_splits sum.splits option.splits sfv_bare_item.splits)

lemma parse_params_each_printable:
  "parse_params_each ctx sfv = Inr ps \<Longrightarrow> wf_params sfv \<Longrightarrow> list_all printable_param ps"
  by (induction ctx sfv arbitrary: ps rule: parse_params_each.induct)
    (auto simp: wf_params_def split: sum.splits if_splits dest: parse_one_param_printable)

lemma from_sfv_item_printable:
  assumes "from_sfv_item i = Inr c" and "wf_item i"
  shows "list_all is_string_char (component_name c) \<and> list_all printable_param (component_params_of c)"
proof -
  have "wf_params (item_params i)" "wf_bare (item_value i)" using assms(2) by (simp_all add: wf_item_def)
  with assms(1) show ?thesis
    by (auto simp: from_sfv_item_def parse_component_params_def printable_lowercase printable_derived_name
        printable_derived_name [of DQueryParam, simplified]
        split: sfv_bare_item.splits option.splits sum.splits if_splits
        dest: parse_params_each_printable)
qed

lemma wf_sfv_of_params:
  "distinct (map key_name ps) \<Longrightarrow> list_all printable_param ps \<Longrightarrow> wf_params (sfv_of_params ps)"
proof -
  assume *: "distinct (map key_name ps)" "list_all printable_param ps"
  have "wf_key (key_name p)" for p by (cases p) (simp_all add: char_classes)
  with * show ?thesis
    by (auto simp: wf_params_def sfv_of_params_def list_all_iff printable_param_def comp_def split: option.splits)
qed

lemma wf_to_sfv_item:
  assumes "wf_component c" and "list_all is_string_char (component_name c)"
    and "list_all printable_param (component_params_of c)"
  shows "wf_item (to_sfv_item c)"
  using assms
  by (cases c) (auto simp: to_sfv_item_def wf_item_def wf_id_params_def fold_params_insert wf_sfv_of_params)

lemma parsed_id_printable:
  assumes "base64_text b64" and "from_sfv_item i = Inr c" and "wf_item i"
  shows "list_all is_string_char (serialize_id b64 c)"
  unfolding serialize_id_def
  by (rule printable_item [OF assms(1)], rule wf_to_sfv_item)
    (use from_sfv_item_wf [OF assms(2,3)] from_sfv_item_printable [OF assms(2,3)] in auto)
section \<open>Lines\<close>

definition base_line :: "base64 \<Rightarrow> component_identifier \<Rightarrow> string \<Rightarrow> string" where
  "base_line b64 c v = serialize_id b64 c @ '': '' @ v"

definition join_lines :: "string list \<Rightarrow> string" where
  "join_lines ls = concat (map (\<lambda>l. l @ [CHR 0x0A]) ls)"

lemma printable_no_newline: "list_all is_string_char s \<Longrightarrow> CHR 0x0A \<notin> set s"
  by (auto simp: list_all_iff char_classes)

lemma break_at_newline:
  assumes "a @ CHR 0x0A # x = b @ CHR 0x0A # y" and "CHR 0x0A \<notin> set a" and "CHR 0x0A \<notin> set b"
  shows "a = b \<and> x = y"
proof -
  have "takeWhile (\<lambda>c. c \<noteq> CHR 0x0A) (a @ CHR 0x0A # x) = a"
    "takeWhile (\<lambda>c. c \<noteq> CHR 0x0A) (b @ CHR 0x0A # y) = b"
    using assms(2,3) by (auto intro!: takeWhile_eq_all_conv [THEN iffD2] simp: takeWhile_append)
  with assms(1) have "a = b" by metis
  with assms(1) show ?thesis by simp
qed

lemma join_lines_inject:
  assumes "join_lines as @ t = join_lines bs @ u"
    and "list_all (list_all is_string_char) as" and "list_all (list_all is_string_char) bs"
    and "list_all is_string_char t" and "list_all is_string_char u"
  shows "as = bs \<and> t = u"
  using assms(1-3)
proof (induction as arbitrary: bs)
  case Nil
  show ?case
  proof (cases bs)
    case (Cons b bs')
    with Nil(1) have "CHR 0x0A \<in> set t" by (auto simp: join_lines_def)
    with printable_no_newline [OF assms(4)] show ?thesis by blast
  qed (use Nil in \<open>simp add: join_lines_def\<close>)
next
  case (Cons a as)
  show ?case
  proof (cases bs)
    case Nil
    with Cons.prems(1) have "CHR 0x0A \<in> set u" by (auto simp: join_lines_def)
    with printable_no_newline [OF assms(5)] show ?thesis by blast
  next
    case (Cons b bs')
    with Cons.prems have "a @ CHR 0x0A # (join_lines as @ t) = b @ CHR 0x0A # (join_lines bs' @ u)"
      by (simp add: join_lines_def)
    from break_at_newline [OF this] Cons.prems(2,3) Cons
    have "a = b" "join_lines as @ t = join_lines bs' @ u" by (auto dest: printable_no_newline)
    with Cons.IH [of bs'] Cons.prems(2,3) Cons show ?thesis by simp
  qed
qed

lemma push_components_lines:
  "push_components b64 resolve cs bb = Inr bb' \<Longrightarrow>
     \<exists>vs. length vs = length cs \<and> map resolve cs = map Inr vs \<and> list_all (list_all is_string_char) vs
        \<and> bb_base bb' = bb_base bb @ join_lines (map2 (base_line b64) cs vs)
        \<and> (distinct (bb_seen bb) \<longrightarrow> distinct (bb_seen bb @ map dedup_key cs))"
proof (induction cs arbitrary: bb)
  case (Cons c cs)
  from Cons.prems obtain v bb1 where v: "resolve c = Inr v" and p: "bb_push b64 c v bb = Inr bb1"
    and r: "push_components b64 resolve cs bb1 = Inr bb'"
    by (auto split: sum.splits)
  from Cons.IH [OF r] obtain vs where vs: "length vs = length cs" "map resolve cs = map Inr vs"
    "list_all (list_all is_string_char) vs"
    "bb_base bb' = bb_base bb1 @ join_lines (map2 (base_line b64) cs vs)"
    "distinct (bb_seen bb1) \<longrightarrow> distinct (bb_seen bb1 @ map dedup_key cs)" by blast
  from p have b: "bb_base bb1 = bb_base bb @ base_line b64 c v @ [CHR 0x0A]"
    "bb_seen bb1 = bb_seen bb @ [dedup_key c]" "dedup_key c \<notin> set (bb_seen bb)"
    "list_all is_string_char v"
    by (auto simp: bb_push_def base_line_def list_ex_iff list_all_iff is_string_char_def split: if_splits)
  from vs v b show ?case
    by (intro exI [of _ "v # vs"]) (auto simp: join_lines_def)
qed (simp add: join_lines_def)

lemma request_base_lines:
  assumes "build_request_base_with_params_str hc req p s = Inr base"
  shows "\<exists>vs. length vs = length (sp_components p)
           \<and> map (resolve_from_request hc req) (sp_components p) = map Inr vs
           \<and> list_all (list_all is_string_char) vs
           \<and> base = join_lines (map2 (base_line (hc_b64 hc)) (sp_components p) vs) @ params_line s
           \<and> distinct (map dedup_key (sp_components p))"
proof -
  from assms obtain bb where
    "push_components (hc_b64 hc) (resolve_from_request hc req) (sp_components p) bb_new = Inr bb"
    "base = bb_base bb @ params_line s"
    by (auto simp: build_request_base_with_params_str_def bb_finish_def Let_def split: sum.splits if_splits)
  with push_components_lines [OF this(1)] show ?thesis by (auto simp: bb_new_def)
qed

lemma from_sfv_items_ids:
  assumes "base64_text b64"
  shows "from_sfv_items items = Inr cs \<Longrightarrow> list_all wf_item items
           \<Longrightarrow> list_all (\<lambda>c. wf_component c \<and> list_all is_string_char (serialize_id b64 c)) cs"
  by (induction items arbitrary: cs)
    (auto split: sum.splits intro: from_sfv_item_wf parsed_id_printable [OF assms])

lemma from_inner_list_components:
  assumes "base64_text b64" and "from_inner_list l = Inr p" and "wf_inner_list l"
  shows "list_all (\<lambda>c. wf_component c \<and> list_all is_string_char (serialize_id b64 c)) (sp_components p)"
  using from_sfv_items_ids [OF assms(1), of "il_items l"] assms(2,3)
  by (auto simp: from_inner_list_def wf_inner_list_def split: sum.splits)

lemma base_lines_printable:
  assumes "list_all (\<lambda>c. wf_component c \<and> list_all is_string_char (serialize_id b64 c)) cs"
    and "list_all (list_all is_string_char) vs"
  shows "list_all (list_all is_string_char) (map2 (base_line b64) cs vs)"
  using assms
proof (induction cs arbitrary: vs)
  case (Cons c cs)
  then show ?case by (cases vs) (simp_all add: base_line_def printable_punctuation)
qed simp

lemma serialize_inner_list_inject:
  assumes "base64_ok b64" and "wf_inner_list l" and "wf_inner_list m"
    and "serialize_inner_list b64 l = serialize_inner_list b64 m"
  shows "l = m"
  using p_inner_list_serialize [OF assms(1,2), of "[]"] p_inner_list_serialize [OF assms(1,3), of "[]"] assms(4)
  by (simp add: stops_def)

lemma map2_base_line_inject:
  "length vs = length cs \<Longrightarrow> length ws = length cs
     \<Longrightarrow> map2 (base_line b64) cs vs = map2 (base_line b64) cs ws \<Longrightarrow> vs = ws"
proof (induction cs arbitrary: vs ws)
  case (Cons c cs)
  from Cons.prems(1,2) obtain v vs' w ws' where *: "vs = v # vs'" "ws = w # ws'"
    by (metis length_Suc_conv length_Cons)
  with Cons.prems(3) have "v = w" "map2 (base_line b64) cs vs' = map2 (base_line b64) cs ws'"
    by (simp_all add: base_line_def)
  with Cons.IH [of vs' ws'] Cons.prems(1,2) * show ?case by simp
qed simp

lemma base_determines:
  assumes "base64_ok (hc_b64 hc)" and "base64_text (hc_b64 hc)"
    and "wf_inner_list l1" and "wf_inner_list l2"
    and "from_inner_list l1 = Inr p1" and "from_inner_list l2 = Inr p2"
    and "build_request_base_with_params_str hc r1 p1 (serialize_inner_list (hc_b64 hc) l1) = Inr base"
    and "build_request_base_with_params_str hc r2 p2 (serialize_inner_list (hc_b64 hc) l2) = Inr base"
  shows "l1 = l2 \<and> p1 = p2 \<and> distinct (map dedup_key (sp_components p1))
       \<and> (\<forall>c \<in> set (sp_components p1).
            \<exists>v. resolve_from_request hc r1 c = Inr v \<and> resolve_from_request hc r2 c = Inr v)"
proof -
  let ?b = "hc_b64 hc"
  obtain vs where vs: "length vs = length (sp_components p1)"
    "map (resolve_from_request hc r1) (sp_components p1) = map Inr vs"
    "list_all (list_all is_string_char) vs"
    "base = join_lines (map2 (base_line ?b) (sp_components p1) vs) @ params_line (serialize_inner_list ?b l1)"
    "distinct (map dedup_key (sp_components p1))"
    using request_base_lines [OF assms(7)] by blast
  obtain ws where ws: "length ws = length (sp_components p2)"
    "map (resolve_from_request hc r2) (sp_components p2) = map Inr ws"
    "list_all (list_all is_string_char) ws"
    "base = join_lines (map2 (base_line ?b) (sp_components p2) ws) @ params_line (serialize_inner_list ?b l2)"
    using request_base_lines [OF assms(8)] by blast
  have pl: "list_all is_string_char (params_line (serialize_inner_list ?b l))" if "wf_inner_list l" for l
    using printable_inner_list [OF assms(2) that]
    by (simp add: params_line_def printable_punctuation) (simp add: char_classes)
  have "map2 (base_line ?b) (sp_components p1) vs = map2 (base_line ?b) (sp_components p2) ws
      \<and> params_line (serialize_inner_list ?b l1) = params_line (serialize_inner_list ?b l2)"
    by (rule join_lines_inject)
      (use vs(4) ws(4) pl assms(3,4)
        base_lines_printable [OF from_inner_list_components [OF assms(2,5,3)] vs(3)]
        base_lines_printable [OF from_inner_list_components [OF assms(2,6,4)] ws(3)] in simp_all)
  then have lines: "map2 (base_line ?b) (sp_components p1) vs = map2 (base_line ?b) (sp_components p2) ws"
    and "serialize_inner_list ?b l1 = serialize_inner_list ?b l2" by (simp_all add: params_line_def)
  with serialize_inner_list_inject [OF assms(1,3,4)] assms(5,6) have eq: "l1 = l2" "p1 = p2" by simp_all
  with map2_base_line_inject [OF vs(1)] ws(1) lines have "vs = ws" by simp
  have "\<exists>v. resolve_from_request hc r1 c = Inr v \<and> resolve_from_request hc r2 c = Inr v"
    if c: "c \<in> set (sp_components p1)" for c
  proof -
    from c obtain i where i: "i < length (sp_components p1)" "c = sp_components p1 ! i"
      by (auto simp: in_set_conv_nth)
    have "resolve_from_request hc r1 c = Inr (vs ! i)" "resolve_from_request hc r2 c = Inr (ws ! i)"
      using arg_cong [OF vs(2), of "\<lambda>xs. xs ! i"] arg_cong [OF ws(2), of "\<lambda>xs. xs ! i"] i eq vs(1) ws(1)
      by simp_all
    with \<open>vs = ws\<close> show ?thesis by blast
  qed
  with eq vs(5) show ?thesis by blast
qed
text \<open>
  C14: the signature base determines what is signed. If two requests, under the parameters of
  two well-formed parameter lists, have the same signature base, then the parameter lists are
  the same and every covered component has the same value on both requests. No value, name or
  parameter can be chosen so that one line reads as two or as the line of the parameters.
\<close>

theorem signature_base_injective:
  assumes "base64_ok (hc_b64 hc)" and "base64_text (hc_b64 hc)"
    and "wf_inner_list l1" and "wf_inner_list l2"
    and "from_inner_list l1 = Inr p1" and "from_inner_list l2 = Inr p2"
    and "build_request_base_with_params_str hc r1 p1 (serialize_inner_list (hc_b64 hc) l1) = Inr base"
    and "build_request_base_with_params_str hc r2 p2 (serialize_inner_list (hc_b64 hc) l2) = Inr base"
  shows "l1 = l2 \<and> p1 = p2 \<and> distinct (map dedup_key (sp_components p1))
       \<and> (\<forall>c \<in> set (sp_components p1).
            \<exists>v. resolve_from_request hc r1 c = Inr v \<and> resolve_from_request hc r2 c = Inr v)"
  by (rule base_determines [OF assms])

lemma hex_codec_text: "base64_text hex_codec"
proof -
  have "is_base64_char (char_of (65 + unat b div 16))" "is_base64_char (char_of (65 + unat b mod 16))"
    for b :: u8
  proof -
    have "unat b < 256" using unsigned_less [of b, where 'a = nat] by simp
    then have "unat b div 16 < 16" by (simp add: less_mult_imp_div_less)
    moreover have "is_base64_char (char_of (65 + n :: nat))" if "n < 16" for n
      using that by (simp add: is_base64_char_def char_classes)
    ultimately show "is_base64_char (char_of (65 + unat b div 16))"
      "is_base64_char (char_of (65 + unat b mod 16))" by simp_all
  qed
  then show ?thesis by (auto simp: base64_text_def hex_codec_def hex_encode_def list_all_iff)
qed

definition demo_hc :: http_crate where
  "demo_hc = \<lparr>hc_to_str = Some, hc_from_str = Some, hc_b64 = hex_codec\<rparr>"

definition demo_req :: http_request where
  "demo_req =
     \<lparr>rq_method = ''GET'', rq_scheme = None, rq_host = None, rq_port = None, rq_path = ''/v1/keys'',
      rq_query = None, rq_headers = (\<lambda>n. if n = ''host'' then [''a.example''] else [])\<rparr>"

definition demo_list :: sfv_inner_list where
  "demo_list =
     \<lparr>il_items = [\<lparr>item_value = String ''@method'', item_params = []\<rparr>,
                  \<lparr>item_value = String ''@path'', item_params = []\<rparr>],
      il_params = [(''keyid'', Some (String ''k''))]\<rparr>"

theorem signature_base_injective_witness:
  "\<exists>p base. from_inner_list demo_list = Inr p
     \<and> build_request_base_with_params_str demo_hc demo_req p
         (serialize_inner_list hex_codec demo_list) = Inr base
     \<and> (\<exists>v. resolve_from_request demo_hc demo_req (Derived DPath []) = Inr v
         \<and> resolve_from_request demo_hc (demo_req\<lparr>rq_query := Some ''x''\<rparr>) (Derived DPath []) = Inr v)"
proof -
  let ?p = "\<lparr>sp_components = [Derived DMethod [], Derived DPath []], sp_alg = None, sp_keyid = Some ''k'',
      sp_created = None, sp_expires = None, sp_nonce = None, sp_tag = None\<rparr>"
  let ?base = "[CHR 0x22] @ ''@method'' @ [CHR 0x22] @ '': GET'' @ [CHR 0x0A, CHR 0x22] @ ''@path''
      @ [CHR 0x22] @ '': /v1/keys'' @ [CHR 0x0A] @ params_line (serialize_inner_list hex_codec demo_list)"
  have p: "from_inner_list demo_list = Inr ?p" and w: "wf_inner_list demo_list" by code_simp+
  have b1: "build_request_base_with_params_str demo_hc demo_req ?p
      (serialize_inner_list (hc_b64 demo_hc) demo_list) = Inr ?base" by code_simp
  have b2: "build_request_base_with_params_str demo_hc (demo_req\<lparr>rq_query := Some ''x''\<rparr>) ?p
      (serialize_inner_list (hc_b64 demo_hc) demo_list) = Inr ?base" by code_simp
  have h: "hc_b64 demo_hc = hex_codec" by (simp add: demo_hc_def)
  have "\<exists>v. resolve_from_request demo_hc demo_req (Derived DPath []) = Inr v
         \<and> resolve_from_request demo_hc (demo_req\<lparr>rq_query := Some ''x''\<rparr>) (Derived DPath []) = Inr v"
    using signature_base_injective [OF _ _ w w p p b1 b2] hex_codec_ok hex_codec_text h by simp
  with p b1 h show ?thesis by auto
qed

section \<open>Parameters round trip\<close>

definition printable_option :: "string option \<Rightarrow> bool" where
  "printable_option v = (case v of None \<Rightarrow> True | Some s \<Rightarrow> list_all is_string_char s)"

definition sfv_int_option :: "int option \<Rightarrow> bool" where
  "sfv_int_option v = (case v of None \<Rightarrow> True | Some n \<Rightarrow> SFV_INTEGER_MIN \<le> n \<and> n \<le> SFV_INTEGER_MAX)"

definition wf_signature_params :: "signature_params \<Rightarrow> bool" where
  "wf_signature_params p \<longleftrightarrow>
     list_all (\<lambda>c. wf_component c \<and> list_all is_string_char (component_name c)
                 \<and> list_all printable_param (component_params_of c)) (sp_components p)
     \<and> printable_option (sp_alg p) \<and> printable_option (sp_keyid p)
     \<and> printable_option (sp_nonce p) \<and> printable_option (sp_tag p)
     \<and> sfv_int_option (sp_created p) \<and> sfv_int_option (sp_expires p)"

lemma params_get_insert:
  "params_get k (params_insert key v ps) = (if k = key then Some v else params_get k ps)"
  by (induction ps) (auto simp: params_get_def)

lemma params_get_insert_if:
  "params_get k (insert_if key f v ps)
     = (case v of Some x \<Rightarrow> if k = key then Some (Some (f x)) else params_get k ps | None \<Rightarrow> params_get k ps)"
  by (cases v) (simp_all add: insert_if_def params_get_insert)

lemma from_to_inner_list:
  assumes "list_all wf_component (sp_components p)"
  shows "from_inner_list (to_inner_list p) = Inr p"
proof -
  have "from_sfv_items (map to_sfv_item cs) = Inr cs" if "list_all wf_component cs" for cs
    using that by (induction cs) (simp_all add: from_to_sfv_item)
  moreover have "params_get k [] = None" for k by (simp add: params_get_def)
  ultimately show ?thesis
    using assms
    by (simp add: from_inner_list_def to_inner_list_def extract_string_param_def
        extract_integer_param_def params_get_insert_if split: option.split)
qed

lemma wf_params_insert_if:
  assumes "wf_params ps" and "wf_key key" and "\<And>x. v = Some x \<Longrightarrow> wf_bare (f x)"
  shows "wf_params (insert_if key f v ps)"
  using assms params_insert_wf [of ps key] by (cases v) (simp_all add: insert_if_def)

lemma wf_to_inner_list:
  assumes "wf_signature_params p"
  shows "wf_inner_list (to_inner_list p)"
proof -
  have "wf_params []" by (simp add: wf_params_def)
  then show ?thesis
    using assms
    by (auto simp: wf_inner_list_def to_inner_list_def wf_signature_params_def printable_option_def
        sfv_int_option_def list_all_iff char_classes wf_to_sfv_item [unfolded list_all_iff]
        intro!: wf_params_insert_if)
qed

end
