(* ===== verification/Httpsig_Digest.thy ===== *)
theory Httpsig_Digest
  imports Httpsig_Base
begin

text \<open>
  Content digests of RFC 9530 (\<open>vouch-httpsig/src/digest.rs\<close>). The hash functions of the
  crypto library are an argument.
\<close>

datatype digest_algorithm = Sha256 | Sha512

fun algorithm_name :: "digest_algorithm \<Rightarrow> string" where
  "algorithm_name Sha256 = ''sha-256''"
| "algorithm_name Sha512 = ''sha-512''"

definition NAMED :: "(digest_algorithm \<times> string) list" where
  "NAMED = [(Sha256, ''sha-256''), (Sha512, ''sha-512'')]"

definition from_name :: "string \<Rightarrow> digest_algorithm option" where
  "from_name name = map_option fst (List.find (\<lambda>(_, known). known = name) NAMED)"

type_synonym digest_fn = "digest_algorithm \<Rightarrow> bytes \<Rightarrow> bytes"

definition content_digest :: "base64 \<Rightarrow> digest_fn \<Rightarrow> bytes \<Rightarrow> digest_algorithm \<Rightarrow> string" where
  "content_digest b64 dg body alg = algorithm_name alg @ ''=:'' @ b64_encode b64 (dg alg body) @ '':''"

definition header_insert :: "headers \<Rightarrow> string \<Rightarrow> string \<Rightarrow> headers" where
  "header_insert h name v = h(name := [v])"

definition header_append :: "headers \<Rightarrow> string \<Rightarrow> string \<Rightarrow> headers" where
  "header_append h name v = h(name := h name @ [v])"

definition set_content_digest ::
    "http_crate \<Rightarrow> digest_fn \<Rightarrow> headers \<Rightarrow> bytes \<Rightarrow> digest_algorithm \<Rightarrow> httpsig_error + headers" where
  "set_content_digest hc dg h body alg =
     (case hc_from_str hc (content_digest (hc_b64 hc) dg body alg) of
        None \<Rightarrow> Inl (BaseConstruction ''Content-Digest header'')
      | Some hv \<Rightarrow> Inr (header_insert h ''content-digest'' hv))"

fun check_entries :: "digest_fn \<Rightarrow> bytes \<Rightarrow> sfv_dictionary \<Rightarrow> bool \<Rightarrow> httpsig_error + unit" where
  "check_entries dg body [] found_recognized =
     (if found_recognized then Inr ()
      else Inl (DigestMismatch ''no recognized digest algorithm in Content-Digest header''))"
| "check_entries dg body ((algo_name, member) # entries) found_recognized =
     (case from_name algo_name of
        None \<Rightarrow> check_entries dg body entries found_recognized
      | Some alg \<Rightarrow>
          (case member of
             InnerList _ \<Rightarrow> Inl (SfvParse ''Content-Digest must be an item'')
           | Item item \<Rightarrow>
               (case item_value item of
                  ByteSequence expected \<Rightarrow>
                    if dg alg body \<noteq> expected
                    then Inl (DigestMismatch ''digest does not match body'')
                    else check_entries dg body entries True
                | _ \<Rightarrow> Inl (SfvParse ''Content-Digest value must be a byte sequence''))))"

definition verify_content_digest ::
    "base64 \<Rightarrow> digest_fn \<Rightarrow> string \<Rightarrow> bytes \<Rightarrow> httpsig_error + unit" where
  "verify_content_digest b64 dg header_value body =
     (case parse_dictionary b64 header_value of
        Inl e \<Rightarrow> Inl (SfvParse ''Content-Digest parse'')
      | Inr d \<Rightarrow> check_entries dg body d False)"

section \<open>Correctness\<close>

text \<open>What an accepted header says: the entries of the algorithms the crate knows.\<close>

definition recognized :: "sfv_dictionary \<Rightarrow> (digest_algorithm \<times> sfv_member) list" where
  "recognized d =
     concat (map (\<lambda>(k, m). case from_name k of Some a \<Rightarrow> [(a, m)] | None \<Rightarrow> []) d)"

definition entry_matches :: "digest_fn \<Rightarrow> bytes \<Rightarrow> digest_algorithm \<times> sfv_member \<Rightarrow> bool" where
  "entry_matches dg body am =
     (case snd am of Item i \<Rightarrow> item_value i = ByteSequence (dg (fst am) body) | InnerList _ \<Rightarrow> False)"

lemma check_entries_iff:
  "check_entries dg body d found = Inr () \<longleftrightarrow>
     list_all (entry_matches dg body) (recognized d) \<and> (found \<or> recognized d \<noteq> [])"
  by (induction dg body d found rule: check_entries.induct)
    (auto simp: recognized_def entry_matches_def
      split: option.split sfv_member.split sfv_bare_item.split)

lemma from_name_print [simp]: "from_name (algorithm_name alg) = Some alg"
  by (cases alg) (simp_all add: from_name_def NAMED_def)

lemma content_digest_print:
  "content_digest b64 dg body alg
     = serialize_dictionary b64
         [(algorithm_name alg, Item \<lparr>item_value = ByteSequence (dg alg body), item_params = []\<rparr>)]"
  by (simp add: content_digest_def serialize_dictionary_def serialize_dict_member_def serialize_params_def)

lemma parse_content_digest:
  assumes "base64_ok b64" and "length (content_digest b64 dg body alg) \<le> 8192"
  shows "parse_dictionary b64 (content_digest b64 dg body alg)
     = Inr [(algorithm_name alg, Item \<lparr>item_value = ByteSequence (dg alg body), item_params = []\<rparr>)]"
proof -
  let ?d = "[(algorithm_name alg, Item \<lparr>item_value = ByteSequence (dg alg body), item_params = []\<rparr>)]"
  have "wf_key (algorithm_name alg)" by (cases alg) (simp_all add: char_classes)
  then have "wf_dictionary ?d" by (simp add: wf_dictionary_def wf_item_def wf_params_def)
  from p_dictionary_serialize [OF assms(1) this] assms(2) show ?thesis
    by (simp add: content_digest_print parse_dictionary_def parse_all_def MAX_SFV_INPUT_LEN_def skip_sp_def)
qed

text \<open>
  C35: digests are complete and sound. A header is accepted for a body exactly if it is a
  dictionary that names at least one known algorithm and whose entry for every known
  algorithm, duplicates included, is the digest of the body under that algorithm; and the
  header the signing side computes for a body is accepted for another body only if the two
  have the same digest.
\<close>

theorem content_digest_exact:
  assumes "base64_ok b64" and "length (content_digest b64 dg body alg) \<le> 8192"
  shows "(verify_content_digest b64 dg h b = Inr () \<longleftrightarrow>
            (\<exists>d. parse_dictionary b64 h = Inr d \<and> recognized d \<noteq> []
               \<and> list_all (entry_matches dg b) (recognized d)))
       \<and> (verify_content_digest b64 dg (content_digest b64 dg body alg) body' = Inr ()
            \<longleftrightarrow> dg alg body' = dg alg body)"
proof -
  have "recognized [(algorithm_name alg, Item \<lparr>item_value = ByteSequence x, item_params = []\<rparr>)]
      = [(alg, Item \<lparr>item_value = ByteSequence x, item_params = []\<rparr>)]" for x
    by (simp add: recognized_def)
  with parse_content_digest [OF assms] show ?thesis
    by (auto simp: verify_content_digest_def check_entries_iff entry_matches_def split: sum.splits)
qed

definition demo_digest :: digest_fn where
  "demo_digest alg body = (case alg of Sha256 \<Rightarrow> [sum_list body] | Sha512 \<Rightarrow> [of_nat (length body)])"

theorem content_digest_exact_witness:
  "verify_content_digest hex_codec demo_digest (content_digest hex_codec demo_digest [1, 2] Sha256) [3] = Inr ()
   \<and> verify_content_digest hex_codec demo_digest (content_digest hex_codec demo_digest [1, 2] Sha256) [4] \<noteq> Inr ()"
proof -
  have "length (content_digest hex_codec demo_digest [1, 2] Sha256) \<le> 8192" by code_simp
  note e = content_digest_exact [OF hex_codec_ok this, THEN conjunct2]
  have "demo_digest Sha256 [3] = demo_digest Sha256 [1, 2]" "demo_digest Sha256 [4] \<noteq> demo_digest Sha256 [1, 2]"
    by (simp_all add: demo_digest_def)
  with e [of "[3]"] e [of "[4]"] show ?thesis by blast
qed

end
