(* ===== verification/Httpsig_Verify.thy ===== *)
theory Httpsig_Verify
  imports Httpsig_Digest
begin

text \<open>
  Signing and verifying (\<open>vouch-httpsig/src/sign.rs\<close>, \<open>verify.rs\<close> and the traits of
  \<open>algorithm/mod.rs\<close>). A signer and a verifier are records of what their trait's methods
  return; the algorithms themselves belong to the crypto library. The clock is an argument,
  in seconds, and 64-bit arithmetic saturates where the code says so.
\<close>

section \<open>Algorithms\<close>

datatype signature_algorithm = EcdsaP256Sha256 | HmacSha256

fun sig_alg_str :: "signature_algorithm \<Rightarrow> string" where
  "sig_alg_str EcdsaP256Sha256 = ''ecdsa-p256-sha256''"
| "sig_alg_str HmacSha256 = ''hmac-sha256''"

record signing_algorithm =
  sg_algorithm :: signature_algorithm
  sg_key_id :: string
  sg_sign :: "string \<Rightarrow> httpsig_error + bytes"

record verifying_algorithm =
  vf_algorithm :: signature_algorithm
  vf_verify :: "string \<Rightarrow> bytes \<Rightarrow> httpsig_error + unit"

section \<open>Signing\<close>

definition sat_i64 :: "int \<Rightarrow> int" where
  "sat_i64 x = max (- (2 ^ 63)) (min (2 ^ 63 - 1) x)"

record signature_builder =
  sb_label :: string
  sb_components :: "component_identifier list"
  sb_created :: "int option"
  sb_expires :: "int option"
  sb_nonce :: "string option"
  sb_tag :: "string option"

definition sb_new :: "string \<Rightarrow> signature_builder" where
  "sb_new label =
     \<lparr>sb_label = label, sb_components = [], sb_created = None, sb_expires = None, sb_nonce = None,
      sb_tag = None\<rparr>"

text \<open>\<open>method\<close>, \<open>authority\<close>, \<open>path\<close> and the others push the derived component they name.\<close>

definition sb_derived :: "derived_component \<Rightarrow> signature_builder \<Rightarrow> signature_builder" where
  "sb_derived d b = b\<lparr>sb_components := sb_components b @ [component_derived d]\<rparr>"

definition sb_field :: "string \<Rightarrow> signature_builder \<Rightarrow> signature_builder" where
  "sb_field name b = b\<lparr>sb_components := sb_components b @ [component_field name]\<rparr>"

definition sb_set_created :: "int \<Rightarrow> signature_builder \<Rightarrow> signature_builder" where
  "sb_set_created t b = b\<lparr>sb_created := Some t\<rparr>"

definition sb_expires_in :: "int \<Rightarrow> int \<Rightarrow> signature_builder \<Rightarrow> signature_builder" where
  "sb_expires_in now seconds b =
     (let base = (case sb_created b of Some t \<Rightarrow> t | None \<Rightarrow> now)
      in b\<lparr>sb_expires := Some (sat_i64 (base + seconds))\<rparr>)"

definition sb_set_nonce :: "string \<Rightarrow> signature_builder \<Rightarrow> signature_builder" where
  "sb_set_nonce n b = b\<lparr>sb_nonce := Some n\<rparr>"

definition sb_set_tag :: "string \<Rightarrow> signature_builder \<Rightarrow> signature_builder" where
  "sb_set_tag t b = b\<lparr>sb_tag := Some t\<rparr>"

definition build_params :: "signature_builder \<Rightarrow> signing_algorithm \<Rightarrow> signature_params" where
  "build_params b signer =
     \<lparr>sp_components = sb_components b,
      sp_alg = Some (sig_alg_str (sg_algorithm signer)),
      sp_keyid = Some (sg_key_id signer),
      sp_created = sb_created b, sp_expires = sb_expires b,
      sp_nonce = sb_nonce b, sp_tag = sb_tag b\<rparr>"

definition build_signature_dict :: "base64 \<Rightarrow> string \<Rightarrow> bytes \<Rightarrow> string" where
  "build_signature_dict b64 label sig =
     serialize_dictionary b64 [(label, Item \<lparr>item_value = ByteSequence sig, item_params = []\<rparr>)]"

definition append_signature_headers_with_params_str ::
    "http_crate \<Rightarrow> headers \<Rightarrow> string \<Rightarrow> string \<Rightarrow> bytes \<Rightarrow> httpsig_error + headers" where
  "append_signature_headers_with_params_str hc h label params_str sig =
     (case hc_from_str hc (label @ ''='' @ params_str) of
        None \<Rightarrow> Inl (BaseConstruction ''Signature-Input header'')
      | Some input_hv \<Rightarrow>
          (case hc_from_str hc (build_signature_dict (hc_b64 hc) label sig) of
             None \<Rightarrow> Inl (BaseConstruction ''Signature header'')
           | Some sig_hv \<Rightarrow>
               Inr (header_append (header_append h ''signature-input'' input_hv) ''signature'' sig_hv)))"

definition sign_request ::
    "http_crate \<Rightarrow> signature_builder \<Rightarrow> http_request \<Rightarrow> signing_algorithm \<Rightarrow> httpsig_error + http_request" where
  "sign_request hc b req signer =
     (let params = build_params b signer;
          params_str = serialize_signature_params (hc_b64 hc) params
      in case build_request_base_with_params_str hc req params params_str of
           Inl e \<Rightarrow> Inl e
         | Inr base \<Rightarrow>
             (case sg_sign signer base of
                Inl e \<Rightarrow> Inl e
              | Inr sig \<Rightarrow>
                  (case append_signature_headers_with_params_str hc (rq_headers req) (sb_label b) params_str sig of
                     Inl e \<Rightarrow> Inl e
                   | Inr h \<Rightarrow> Inr (req\<lparr>rq_headers := h\<rparr>))))"

definition sign_response ::
    "http_crate \<Rightarrow> signature_builder \<Rightarrow> http_response \<Rightarrow> http_request option \<Rightarrow> signing_algorithm
       \<Rightarrow> httpsig_error + http_response" where
  "sign_response hc b resp req signer =
     (let params = build_params b signer;
          params_str = serialize_signature_params (hc_b64 hc) params
      in case build_response_base_with_params_str hc resp req params params_str of
           Inl e \<Rightarrow> Inl e
         | Inr base \<Rightarrow>
             (case sg_sign signer base of
                Inl e \<Rightarrow> Inl e
              | Inr sig \<Rightarrow>
                  (case append_signature_headers_with_params_str hc (rp_headers resp) (sb_label b) params_str sig of
                     Inl e \<Rightarrow> Inl e
                   | Inr h \<Rightarrow> Inr (resp\<lparr>rp_headers := h\<rparr>))))"

section \<open>Verifying\<close>

text \<open>The loop over the values of a header, up to the first that has the label.\<close>

fun find_label ::
    "http_crate \<Rightarrow> string \<Rightarrow> string list \<Rightarrow> bool \<Rightarrow> httpsig_error + sfv_member" where
  "find_label hc label [] found_header =
     (if found_header then Inl (MissingHeader ''label not found'') else Inl (MissingHeader ''header''))"
| "find_label hc label (hv # hvs) found_header =
     (case hc_to_str hc hv of
        None \<Rightarrow> Inl (SfvParse ''header value'')
      | Some value \<Rightarrow>
          (case parse_dictionary (hc_b64 hc) value of
             Inl e \<Rightarrow> Inl e
           | Inr dict \<Rightarrow>
               (case dict_get label dict of
                  Some member \<Rightarrow> Inr member
                | None \<Rightarrow> find_label hc label hvs True)))"

definition find_signature_input ::
    "http_crate \<Rightarrow> headers \<Rightarrow> string \<Rightarrow> httpsig_error + signature_params \<times> string" where
  "find_signature_input hc h label =
     (case find_label hc label (get_all h ''signature-input'') False of
        Inl e \<Rightarrow> Inl e
      | Inr (InnerList l) \<Rightarrow>
          (case from_inner_list l of
             Inl e \<Rightarrow> Inl e
           | Inr params \<Rightarrow> Inr (params, serialize_inner_list (hc_b64 hc) l))
      | Inr (Item _) \<Rightarrow> Inl (SfvParse ''Signature-Input must be an inner list''))"

definition find_signature_value :: "http_crate \<Rightarrow> headers \<Rightarrow> string \<Rightarrow> httpsig_error + bytes" where
  "find_signature_value hc h label =
     (case find_label hc label (get_all h ''signature'') False of
        Inl e \<Rightarrow> Inl e
      | Inr (Item i) \<Rightarrow>
          (case item_value i of
             ByteSequence bs \<Rightarrow> Inr bs
           | _ \<Rightarrow> Inl (InvalidSignature ''Signature must be a byte sequence''))
      | Inr (InnerList _) \<Rightarrow> Inl (InvalidSignature ''Signature must be an item, not an inner list''))"

definition extract_signature_parts ::
    "http_crate \<Rightarrow> headers \<Rightarrow> string \<Rightarrow> httpsig_error + signature_params \<times> string \<times> bytes" where
  "extract_signature_parts hc h label =
     (case find_signature_input hc h label of
        Inl e \<Rightarrow> Inl e
      | Inr (params, params_str) \<Rightarrow>
          (case find_signature_value hc h label of
             Inl e \<Rightarrow> Inl e
           | Inr sig \<Rightarrow> Inr (params, params_str, sig)))"

definition validate_algorithm :: "signature_params \<Rightarrow> verifying_algorithm \<Rightarrow> httpsig_error + unit" where
  "validate_algorithm p verifier =
     (case sp_alg p of
        Some alg \<Rightarrow>
          if alg \<noteq> sig_alg_str (vf_algorithm verifier)
          then Inl (UnsupportedAlgorithm ''signature claims another algorithm'') else Inr ()
      | None \<Rightarrow> Inr ())"

definition validate_timestamps :: "int \<Rightarrow> signature_params \<Rightarrow> int option \<Rightarrow> httpsig_error + unit" where
  "validate_timestamps now p max_age =
     (if (case sp_expires p of Some t \<Rightarrow> now > t | None \<Rightarrow> False)
      then Inl (Expired ''signature expired'')
      else if (case sp_created p of Some t \<Rightarrow> t > sat_i64 (now + 60) | None \<Rightarrow> False)
      then Inl (Expired ''signature created in the future'')
      else case max_age of
        None \<Rightarrow> Inr ()
      | Some age \<Rightarrow>
          (case sp_created p of
             None \<Rightarrow> Inl (Expired ''max_age enforced but signature has no created timestamp'')
           | Some t \<Rightarrow>
               if sat_i64 (now - t) > age then Inl (Expired ''signature exceeds max age'') else Inr ()))"

text \<open>
  The three proofs of the verification chain, each holding the parameters: their constructors
  stand for the types \<open>CryptoVerified\<close>, \<open>CoverageChecked\<close> and \<open>DigestEnforced\<close>.
\<close>

datatype crypto_verified = CryptoVerified signature_params
datatype coverage_checked = CoverageChecked signature_params
datatype digest_enforced = DigestEnforced signature_params

definition verify_request_signature ::
    "http_crate \<Rightarrow> int \<Rightarrow> http_request \<Rightarrow> string \<Rightarrow> verifying_algorithm \<Rightarrow> int option
       \<Rightarrow> httpsig_error + crypto_verified" where
  "verify_request_signature hc now req label verifier max_age =
     (case extract_signature_parts hc (rq_headers req) label of
        Inl e \<Rightarrow> Inl e
      | Inr (params, params_str, sig) \<Rightarrow>
          (case validate_algorithm params verifier of
             Inl e \<Rightarrow> Inl e
           | Inr _ \<Rightarrow>
               (case validate_timestamps now params max_age of
                  Inl e \<Rightarrow> Inl e
                | Inr _ \<Rightarrow>
                    (case build_request_base_with_params_str hc req params params_str of
                       Inl e \<Rightarrow> Inl e
                     | Inr base \<Rightarrow>
                         (case vf_verify verifier base sig of
                            Inl e \<Rightarrow> Inl e
                          | Inr _ \<Rightarrow> Inr (CryptoVerified params))))))"

fun validate_coverage ::
    "signature_params \<Rightarrow> component_identifier list \<Rightarrow> httpsig_error + unit" where
  "validate_coverage p [] = Inr ()"
| "validate_coverage p (req # required) =
     (if \<not> list_ex (\<lambda>c. covers c req) (sp_components p)
      then Inl (InvalidSignature ''signature does not cover required component'')
      else validate_coverage p required)"

fun require_coverage ::
    "crypto_verified \<Rightarrow> component_identifier list \<Rightarrow> httpsig_error + coverage_checked" where
  "require_coverage (CryptoVerified p) required =
     (case validate_coverage p required of Inl e \<Rightarrow> Inl e | Inr _ \<Rightarrow> Inr (CoverageChecked p))"

fun enforce_body_digest ::
    "http_crate \<Rightarrow> digest_fn \<Rightarrow> coverage_checked \<Rightarrow> headers \<Rightarrow> bytes \<Rightarrow> httpsig_error + digest_enforced" where
  "enforce_body_digest hc dg (CoverageChecked p) h body =
     (if \<not> header_contains_key h ''content-digest'' \<and> body = [] then Inr (DigestEnforced p)
      else case validate_coverage p [component_field ''content-digest''] of
        Inl _ \<Rightarrow> Inl MissingDigest
      | Inr _ \<Rightarrow>
          (case header_get h ''content-digest'' of
             None \<Rightarrow> Inl MissingDigest
           | Some hv \<Rightarrow>
               (case hc_to_str hc hv of
                  None \<Rightarrow> Inl (SfvParse ''Content-Digest'')
                | Some header \<Rightarrow>
                    (case verify_content_digest (hc_b64 hc) dg header body of
                       Inl e \<Rightarrow> Inl e
                     | Inr _ \<Rightarrow> Inr (DigestEnforced p)))))"

definition extract_signature_labels :: "http_crate \<Rightarrow> headers \<Rightarrow> httpsig_error + string list" where
  "extract_signature_labels hc h =
     (case header_get h ''signature-input'' of
        None \<Rightarrow> Inl (MissingHeader ''Signature-Input'')
      | Some hv \<Rightarrow>
          (case hc_to_str hc hv of
             None \<Rightarrow> Inl (SfvParse ''Signature-Input'')
           | Some s \<Rightarrow>
               (case parse_dictionary (hc_b64 hc) s of
                  Inl e \<Rightarrow> Inl e
                | Inr dict \<Rightarrow> Inr (map fst dict))))"

end
