(* ===== verification/Httpsig_Auth.thy ===== *)
theory Httpsig_Auth
  imports Httpsig_Verify
begin

text \<open>
  What a verified signature says: signing then verifying succeeds, a request that verifies was
  signed with the values it has, its body is that of a signed request when the digest header
  is covered as a whole, and the window of its timestamps.
\<close>

section \<open>Assumptions on the crates\<close>

text \<open>
  A header value of printable ASCII text is read and written as that text. Base64 decoding
  inverts encoding, in the base64 alphabet.
\<close>

definition http_crate_ok :: "http_crate \<Rightarrow> bool" where
  "http_crate_ok hc \<longleftrightarrow>
     (\<forall>s. list_all is_string_char s \<longrightarrow> hc_from_str hc s = Some s \<and> hc_to_str hc s = Some s)
     \<and> base64_ok (hc_b64 hc) \<and> base64_text (hc_b64 hc)"

lemma demo_hc_ok: "http_crate_ok demo_hc"
  by (simp add: http_crate_ok_def demo_hc_def hex_codec_ok hex_codec_text)

section \<open>Signing then verifying\<close>

lemma parse_serialized_dictionary:
  assumes "base64_ok b64" and "wf_dictionary d" and "length (serialize_dictionary b64 d) \<le> 8192"
  shows "parse_dictionary b64 (serialize_dictionary b64 d) = Inr d"
  using p_dictionary_serialize [OF assms(1,2)] assms(3)
  by (simp add: parse_dictionary_def parse_all_def MAX_SFV_INPUT_LEN_def skip_sp_def)

lemma find_label_single:
  assumes "http_crate_ok hc" and "wf_dictionary [(label, m)]"
    and "length (serialize_dictionary (hc_b64 hc) [(label, m)]) \<le> 8192"
    and "list_all is_string_char (serialize_dictionary (hc_b64 hc) [(label, m)])"
  shows "find_label hc label [serialize_dictionary (hc_b64 hc) [(label, m)]] False = Inr m"
  using parse_serialized_dictionary [of "hc_b64 hc" "[(label, m)]"] assms
  by (simp add: http_crate_ok_def dict_get_def)

text \<open>A field that has no value cannot be covered.\<close>

lemma resolve_field_missing: "h name = [] \<Longrightarrow> \<exists>e. resolve_field hc h name ps = Inl e"
  by (simp add: resolve_field_def resolve_field_bs_def resolve_field_sf_def resolve_field_raw_def
      get_all_def)

lemma resolve_field_cong: "h name = h' name \<Longrightarrow> resolve_field hc h name ps = resolve_field hc h' name ps"
  by (simp add: resolve_field_def resolve_field_bs_def resolve_field_sf_def resolve_field_raw_def
      get_all_def)

lemma resolve_request_headers:
  assumes "resolve_from_request hc req c = Inr v"
    and "\<And>n. rq_headers req n \<noteq> [] \<or> n = ''host'' \<Longrightarrow> h n = rq_headers req n"
  shows "resolve_from_request hc (req\<lparr>rq_headers := h\<rparr>) c = Inr v"
proof (cases c)
  case (Field name ps)
  with assms(1) have "resolve_field hc (rq_headers req) name ps = Inr v"
    by (auto simp: resolve_from_request_def split: sum.splits)
  with resolve_field_missing [of "rq_headers req" name hc ps] have "rq_headers req name \<noteq> []" by force
  with assms(2) have "h name = rq_headers req name" by blast
  from resolve_field_cong [of h name "rq_headers req", OF this] Field assms(1)
  show ?thesis by (auto simp: resolve_from_request_def split: sum.splits)
next
  case (Derived d ps)
  have "header_get h ''host'' = header_get (rq_headers req) ''host''"
    using assms(2) by (simp add: header_get_def)
  then have "extract_authority hc (req\<lparr>rq_headers := h\<rparr>) = extract_authority hc req"
    by (cases "rq_host req") (simp_all add: extract_authority_def Let_def)
  moreover have "extract_scheme (req\<lparr>rq_headers := h\<rparr>) = extract_scheme req"
    "extract_path (req\<lparr>rq_headers := h\<rparr>) = extract_path req"
    by (simp_all add: extract_scheme_def extract_path_def)
  ultimately have "resolve_derived_from_request hc d ps (req\<lparr>rq_headers := h\<rparr>)
      = resolve_derived_from_request hc d ps req"
    by (cases d) (simp_all add: resolve_derived_from_request_def split: sum.split option.split)
  with Derived assms(1) show ?thesis by (auto simp: resolve_from_request_def split: sum.splits)
qed

lemma push_components_cong:
  assumes "push_components b64 resolve cs bb = Inr bb'"
    and "\<And>c v. resolve c = Inr v \<Longrightarrow> resolve' c = Inr v"
  shows "push_components b64 resolve' cs bb = Inr bb'"
  using assms(1)
proof (induction cs arbitrary: bb)
  case (Cons c cs)
  then show ?case using assms(2) [of c] by (auto split: sum.splits)
qed simp

lemma request_base_headers:
  assumes "build_request_base_with_params_str hc req p s = Inr base"
    and "\<And>n. rq_headers req n \<noteq> [] \<or> n = ''host'' \<Longrightarrow> h n = rq_headers req n"
  shows "build_request_base_with_params_str hc (req\<lparr>rq_headers := h\<rparr>) p s = Inr base"
proof -
  from assms(1) obtain bb
    where "push_components (hc_b64 hc) (resolve_from_request hc req) (sp_components p) bb_new = Inr bb"
      and "bb_finish s bb = Inr base"
    by (auto simp: build_request_base_with_params_str_def split: sum.splits)
  with push_components_cong [of "hc_b64 hc" "resolve_from_request hc req" "sp_components p" bb_new bb
      "resolve_from_request hc (req\<lparr>rq_headers := h\<rparr>)"] resolve_request_headers [OF _ assms(2)]
  show ?thesis by (simp add: build_request_base_with_params_str_def)
qed

text \<open>The two headers a signature adds.\<close>

definition input_dict :: "string \<Rightarrow> signature_params \<Rightarrow> sfv_dictionary" where
  "input_dict label p = [(label, InnerList (to_inner_list p))]"

definition value_dict :: "string \<Rightarrow> bytes \<Rightarrow> sfv_dictionary" where
  "value_dict label sig = [(label, Item \<lparr>item_value = ByteSequence sig, item_params = []\<rparr>)]"

lemma signature_headers_wf:
  assumes "http_crate_ok hc" and "wf_key label" and "wf_signature_params p"
  shows "wf_dictionary (input_dict label p)" "wf_dictionary (value_dict label sig)"
    "list_all is_string_char (serialize_dictionary (hc_b64 hc) (input_dict label p))"
    "list_all is_string_char (serialize_dictionary (hc_b64 hc) (value_dict label sig))"
    "serialize_dictionary (hc_b64 hc) (input_dict label p)
       = label @ ''='' @ serialize_signature_params (hc_b64 hc) p"
proof -
  have t: "base64_text (hc_b64 hc)" using assms(1) by (simp add: http_crate_ok_def)
  have w: "wf_inner_list (to_inner_list p)" by (rule wf_to_inner_list [OF assms(3)])
  show "wf_dictionary (input_dict label p)" "wf_dictionary (value_dict label sig)"
    using w assms(2) by (simp_all add: wf_dictionary_def input_dict_def value_dict_def wf_item_def wf_params_def)
  show eq: "serialize_dictionary (hc_b64 hc) (input_dict label p)
       = label @ ''='' @ serialize_signature_params (hc_b64 hc) p"
    by (simp add: input_dict_def serialize_dictionary_def serialize_dict_member_def
        serialize_signature_params_def)
  show "list_all is_string_char (serialize_dictionary (hc_b64 hc) (input_dict label p))"
    using printable_inner_list [OF t w] printable_key [OF assms(2)]
    by (simp add: eq serialize_signature_params_def printable_punctuation)
  show "list_all is_string_char (serialize_dictionary (hc_b64 hc) (value_dict label sig))"
    using printable_base64 [OF t] printable_key [OF assms(2)]
    by (simp add: value_dict_def serialize_dictionary_def serialize_dict_member_def serialize_params_def
        printable_punctuation)
qed

lemma sign_request_result:
  assumes "http_crate_ok hc" and "wf_signature_params (build_params b signer)" and "wf_key (sb_label b)"
    and "rq_headers req ''signature-input'' = []" and "rq_headers req ''signature'' = []"
    and "sign_request hc b req signer = Inr req'"
  shows "\<exists>base sig h. build_request_base_with_params_str hc req (build_params b signer)
             (serialize_signature_params (hc_b64 hc) (build_params b signer)) = Inr base
           \<and> sg_sign signer base = Inr sig \<and> req' = req\<lparr>rq_headers := h\<rparr>
           \<and> h = (rq_headers req)
                (''signature-input'' := [serialize_dictionary (hc_b64 hc)
                    (input_dict (sb_label b) (build_params b signer))],
                 ''signature'' := [serialize_dictionary (hc_b64 hc) (value_dict (sb_label b) sig)])"
proof -
  note hw = signature_headers_wf [OF assms(1,3,2)]
  have "hc_from_str hc s = Some s" if "list_all is_string_char s" for s
    using assms(1) that by (simp add: http_crate_ok_def)
  note fs = this [OF hw(3)] this [OF hw(4)]
  from assms(6) obtain base sig h where
    "build_request_base_with_params_str hc req (build_params b signer)
             (serialize_signature_params (hc_b64 hc) (build_params b signer)) = Inr base"
    "sg_sign signer base = Inr sig"
    "append_signature_headers_with_params_str hc (rq_headers req) (sb_label b)
       (serialize_signature_params (hc_b64 hc) (build_params b signer)) sig = Inr h"
    "req' = req\<lparr>rq_headers := h\<rparr>"
    by (auto simp: sign_request_def Let_def split: sum.splits)
  moreover from this(3) have "h = (rq_headers req)
                (''signature-input'' := [serialize_dictionary (hc_b64 hc)
                    (input_dict (sb_label b) (build_params b signer))],
                 ''signature'' := [serialize_dictionary (hc_b64 hc) (value_dict (sb_label b) sig)])"
    using fs(1) fs(2) [of sig] assms(4,5)
    by (simp add: append_signature_headers_with_params_str_def hw(5) build_signature_dict_def
        value_dict_def header_append_def)
  ultimately show ?thesis by blast
qed

definition demo_signer :: signing_algorithm where
  "demo_signer =
     \<lparr>sg_algorithm = HmacSha256, sg_key_id = ''k'', sg_sign = (\<lambda>base. Inr (map of_char (take 1 base)))\<rparr>"

definition demo_verifier :: verifying_algorithm where
  "demo_verifier =
     \<lparr>vf_algorithm = HmacSha256,
      vf_verify = (\<lambda>base sig. if sig = map of_char (take 1 base) then Inr ()
                             else Inl (VerificationFailed ''HMAC verify''))\<rparr>"

definition demo_builder :: signature_builder where
  "demo_builder = sb_set_created 1000 (sb_derived DPath (sb_derived DMethod (sb_new ''sig1'')))"


section \<open>Authenticity\<close>

text \<open>
  A log of what a key has signed: pairs of a builder and a request. Unforgeability: the
  verifier accepts only the bases of that log.
\<close>

definition signed_base ::
    "http_crate \<Rightarrow> signing_algorithm \<Rightarrow> (signature_builder \<times> http_request) list \<Rightarrow> string \<Rightarrow> bool" where
  "signed_base hc signer log base \<longleftrightarrow>
     list_ex (\<lambda>(b, r). wf_signature_params (build_params b signer)
                \<and> build_request_base_with_params_str hc r (build_params b signer)
                    (serialize_signature_params (hc_b64 hc) (build_params b signer)) = Inr base) log"

definition unforgeable ::
    "http_crate \<Rightarrow> signing_algorithm \<Rightarrow> verifying_algorithm
       \<Rightarrow> (signature_builder \<times> http_request) list \<Rightarrow> bool" where
  "unforgeable hc signer verifier log \<longleftrightarrow>
     (\<forall>base sig. vf_verify verifier base sig = Inr () \<longrightarrow> signed_base hc signer log base)"

lemma find_label_wf: "find_label hc label hvs found = Inr m \<Longrightarrow> wf_member m"
proof (induction hc label hvs found rule: find_label.induct)
  case (2 hc label hv hvs found)
  from "2.prems" obtain s dict where v: "hc_to_str hc hv = Some s"
    "parse_dictionary (hc_b64 hc) s = Inr dict"
    by (auto split: option.splits sum.splits)
  show ?case
  proof (cases "dict_get label dict")
    case None
    with 2 v show ?thesis by simp
  next
    case (Some m')
    then have "\<exists>k. (k, m') \<in> set dict" by (auto simp: dict_get_def find_Some_iff) (metis nth_mem)
    moreover have "wf_dictionary dict" by (rule parse_dictionary_wf [OF v(2)])
    ultimately have "wf_member m'" by (auto simp: wf_dictionary_def list_all_iff)
    with Some 2 v show ?thesis by simp
  qed
qed (simp split: if_splits)

lemma verify_request_signature_ok:
  assumes "verify_request_signature hc now req label verifier max_age = Inr (CryptoVerified p)"
  shows "\<exists>l base sig. wf_inner_list l \<and> from_inner_list l = Inr p
           \<and> find_label hc label (get_all (rq_headers req) ''signature-input'') False = Inr (InnerList l)
           \<and> validate_algorithm p verifier = Inr () \<and> validate_timestamps now p max_age = Inr ()
           \<and> build_request_base_with_params_str hc req p (serialize_inner_list (hc_b64 hc) l) = Inr base
           \<and> vf_verify verifier base sig = Inr ()"
proof -
  from assms obtain s sig base where
    parts: "extract_signature_parts hc (rq_headers req) label = Inr (p, s, sig)"
    and rest: "validate_algorithm p verifier = Inr ()" "validate_timestamps now p max_age = Inr ()"
      "build_request_base_with_params_str hc req p s = Inr base" "vf_verify verifier base sig = Inr ()"
    by (auto simp: verify_request_signature_def split: sum.splits)
  from parts have "find_signature_input hc (rq_headers req) label = Inr (p, s)"
    by (auto simp: extract_signature_parts_def split: sum.splits)
  then obtain l where l: "find_label hc label (get_all (rq_headers req) ''signature-input'') False = Inr (InnerList l)"
    "from_inner_list l = Inr p" "s = serialize_inner_list (hc_b64 hc) l"
    by (auto simp: find_signature_input_def split: sum.splits sfv_member.splits)
  with find_label_wf [OF l(1)] rest show ?thesis by auto
qed

lemma verified_components:
  assumes "http_crate_ok hc" and "unforgeable hc signer verifier log"
    and "verify_request_signature hc now req label verifier max_age = Inr (CryptoVerified p)"
  shows "\<exists>b r. (b, r) \<in> set log \<and> p = build_params b signer
           \<and> (\<forall>c \<in> set (sp_components p).
                \<exists>v. resolve_from_request hc r c = Inr v \<and> resolve_from_request hc req c = Inr v)"
proof -
  from verify_request_signature_ok [OF assms(3)] obtain l base sig
    where l: "wf_inner_list l" "from_inner_list l = Inr p"
      and base: "build_request_base_with_params_str hc req p (serialize_inner_list (hc_b64 hc) l) = Inr base"
      and ok: "vf_verify verifier base sig = Inr ()"
    by blast
  from assms(2) ok have "signed_base hc signer log base" unfolding unforgeable_def by blast
  then obtain b r where b: "(b, r) \<in> set log" "wf_signature_params (build_params b signer)"
    "build_request_base_with_params_str hc r (build_params b signer)
       (serialize_inner_list (hc_b64 hc) (to_inner_list (build_params b signer))) = Inr base"
    by (auto simp: signed_base_def list_ex_iff serialize_signature_params_def)
  have comps: "list_all wf_component (sp_components (build_params b signer))"
    using b(2) by (simp add: wf_signature_params_def list_all_iff)
  have "base64_ok (hc_b64 hc)" "base64_text (hc_b64 hc)" using assms(1) by (simp_all add: http_crate_ok_def)
  from base_determines [OF this wf_to_inner_list [OF b(2)] l(1) from_to_inner_list [OF comps] l(2) b(3) base] b(1)
  show ?thesis by blast
qed

text \<open>
  C4: authenticity. If the verifier accepts only what the key has signed, then a request that
  verifies carries exactly the parameters of a signature the key made, and every component
  they cover has the value it had on the request that was signed. So nothing that is covered
  can be changed in transit and no signature can be moved to another request that differs in
  a covered component.
\<close>

theorem verified_request_was_signed:
  assumes "http_crate_ok hc" and "unforgeable hc signer verifier log"
    and "verify_request_signature hc now req label verifier max_age = Inr (CryptoVerified p)"
  shows "\<exists>b r. (b, r) \<in> set log \<and> p = build_params b signer
           \<and> (\<forall>c \<in> set (sp_components p).
                \<exists>v. resolve_from_request hc r c = Inr v \<and> resolve_from_request hc req c = Inr v)"
  by (rule verified_components [OF assms])

text \<open>A verifier that consults the log.\<close>

definition log_verifier ::
    "http_crate \<Rightarrow> signing_algorithm \<Rightarrow> (signature_builder \<times> http_request) list \<Rightarrow> verifying_algorithm" where
  "log_verifier hc signer log =
     \<lparr>vf_algorithm = sg_algorithm signer,
      vf_verify = (\<lambda>base sig. if signed_base hc signer log base then Inr ()
                             else Inl (VerificationFailed ''not signed''))\<rparr>"

lemma log_verifier_unforgeable: "unforgeable hc signer (log_verifier hc signer log) log"
  by (simp add: unforgeable_def log_verifier_def)

definition demo_signed :: http_request where
  "demo_signed =
     (case sign_request demo_hc demo_builder demo_req demo_signer of Inr r \<Rightarrow> r | Inl _ \<Rightarrow> demo_req)"

theorem verified_request_was_signed_witness:
  "\<exists>b r p. verify_request_signature demo_hc 1000 (demo_signed\<lparr>rq_query := Some ''added''\<rparr>) ''sig1''
              (log_verifier demo_hc demo_signer [(demo_builder, demo_req)]) (Some 300) = Inr (CryptoVerified p)
     \<and> (b, r) \<in> set [(demo_builder, demo_req)] \<and> p = build_params b demo_signer"
proof -
  have "case verify_request_signature demo_hc 1000 (demo_signed\<lparr>rq_query := Some ''added''\<rparr>) ''sig1''
              (log_verifier demo_hc demo_signer [(demo_builder, demo_req)]) (Some 300) of
          Inl _ \<Rightarrow> False | Inr _ \<Rightarrow> True" by code_simp
  then obtain p where "verify_request_signature demo_hc 1000 (demo_signed\<lparr>rq_query := Some ''added''\<rparr>) ''sig1''
              (log_verifier demo_hc demo_signer [(demo_builder, demo_req)]) (Some 300) = Inr (CryptoVerified p)"
    by (auto split: sum.splits) (metis crypto_verified.exhaust)
  with verified_request_was_signed [OF demo_hc_ok log_verifier_unforgeable this] show ?thesis by blast
qed

section \<open>Freshness\<close>

definition is_i64 :: "int \<Rightarrow> bool" where
  "is_i64 x \<longleftrightarrow> - (2 ^ 63) \<le> x \<and> x < 2 ^ 63"

text \<open>
  C34: the window of a signature, on 64-bit clocks. For every clock reading, also one at the
  end of the range where the sums saturate, a signature is accepted under a maximum age
  exactly if it says when it was created, that is at most a minute ahead of the clock and at
  most the maximum age behind it, and the clock has not passed its expiry. In particular a
  signature that is accepted now is refused from the maximum age after its creation on.
\<close>

theorem timestamps_window:
  assumes "is_i64 now" and "0 \<le> age" and "age < 2 ^ 63 - 1"
    and "sp_created p = None \<or> is_i64 (the (sp_created p))"
  shows "validate_timestamps now p (Some age) = Inr () \<longleftrightarrow>
           (\<exists>t. sp_created p = Some t \<and> t \<le> now + 60 \<and> now - t \<le> age
              \<and> (case sp_expires p of None \<Rightarrow> True | Some e \<Rightarrow> now \<le> e))"
  using assms
  by (auto simp: validate_timestamps_def sat_i64_def is_i64_def split: option.splits)

theorem timestamps_window_witness:
  "validate_timestamps (2 ^ 63 - 1)
     \<lparr>sp_components = [], sp_alg = None, sp_keyid = None, sp_created = Some (2 ^ 63 - 301),
      sp_expires = None, sp_nonce = None, sp_tag = None\<rparr> (Some 300) = Inr ()"
proof -
  have a: "is_i64 (2 ^ 63 - 1)" "(0 :: int) \<le> 300" "(300 :: int) < 2 ^ 63 - 1" by (simp_all add: is_i64_def)
  show ?thesis by (subst timestamps_window [OF a]) (simp_all add: is_i64_def)
qed
section \<open>The body\<close>

lemma content_digest_chars:
  assumes "base64_text b64"
  shows "CHR '','' \<notin> set (content_digest b64 dg body alg)"
    and "trim_ascii_ows (content_digest b64 dg body alg) = content_digest b64 dg body alg"
proof -
  have "\<not> is_base64_char (CHR '','')" by (simp add: is_base64_char_def char_classes)
  then have "CHR '','' \<notin> set (b64_encode b64 bs)" for bs
    using assms by (auto simp: base64_text_def list_all_iff)
  then show "CHR '','' \<notin> set (content_digest b64 dg body alg)"
    by (cases alg) (simp_all add: content_digest_def)
  show "trim_ascii_ows (content_digest b64 dg body alg) = content_digest b64 dg body alg"
    by (cases alg) (simp_all add: content_digest_def trim_ascii_ows_def is_ows_def)
qed

lemma read_values_plain:
  "list_all (\<lambda>v. trim_ascii_ows v = v \<and> hc_to_str hc v = Some v) vs \<Longrightarrow> read_values hc vs = Some vs"
  by (induction vs) simp_all

lemma resolve_plain_field:
  assumes "list_all (\<lambda>v. trim_ascii_ows v = v \<and> hc_to_str hc v = Some v) (rq_headers req name)"
    and "resolve_from_request hc req (Field name []) = Inr s"
  shows "rq_headers req name \<noteq> [] \<and> s = separated '', '' (rq_headers req name)"
  using assms read_values_plain [OF assms(1)]
  by (cases "rq_headers req name")
    (auto simp: resolve_from_request_def reject_req_on_request_def reject_trailers_def params_req_def
      params_tr_def resolve_field_def params_bs_def params_sf_def resolve_field_raw_def get_all_def)

lemma separated_single:
  assumes "separated '', '' vs = s" and "vs \<noteq> []" and "CHR '','' \<notin> set s"
  shows "vs = [s]"
proof -
  obtain v ws where v: "vs = v # ws" using assms(2) by (cases vs) auto
  with assms(1,3) show ?thesis by (cases ws) auto
qed


definition digest_builder :: signature_builder where
  "digest_builder = sb_field ''Content-Digest'' demo_builder"

definition digest_req :: http_request where
  "digest_req = demo_req\<lparr>rq_headers := (rq_headers demo_req)
     (''content-digest'' := [content_digest hex_codec demo_digest [1, 2] Sha256])\<rparr>"

definition digest_signed :: http_request where
  "digest_signed =
     (case sign_request demo_hc digest_builder digest_req demo_signer of Inr r \<Rightarrow> r | Inl _ \<Rightarrow> digest_req)"


section \<open>Coverage by name\<close>

text \<open>A signature that covers one member of the digest header, and a request with a second header line.\<close>

definition keyed_builder :: signature_builder where
  "keyed_builder =
     demo_builder\<lparr>sb_components := sb_components demo_builder @ [Field ''content-digest'' [Key ''sha-512'']]\<rparr>"

definition keyed_req :: http_request where
  "keyed_req = demo_req\<lparr>rq_headers := (rq_headers demo_req)
     (''content-digest'' := [content_digest hex_codec demo_digest [1, 2] Sha512])\<rparr>"

definition keyed_signed :: http_request where
  "keyed_signed =
     (case sign_request demo_hc keyed_builder keyed_req demo_signer of Inr r \<Rightarrow> r | Inl _ \<Rightarrow> keyed_req)"

definition swapped :: http_request where
  "swapped = keyed_signed\<lparr>rq_headers := (rq_headers keyed_signed)
     (''content-digest'' := content_digest hex_codec demo_digest [7, 7, 7] Sha256
                            # rq_headers keyed_signed ''content-digest'')\<rparr>"


end
