(* ===== verification/Httpsig_Policy.thy ===== *)
theory Httpsig_Policy
  imports Httpsig_Component
begin

text \<open>
  Which paths need a signature (\<open>vouch-httpsig/src/sig_policy.rs\<close>). The command line client
  asks with the concrete path, the server with the template of the route.
\<close>

definition PUBLIC_V1_PATHS :: "string list" where
  "PUBLIC_V1_PATHS =
     [''/v1/auth/status'', ''/v1/credentials/ssh/ca'', ''/v1/credentials/ssh/krl'',
      ''/v1/credentials/ssh/krl/{serial}'', ''/v1/credentials/github/status'']"

definition is_wildcard :: "string \<Rightarrow> bool" where
  "is_wildcard seg \<longleftrightarrow> starts_with ''{'' seg \<and> ends_with ''}'' seg"

definition path_segs :: "string \<Rightarrow> string list" where
  "path_segs path = drop 1 (split_on (CHR ''/'') path)"

definition path_matches :: "string \<Rightarrow> string \<Rightarrow> bool" where
  "path_matches pattern input =
     (if pattern = [] \<or> input = [] \<or> ends_with ''/'' pattern \<or> ends_with ''/'' input then False
      else let pat_segs = path_segs pattern; inp_segs = path_segs input
           in if list_ex (\<lambda>s. s = []) pat_segs \<or> list_ex (\<lambda>s. s = []) inp_segs then False
              else if length pat_segs \<noteq> length inp_segs then False
              else list_all (\<lambda>(p, i). is_wildcard p \<or> is_wildcard i \<or> p = i) (zip pat_segs inp_segs))"

definition requires_signature :: "string \<Rightarrow> bool" where
  "requires_signature path =
     (if path \<noteq> ''/v1'' \<and> \<not> starts_with ''/v1/'' path then False
      else \<not> list_ex (\<lambda>exempt. path_matches exempt path) PUBLIC_V1_PATHS)"

section \<open>Paths and their segments\<close>

text \<open>For absolute paths the segments behind the first slash determine the path.\<close>

lemma path_segs_absolute: "split_on (CHR ''/'') (CHR ''/'' # s) = [] # path_segs (CHR ''/'' # s)"
  by (simp add: path_segs_def)

lemma path_segs_inject: "path_segs (CHR ''/'' # s) = path_segs (CHR ''/'' # t) \<Longrightarrow> s = t"
  using split_inject [of "CHR ''/''" s t] by (simp add: path_segs_def)

lemma ends_with_last: "ends_with [c] s \<longleftrightarrow> s \<noteq> [] \<and> last s = c"
  by (cases s rule: rev_cases) (auto simp: string_ops)

section \<open>Characterisation\<close>

definition no_wildcards :: "string \<Rightarrow> bool" where
  "no_wildcards path = list_all (\<lambda>s. \<not> is_wildcard s) (path_segs path)"

lemma ends_with_slash_seg:
  assumes "ends_with ''/'' (CHR ''/'' # s)"
  shows "[] \<in> set (path_segs (CHR ''/'' # s))"
proof -
  have "split_on sep (t @ [sep]) = split_on sep t @ [[]]" for sep :: char and t
  proof (induction t)
    case (Cons c t)
    obtain w ws where "split_on sep t = w # ws" by (cases "split_on sep t") auto
    with Cons show ?case by auto
  qed simp
  moreover from assms obtain t where "CHR ''/'' # s = t @ ''/''" by (auto simp: string_ops)
  ultimately show ?thesis
    by (cases t) (auto simp: path_segs_def)
qed

lemma match_literal:
  assumes "no_wildcards (CHR ''/'' # p)" and "[] \<notin> set (path_segs (CHR ''/'' # p))"
    and "no_wildcards (CHR ''/'' # i)"
  shows "path_matches (CHR ''/'' # p) (CHR ''/'' # i) \<longleftrightarrow> i = p"
proof -
  let ?p = "path_segs (CHR ''/'' # p)" and ?i = "path_segs (CHR ''/'' # i)"
  have eq: "list_all (\<lambda>(p, i). is_wildcard p \<or> is_wildcard i \<or> p = i) (zip xs ys) \<longleftrightarrow> xs = ys"
    if "length xs = length ys" "list_all (\<lambda>s. \<not> is_wildcard s) xs" "list_all (\<lambda>s. \<not> is_wildcard s) ys"
    for xs ys using that by (induction xs ys rule: list_induct2) auto
  have ends: "\<not> ends_with ''/'' (CHR ''/'' # p)" using assms(2) ends_with_slash_seg by blast
  have "path_matches (CHR ''/'' # p) (CHR ''/'' # i) \<longleftrightarrow>
      \<not> ends_with ''/'' (CHR ''/'' # i) \<and> [] \<notin> set ?i \<and> ?p = ?i"
    using ends assms(2) eq [of ?p ?i] assms(1,3)
    by (auto simp: path_matches_def Let_def list_ex_iff no_wildcards_def)
  also have "\<dots> \<longleftrightarrow> i = p"
    using assms(2) ends path_segs_inject by auto
  finally show ?thesis .
qed

lemma public_literals:
  assumes "no_wildcards (CHR ''/'' # i)"
  shows "path_matches ''/v1/auth/status'' (CHR ''/'' # i) \<longleftrightarrow> i = ''v1/auth/status''"
    "path_matches ''/v1/credentials/ssh/ca'' (CHR ''/'' # i) \<longleftrightarrow> i = ''v1/credentials/ssh/ca''"
    "path_matches ''/v1/credentials/ssh/krl'' (CHR ''/'' # i) \<longleftrightarrow> i = ''v1/credentials/ssh/krl''"
    "path_matches ''/v1/credentials/github/status'' (CHR ''/'' # i) \<longleftrightarrow> i = ''v1/credentials/github/status''"
  by (rule match_literal [OF _ _ assms]; code_simp)+

lemma length_5: "length xs = 5 \<Longrightarrow> \<exists>a b c d e. xs = [a, b, c, d, e]"
  by (auto simp: eval_nat_numeral length_Suc_conv)

lemma match_krl_serial:
  assumes "no_wildcards (CHR ''/'' # i)"
  shows "path_matches ''/v1/credentials/ssh/krl/{serial}'' (CHR ''/'' # i) \<longleftrightarrow>
           (\<exists>seg. seg \<noteq> [] \<and> CHR ''/'' \<notin> set seg \<and> i = ''v1/credentials/ssh/krl/'' @ seg)"
proof
  let ?i = "path_segs (CHR ''/'' # i)"
  assume m: "path_matches ''/v1/credentials/ssh/krl/{serial}'' (CHR ''/'' # i)"
  have segs: "path_segs ''/v1/credentials/ssh/krl/{serial}''
      = [''v1'', ''credentials'', ''ssh'', ''krl'', ''{serial}'']" by code_simp
  have all: "length ?i = 5 \<and> [] \<notin> set ?i
      \<and> list_all (\<lambda>(p, i). is_wildcard p \<or> is_wildcard i \<or> p = i)
          (zip [''v1'', ''credentials'', ''ssh'', ''krl'', ''{serial}''] ?i)"
    using m unfolding path_matches_def Let_def segs by (simp add: list_ex_iff split: if_splits)
  obtain a b c d e where abc: "?i = [a, b, c, d, e]"
    using all length_5 [of ?i] by blast
  have "\<not> is_wildcard ''v1''" "\<not> is_wildcard ''credentials''" "\<not> is_wildcard ''ssh''"
    "\<not> is_wildcard ''krl''" by code_simp+
  with all abc have i: "?i = [''v1'', ''credentials'', ''ssh'', ''krl'', e]" "e \<noteq> []"
    using assms unfolding no_wildcards_def by auto
  have "i = join_on (CHR ''/'') ?i"
    using join_split [of "CHR ''/''" i] by (simp add: path_segs_def)
  moreover have "CHR ''/'' \<notin> set e"
    using split_on_sep_free [of e "CHR ''/''" i] i by (simp add: path_segs_def)
  ultimately show "\<exists>seg. seg \<noteq> [] \<and> CHR ''/'' \<notin> set seg \<and> i = ''v1/credentials/ssh/krl/'' @ seg"
    using i by auto
next
  assume "\<exists>seg. seg \<noteq> [] \<and> CHR ''/'' \<notin> set seg \<and> i = ''v1/credentials/ssh/krl/'' @ seg"
  then obtain seg where seg: "seg \<noteq> []" "CHR ''/'' \<notin> set seg" "i = ''v1/credentials/ssh/krl/'' @ seg" by blast
  have i: "path_segs (CHR ''/'' # i) = [''v1'', ''credentials'', ''ssh'', ''krl'', seg]"
    using split_on_last [OF seg(2)] by (simp add: path_segs_def seg(3))
  have "\<not> ends_with ''/'' (CHR ''/'' # i)"
  proof -
    have "last seg \<noteq> CHR ''/''" using seg(2) last_in_set [OF seg(1)] by metis
    then show ?thesis using seg(1,3) by (simp add: ends_with_last)
  qed
  moreover have "path_segs ''/v1/credentials/ssh/krl/{serial}''
      = [''v1'', ''credentials'', ''ssh'', ''krl'', ''{serial}'']" "is_wildcard ''{serial}''"
    "\<not> ends_with ''/'' ''/v1/credentials/ssh/krl/{serial}''" by code_simp+
  ultimately show "path_matches ''/v1/credentials/ssh/krl/{serial}'' (CHR ''/'' # i)"
    using i seg(1) by (simp add: path_matches_def)
qed

text \<open>
  the policy. A path without brace segments needs a signature exactly if it is under
  \<open>/v1\<close> and none of the public ones: the four literal paths, and the revocation list of one
  serial number. Trailing or doubled slashes, further segments and other spellings do not
  make a path public.
\<close>

theorem requires_signature_iff:
  assumes "no_wildcards path"
  shows "requires_signature path \<longleftrightarrow>
           (path = ''/v1'' \<or> starts_with ''/v1/'' path)
           \<and> path \<notin> {''/v1/auth/status'', ''/v1/credentials/ssh/ca'', ''/v1/credentials/ssh/krl'',
                     ''/v1/credentials/github/status''}
           \<and> (\<nexists>seg. seg \<noteq> [] \<and> CHR ''/'' \<notin> set seg \<and> path = ''/v1/credentials/ssh/krl/'' @ seg)"
proof (cases "path = ''/v1'' \<or> starts_with ''/v1/'' path")
  case True
  then obtain i where i: "path = CHR ''/'' # i" by (auto simp: string_ops)
  note m = public_literals [OF assms [unfolded i]] match_krl_serial [OF assms [unfolded i]]
  have "list_ex (\<lambda>exempt. path_matches exempt path) PUBLIC_V1_PATHS \<longleftrightarrow>
      path \<in> {''/v1/auth/status'', ''/v1/credentials/ssh/ca'', ''/v1/credentials/ssh/krl'',
              ''/v1/credentials/github/status''}
      \<or> (\<exists>seg. seg \<noteq> [] \<and> CHR ''/'' \<notin> set seg \<and> path = ''/v1/credentials/ssh/krl/'' @ seg)"
    unfolding PUBLIC_V1_PATHS_def i by (simp add: m disj_ac)
  with True show ?thesis unfolding requires_signature_def by argo
qed (simp add: requires_signature_def)

theorem requires_signature_iff_witness:
  "requires_signature ''/v1/credentials/ssh/krl/'' \<and> \<not> requires_signature ''/v1/credentials/ssh/krl/7''"
proof -
  have w: "no_wildcards ''/v1/credentials/ssh/krl/''" "no_wildcards ''/v1/credentials/ssh/krl/7''"
    by code_simp+
  from requires_signature_iff [OF w(1)] requires_signature_iff [OF w(2)] show ?thesis
    by (simp add: starts_with_def)
qed

end
