(* ===== verification/Db_Documents.thy ===== *)
theory Db_Documents
  imports Vouch_Prelude
begin

text \<open>
  The documents of the server's store that carry single-use credentials and their kin, with
  the type name, the searchable entries and the expiry each declares
  (\<open>vouch-server/src/db/documents/*.rs\<close>). Documents of any other type appear with what the
  store reads of them: type name, entries, expiry and content.
\<close>

section \<open>Document types\<close>

datatype response_mode = Query | Jwt | FormPost

datatype device_auth_status = DPending | DAuthorized | DDenied | DConsumed

record authorization_code_doc =
  ac_code_hash :: string
  ac_client_id :: string
  ac_user_id :: string
  ac_expires_at :: timestamp
  ac_consumed_at :: "timestamp option"
  ac_authorization_details :: "json option"

record device_auth_request_doc =
  da_device_code_hash :: string
  da_user_code :: string
  da_status :: device_auth_status
  da_client_id :: "string option"
  da_user_id :: "string option"
  da_user_email :: "string option"
  da_authenticator_id :: "string option"
  da_hardware_verified :: bool
  da_authenticated_at :: "timestamp option"
  da_expires_at :: timestamp
  da_interval_seconds :: int
  da_last_poll_at :: "timestamp option"
  da_consumed_at :: "timestamp option"

record oidc_state_doc =
  os_state :: string
  os_device_auth_id :: string
  os_nonce :: string
  os_code_verifier :: string
  os_expires_at :: timestamp
  os_provider_id :: string
  os_consumed_at :: "timestamp option"

record pushed_authorization_request_doc =
  par_request_uri :: string
  par_client_id :: string
  par_response_type :: string
  par_redirect_uri :: string
  par_scope :: "string option"
  par_state :: "string option"
  par_nonce :: "string option"
  par_code_challenge :: "string option"
  par_code_challenge_method :: "string option"
  par_resource :: "string option"
  par_acr_values :: "string option"
  par_max_age :: "int option"
  par_prompt :: "string option"
  par_dpop_jkt :: "string option"
  par_expires_at :: timestamp
  par_consumed_at :: "timestamp option"
  par_authorization_details :: "json option"
  par_response_mode :: response_mode

record pending_oauth_auth_doc =
  po_client_id :: string
  po_redirect_uri :: string
  po_response_type :: string
  po_state :: "string option"
  po_scope :: "string option"
  po_nonce :: "string option"
  po_code_challenge :: "string option"
  po_code_challenge_method :: "string option"
  po_expires_at :: timestamp
  po_consumed_at :: "timestamp option"
  po_resource :: "string option"
  po_acr_values :: "string option"
  po_max_age :: "int option"
  po_prompt :: "string option"
  po_dpop_jkt :: "string option"
  po_authorization_details :: "json option"
  po_response_mode :: response_mode
  po_par_request_uri :: "string option"

record authenticator_doc =
  au_user_id :: string
  au_user_email :: string
  au_name :: string
  au_credential_id :: string
  au_public_key :: string
  au_counter :: u32
  au_aaguid :: "string option"
  au_user_handle :: "string option"
  au_attestation_verified :: bool

text \<open>The counter of an authenticator is kept as the 32 bits that the column holds.\<close>

datatype document =
  AuthorizationCode authorization_code_doc
| DeviceAuthRequest device_auth_request_doc
| OidcState oidc_state_doc
| PushedAuthorizationRequest pushed_authorization_request_doc
| PendingOAuthAuth pending_oauth_auth_doc
| Authenticator authenticator_doc
| DpopNonce string timestamp
| SignatureNonce string timestamp
| DpopJti string timestamp
| JwtAssertionJti string string timestamp
| ChallengeState timestamp
| OtherDocument string "(string \<times> string) list" "timestamp option" json

section \<open>What each type declares\<close>

fun doc_type :: "document \<Rightarrow> string" where
  "doc_type (AuthorizationCode d) = ''authorization_code''"
| "doc_type (DeviceAuthRequest d) = ''device_auth_request''"
| "doc_type (OidcState d) = ''oidc_state''"
| "doc_type (PushedAuthorizationRequest d) = ''pushed_authorization_request''"
| "doc_type (PendingOAuthAuth d) = ''pending_oauth_auth''"
| "doc_type (Authenticator d) = ''authenticator''"
| "doc_type (DpopNonce n t) = ''dpop_nonce''"
| "doc_type (SignatureNonce n t) = ''signature_nonce''"
| "doc_type (DpopJti j t) = ''dpop_jti''"
| "doc_type (JwtAssertionJti j c t) = ''jwt_assertion_jti''"
| "doc_type (ChallengeState t) = ''challenge_state''"
| "doc_type (OtherDocument ty es t c) = ty"

definition entry_if :: "string \<Rightarrow> string option \<Rightarrow> (string \<times> string) list" where
  "entry_if field v = (case v of None \<Rightarrow> [] | Some x \<Rightarrow> [(field, x)])"

fun index_entries :: "document \<Rightarrow> (string \<times> string) list" where
  "index_entries (AuthorizationCode d) = [(''code_hash'', ac_code_hash d)]"
| "index_entries (DeviceAuthRequest d) =
     [(''device_code_hash'', da_device_code_hash d), (''user_code'', da_user_code d)]
     @ entry_if ''user_id'' (da_user_id d) @ entry_if ''authenticator_id'' (da_authenticator_id d)"
| "index_entries (OidcState d) = [(''state'', os_state d)]"
| "index_entries (PushedAuthorizationRequest d) = [(''request_uri'', par_request_uri d)]"
| "index_entries (PendingOAuthAuth d) = []"
| "index_entries (Authenticator d) =
     [(''user_id'', au_user_id d), (''credential_id'', au_credential_id d)]"
| "index_entries (DpopNonce n t) = []"
| "index_entries (SignatureNonce n t) = []"
| "index_entries (DpopJti j t) = []"
| "index_entries (JwtAssertionJti j c t) = []"
| "index_entries (ChallengeState t) = []"
| "index_entries (OtherDocument ty es t c) = es"

fun doc_expires :: "document \<Rightarrow> timestamp option" where
  "doc_expires (AuthorizationCode d) = Some (ac_expires_at d)"
| "doc_expires (DeviceAuthRequest d) = Some (da_expires_at d)"
| "doc_expires (OidcState d) = Some (os_expires_at d)"
| "doc_expires (PushedAuthorizationRequest d) = Some (par_expires_at d)"
| "doc_expires (PendingOAuthAuth d) = Some (po_expires_at d)"
| "doc_expires (Authenticator d) = None"
| "doc_expires (DpopNonce n t) = Some t"
| "doc_expires (SignatureNonce n t) = Some t"
| "doc_expires (DpopJti j t) = Some t"
| "doc_expires (JwtAssertionJti j c t) = Some t"
| "doc_expires (ChallengeState t) = Some t"
| "doc_expires (OtherDocument ty es t c) = t"

text \<open>
  A document type as the store's generic functions take it: its name, and the reading of a
  stored document as a value of the type.
\<close>

record 'd doctype =
  dt_name :: string
  dt_inj :: "'d \<Rightarrow> document"
  dt_proj :: "document \<Rightarrow> 'd option"

definition code_type :: "authorization_code_doc doctype" where
  "code_type = \<lparr>dt_name = ''authorization_code'', dt_inj = AuthorizationCode,
     dt_proj = (\<lambda>d. case d of AuthorizationCode x \<Rightarrow> Some x | _ \<Rightarrow> None)\<rparr>"

definition device_type :: "device_auth_request_doc doctype" where
  "device_type = \<lparr>dt_name = ''device_auth_request'', dt_inj = DeviceAuthRequest,
     dt_proj = (\<lambda>d. case d of DeviceAuthRequest x \<Rightarrow> Some x | _ \<Rightarrow> None)\<rparr>"

definition oidc_type :: "oidc_state_doc doctype" where
  "oidc_type = \<lparr>dt_name = ''oidc_state'', dt_inj = OidcState,
     dt_proj = (\<lambda>d. case d of OidcState x \<Rightarrow> Some x | _ \<Rightarrow> None)\<rparr>"

definition par_type :: "pushed_authorization_request_doc doctype" where
  "par_type = \<lparr>dt_name = ''pushed_authorization_request'', dt_inj = PushedAuthorizationRequest,
     dt_proj = (\<lambda>d. case d of PushedAuthorizationRequest x \<Rightarrow> Some x | _ \<Rightarrow> None)\<rparr>"

definition pending_type :: "pending_oauth_auth_doc doctype" where
  "pending_type = \<lparr>dt_name = ''pending_oauth_auth'', dt_inj = PendingOAuthAuth,
     dt_proj = (\<lambda>d. case d of PendingOAuthAuth x \<Rightarrow> Some x | _ \<Rightarrow> None)\<rparr>"

definition authenticator_type :: "authenticator_doc doctype" where
  "authenticator_type = \<lparr>dt_name = ''authenticator'', dt_inj = Authenticator,
     dt_proj = (\<lambda>d. case d of Authenticator x \<Rightarrow> Some x | _ \<Rightarrow> None)\<rparr>"

definition dpop_nonce_type :: "(string \<times> timestamp) doctype" where
  "dpop_nonce_type = \<lparr>dt_name = ''dpop_nonce'', dt_inj = (\<lambda>(n, t). DpopNonce n t),
     dt_proj = (\<lambda>d. case d of DpopNonce n t \<Rightarrow> Some (n, t) | _ \<Rightarrow> None)\<rparr>"

definition sig_nonce_type :: "(string \<times> timestamp) doctype" where
  "sig_nonce_type = \<lparr>dt_name = ''signature_nonce'', dt_inj = (\<lambda>(n, t). SignatureNonce n t),
     dt_proj = (\<lambda>d. case d of SignatureNonce n t \<Rightarrow> Some (n, t) | _ \<Rightarrow> None)\<rparr>"

definition dpop_jti_type :: "(string \<times> timestamp) doctype" where
  "dpop_jti_type = \<lparr>dt_name = ''dpop_jti'', dt_inj = (\<lambda>(j, t). DpopJti j t),
     dt_proj = (\<lambda>d. case d of DpopJti j t \<Rightarrow> Some (j, t) | _ \<Rightarrow> None)\<rparr>"

definition assertion_jti_type :: "(string \<times> string \<times> timestamp) doctype" where
  "assertion_jti_type = \<lparr>dt_name = ''jwt_assertion_jti'', dt_inj = (\<lambda>(j, c, t). JwtAssertionJti j c t),
     dt_proj = (\<lambda>d. case d of JwtAssertionJti j c t \<Rightarrow> Some (j, c, t) | _ \<Rightarrow> None)\<rparr>"

definition challenge_type :: "timestamp doctype" where
  "challenge_type = \<lparr>dt_name = ''challenge_state'', dt_inj = ChallengeState,
     dt_proj = (\<lambda>d. case d of ChallengeState t \<Rightarrow> Some t | _ \<Rightarrow> None)\<rparr>"

definition raw_type :: "string \<Rightarrow> document doctype" where
  "raw_type ty = \<lparr>dt_name = ty, dt_inj = id, dt_proj = Some\<rparr>"

text \<open>The two directions of a type fit: what every generic function relies on.\<close>

definition doctype_ok :: "'d doctype \<Rightarrow> bool" where
  "doctype_ok T \<longleftrightarrow> (\<forall>d x. dt_proj T d = Some x \<longleftrightarrow> d = dt_inj T x) \<and> (\<forall>x. doc_type (dt_inj T x) = dt_name T)"

lemma doctypes_ok [simp]:
  "doctype_ok code_type" "doctype_ok device_type" "doctype_ok oidc_type" "doctype_ok par_type"
  "doctype_ok pending_type" "doctype_ok authenticator_type" "doctype_ok dpop_nonce_type"
  "doctype_ok sig_nonce_type" "doctype_ok dpop_jti_type" "doctype_ok assertion_jti_type" "doctype_ok challenge_type"
  by (auto simp: doctype_ok_def code_type_def device_type_def oidc_type_def par_type_def pending_type_def
      authenticator_type_def dpop_nonce_type_def sig_nonce_type_def dpop_jti_type_def assertion_jti_type_def
      challenge_type_def split: document.splits)

end
