(* ===== verification/Interleaving.thy ===== *)
theory Interleaving
  imports Vouch_Prelude
begin

text \<open>
  Concurrent tasks over a shared state. An asynchronous function of the server is a program:
  it returns, or it takes one atomic step on the shared state and goes on. A step gets an
  environment, which holds what the step takes from outside: clock, random values, failures.
  A system is a list of tasks of which any may take its next step at any time, may wait
  forever, and to which a new task may be added at any time. A ghost component records what
  the steps did to the state; no program reads it.

  The locale \<open>interference\<close> proves the properties of all interleavings from a contract per
  program, its obligation under whatever the other tasks may do.
\<close>

section \<open>Programs\<close>

datatype ('e, 's, 'r) prog = Ret 'r | Act "'e \<Rightarrow> 's \<Rightarrow> ('e, 's, 'r) prog \<times> 's"

primrec prog_bind :: "('e, 's, 'a) prog \<Rightarrow> ('a \<Rightarrow> ('e, 's, 'b) prog) \<Rightarrow> ('e, 's, 'b) prog" where
  "prog_bind (Ret a) k = k a"
| "prog_bind (Act f) k = Act (\<lambda>e s. map_prod (\<lambda>p. prog_bind p k) id (f e s))"

text \<open>An uninterrupted run, one environment per step; nothing when the environments run out.\<close>

fun run_prog :: "('e, 's, 'r) prog \<Rightarrow> 'e list \<Rightarrow> 's \<Rightarrow> ('r \<times> 's) option" where
  "run_prog (Ret r) es s = Some (r, s)"
| "run_prog (Act f) [] s = None"
| "run_prog (Act f) (e # es) s = (case f e s of (p, s') \<Rightarrow> run_prog p es s')"

text \<open>A program that takes at most so many steps, whatever it finds in them.\<close>

inductive within :: "nat \<Rightarrow> ('e, 's, 'r) prog \<Rightarrow> bool" where
  ret: "within n (Ret r)"
| act: "(\<And>e s. within n (fst (f e s))) \<Longrightarrow> within (Suc n) (Act f)"

lemma within_mono: "within n p \<Longrightarrow> n \<le> m \<Longrightarrow> within m p"
proof (induction arbitrary: m rule: within.induct)
  case (act n f)
  then obtain k where m: "m = Suc k" "n \<le> k" by (cases m) auto
  then show ?case using act.IH by (auto intro: within.act)
qed (rule within.ret)

lemma within_bind:
  assumes "within n p" and "\<And>r. within m (k r)"
  shows "within (n + m) (prog_bind p k)"
  using assms(1)
proof (induction rule: within.induct)
  case (ret n r)
  show ?case using within_mono [OF assms(2)] by simp
next
  case (act n f)
  then have "within (n + m) (fst (map_prod (\<lambda>p. prog_bind p k) id (f e s)))" for e s by simp
  then show ?case by (auto intro: within.act)
qed

lemma within_run: "within n p \<Longrightarrow> n \<le> length es \<Longrightarrow> run_prog p es s \<noteq> None"
proof (induction arbitrary: es s rule: within.induct)
  case (act n f)
  then obtain e es' where es: "es = e # es'" "n \<le> length es'" by (cases es) auto
  then show ?case using act.IH by (simp add: case_prod_beta)
qed simp

section \<open>Tasks that share a state\<close>

record ('q, 'e, 's, 'r, 'g) sys =
  sys_state :: 's
  sys_tasks :: "('q \<times> ('e, 's, 'r) prog) list"
  sys_ghost :: 'g

inductive sys_reach ::
    "('q \<Rightarrow> ('e, 's, 'r) prog) \<Rightarrow> ('e \<Rightarrow> 's \<Rightarrow> 'g \<Rightarrow> bool) \<Rightarrow> (nat \<Rightarrow> 'q \<Rightarrow> 'e \<Rightarrow> 's \<Rightarrow> 's \<Rightarrow> 'g \<Rightarrow> 'g)
       \<Rightarrow> 's \<Rightarrow> 'g \<Rightarrow> ('q, 'e, 's, 'r, 'g) sys \<Rightarrow> bool"
  for serve env_ok obs s0 g0 where
  start: "sys_reach serve env_ok obs s0 g0 \<lparr>sys_state = s0, sys_tasks = [], sys_ghost = g0\<rparr>"
| spawn: "sys_reach serve env_ok obs s0 g0 y \<Longrightarrow>
    sys_reach serve env_ok obs s0 g0 (y\<lparr>sys_tasks := sys_tasks y @ [(q, serve q)]\<rparr>)"
| act: "\<lbrakk>sys_reach serve env_ok obs s0 g0 y; i < length (sys_tasks y); sys_tasks y ! i = (q, Act f);
     env_ok e (sys_state y) (sys_ghost y); f e (sys_state y) = (p, s')\<rbrakk> \<Longrightarrow>
    sys_reach serve env_ok obs s0 g0
      \<lparr>sys_state = s', sys_tasks = (sys_tasks y)[i := (q, p)],
       sys_ghost = obs i q e (sys_state y) s' (sys_ghost y)\<rparr>"

text \<open>A task run to its end without the others, with what the ghost component records.\<close>

fun run_with ::
    "('e \<Rightarrow> 's \<Rightarrow> 'g \<Rightarrow> bool) \<Rightarrow> ('e \<Rightarrow> 's \<Rightarrow> 's \<Rightarrow> 'g \<Rightarrow> 'g) \<Rightarrow> ('e, 's, 'r) prog \<Rightarrow> 'e list \<Rightarrow> 's \<Rightarrow> 'g \<Rightarrow> ('r \<times> 's \<times> 'g) option" where
  "run_with ok ob (Ret r) es s g = Some (r, s, g)"
| "run_with ok ob (Act f) [] s g = None"
| "run_with ok ob (Act f) (e # es) s g =
     (if ok e s g then case f e s of (p, s') \<Rightarrow> run_with ok ob p es s' (ob e s s' g) else None)"

lemma reach_run:
  assumes "sys_reach serve env_ok obs s0 g0 y" and "i < length (sys_tasks y)" and "sys_tasks y ! i = (q, p)"
    and "\<And>e s g. ok e s g \<Longrightarrow> env_ok e s g"
    and "run_with ok (obs i q) p es (sys_state y) (sys_ghost y) = Some (r, s', g')"
  shows "sys_reach serve env_ok obs s0 g0 \<lparr>sys_state = s', sys_tasks = (sys_tasks y)[i := (q, Ret r)], sys_ghost = g'\<rparr>"
  using assms
proof (induction ok "obs i q" p es "sys_state y" "sys_ghost y" arbitrary: y rule: run_with.induct)
  case (1 ok r' es y)
  then have "(sys_tasks y)[i := (q, Ret r)] = sys_tasks y" by (metis list_update_id option.inject prod.inject run_with.simps(1))
  then show ?case using 1 by (cases y) auto
next
  case (3 ok f e es y)
  obtain p s1 where f: "f e (sys_state y) = (p, s1)" by fastforce
  have ok: "ok e (sys_state y) (sys_ghost y)" using 3(6) by (simp split: if_splits)
  let ?y = "\<lparr>sys_state = s1, sys_tasks = (sys_tasks y)[i := (q, p)], sys_ghost = obs i q e (sys_state y) s1 (sys_ghost y)\<rparr>"
  have "sys_reach serve env_ok obs s0 g0 ?y"
    using sys_reach.act [OF 3(2,3,4) 3(5) [OF ok] f] .
  then show ?case
    using 3(1) [OF ok, of p ?y] 3(3-6) f ok by simp
qed simp

text \<open>
  A task keeps its contract at a state: whatever the others do to the state within \<open>rely\<close>,
  its next step stays within \<open>rely\<close> and keeps the invariant, and its result meets \<open>post\<close>.
\<close>

inductive keeps ::
    "('e \<Rightarrow> 's \<Rightarrow> 'g \<Rightarrow> bool) \<Rightarrow> ('e \<Rightarrow> 's \<Rightarrow> 's \<Rightarrow> 'g \<Rightarrow> 'g) \<Rightarrow> ('s \<Rightarrow> 'g \<Rightarrow> bool)
       \<Rightarrow> ('s \<Rightarrow> 'g \<Rightarrow> 's \<Rightarrow> 'g \<Rightarrow> bool) \<Rightarrow> ('r \<Rightarrow> 's \<Rightarrow> 'g \<Rightarrow> bool)
       \<Rightarrow> ('e, 's, 'r) prog \<Rightarrow> 's \<Rightarrow> 'g \<Rightarrow> bool"
  for env_ok obs invar rely post where
  ret: "(\<And>s' g'. rely s g s' g' \<Longrightarrow> invar s' g' \<Longrightarrow> post r s' g') \<Longrightarrow>
    keeps env_ok obs invar rely post (Ret r) s g"
| act: "(\<And>e s' g' p s''. rely s g s' g' \<Longrightarrow> invar s' g' \<Longrightarrow> env_ok e s' g' \<Longrightarrow> f e s' = (p, s'') \<Longrightarrow>
      rely s' g' s'' (obs e s' s'' g') \<and> invar s'' (obs e s' s'' g')
      \<and> keeps env_ok obs invar rely post p s'' (obs e s' s'' g')) \<Longrightarrow>
    keeps env_ok obs invar rely post (Act f) s g"

inductive_cases keeps_RetE: "keeps env_ok obs invar rely post (Ret r) s g"
inductive_cases keeps_ActE: "keeps env_ok obs invar rely post (Act f) s g"

lemma keeps_RetD:
  "keeps env_ok obs invar rely post (Ret r) s g \<Longrightarrow> rely s g s' g' \<Longrightarrow> invar s' g' \<Longrightarrow> post r s' g'"
  by (erule keeps_RetE) simp

lemma keeps_ActD:
  "keeps env_ok obs invar rely post (Act f) s g \<Longrightarrow> rely s g s' g' \<Longrightarrow> invar s' g' \<Longrightarrow> env_ok e s' g' \<Longrightarrow>
     f e s' = (p, s'') \<Longrightarrow>
     rely s' g' s'' (obs e s' s'' g') \<and> invar s'' (obs e s' s'' g')
     \<and> keeps env_ok obs invar rely post p s'' (obs e s' s'' g')"
  by (erule keeps_ActE) simp

lemma keeps_bind:
  assumes "keeps env_ok obs invar rely P p s g" and "invar s g" and "\<And>s g. invar s g \<Longrightarrow> rely s g s g"
    and "\<And>r s g. P r s g \<Longrightarrow> invar s g \<Longrightarrow> keeps env_ok obs invar rely Q (k r) s g"
  shows "keeps env_ok obs invar rely Q (prog_bind p k) s g"
  using assms(1,2)
proof (induction rule: keeps.induct)
  case (ret s g r)
  then show ?case using assms(3,4) by simp
next
  case (act s g f)
  show ?case
    unfolding prog_bind.simps
  proof (rule keeps.act)
    fix e s' g' p s''
    assume r: "rely s g s' g'" "invar s' g'" "env_ok e s' g'"
      and f: "map_prod (\<lambda>p. prog_bind p k) id (f e s') = (p, s'')"
    then obtain q where q: "f e s' = (q, s'')" and p: "p = prog_bind q k"
      by (cases "f e s'") auto
    from act.IH [OF r q]
    show "rely s' g' s'' (obs e s' s'' g') \<and> invar s'' (obs e s' s'' g')
        \<and> keeps env_ok obs invar rely Q p s'' (obs e s' s'' g')"
      unfolding p by blast
  qed
qed

locale interference =
  fixes serve :: "'q \<Rightarrow> ('e, 's, 'r) prog"
    and env_ok :: "'e \<Rightarrow> 's \<Rightarrow> 'g \<Rightarrow> bool"
    and obs :: "nat \<Rightarrow> 'q \<Rightarrow> 'e \<Rightarrow> 's \<Rightarrow> 's \<Rightarrow> 'g \<Rightarrow> 'g"
    and invar :: "'s \<Rightarrow> 'g \<Rightarrow> bool"
    and rely :: "'s \<Rightarrow> 'g \<Rightarrow> 's \<Rightarrow> 'g \<Rightarrow> bool"
    and post :: "nat \<Rightarrow> 'q \<Rightarrow> 'r \<Rightarrow> 's \<Rightarrow> 'g \<Rightarrow> bool"
    and s0 :: 's and g0 :: 'g
  assumes rely_refl: "invar s g \<Longrightarrow> rely s g s g"
    and rely_trans: "rely s g s' g' \<Longrightarrow> rely s' g' s'' g'' \<Longrightarrow> rely s g s'' g''"
    and inv_start: "invar s0 g0"
    and serve_keeps: "invar s g \<Longrightarrow> keeps env_ok (obs i q) invar rely (post i q) (serve q) s g"
begin

lemma keeps_stable:
  assumes "keeps env_ok ob invar rely P p s g" and "rely s g s' g'"
  shows "keeps env_ok ob invar rely P p s' g'"
proof (cases p)
  case (Ret r)
  with assms show ?thesis
    by (auto intro!: keeps.ret intro: keeps_RetD rely_trans)
next
  case (Act f)
  show ?thesis
    unfolding Act
  proof (rule keeps.act)
    fix e t h p u
    assume "rely s' g' t h" and iv: "invar t h" "env_ok e t h" "f e t = (p, u)"
    then have "rely s g t h" using rely_trans assms(2) by blast
    from keeps_ActD [OF assms(1) [unfolded Act] this iv]
    show "rely t h u (ob e t u h) \<and> invar u (ob e t u h)
        \<and> keeps env_ok ob invar rely P p u (ob e t u h)" .
  qed
qed

lemma reach_keeps:
  assumes "sys_reach serve env_ok obs s0 g0 y"
  shows "invar (sys_state y) (sys_ghost y)
     \<and> (\<forall>i < length (sys_tasks y).
          keeps env_ok (obs i (fst (sys_tasks y ! i))) invar rely (post i (fst (sys_tasks y ! i))) (snd (sys_tasks y ! i))
            (sys_state y) (sys_ghost y))"
  using assms
proof (induction rule: sys_reach.induct)
  case start
  then show ?case by (simp add: inv_start)
next
  case (spawn y q)
  then show ?case by (auto simp: nth_append less_Suc_eq serve_keeps)
next
  case (act y i q f e p s')
  let ?g = "obs i q e (sys_state y) s' (sys_ghost y)"
  have k: "keeps env_ok (obs i q) invar rely (post i q) (Act f) (sys_state y) (sys_ghost y)"
    using act by (metis fst_conv snd_conv)
  have "rely (sys_state y) (sys_ghost y) s' ?g \<and> invar s' ?g
      \<and> keeps env_ok (obs i q) invar rely (post i q) p s' ?g"
    using keeps_ActD [OF k rely_refl] act by blast
  then have st: "rely (sys_state y) (sys_ghost y) s' ?g" and iv: "invar s' ?g"
    and kp: "keeps env_ok (obs i q) invar rely (post i q) p s' ?g"
    by blast+
  have "keeps env_ok (obs j (fst (sys_tasks y ! j))) invar rely (post j (fst (sys_tasks y ! j))) (snd (sys_tasks y ! j)) s' ?g"
    if "j < length (sys_tasks y)" for j
    using act.IH that keeps_stable [OF _ st] by blast
  with iv kp act.hyps(2) show ?case
    by (auto simp: nth_list_update split: if_splits)
qed

lemma reach_invar: "sys_reach serve env_ok obs s0 g0 y \<Longrightarrow> invar (sys_state y) (sys_ghost y)"
  using reach_keeps by blast

lemma reach_post:
  assumes "sys_reach serve env_ok obs s0 g0 y" and "i < length (sys_tasks y)"
    and "sys_tasks y ! i = (q, Ret r)"
  shows "post i q r (sys_state y) (sys_ghost y)"
proof -
  from reach_keeps [OF assms(1)] assms(2,3)
  have "keeps env_ok (obs i q) invar rely (post i q) (Ret r) (sys_state y) (sys_ghost y)"
    by (metis fst_conv snd_conv)
  then show ?thesis
    using keeps_RetD rely_refl reach_invar [OF assms(1)] by metis
qed

end

end
