(* ===== verification/Db_Store.thy ===== *)
theory Db_Store
  imports Db_Documents Interleaving "HOL-Library.List_Lexorder" "HOL-Library.Char_ord"
begin

text \<open>
  The document store (\<open>vouch-server/src/db/store.rs\<close>) and the retries of
  \<open>vouch-server/src/db/pool.rs\<close>. The state is the content of the two tables. Every SQL
  statement outside a transaction and every transaction is one atomic step, a transaction
  that reads before it writes under guards is two. Between the steps of an operation the
  other tasks of the server take theirs. The environment of a step is what it takes from
  outside: the clock, a fresh UUID, random text, which of several equally new rows the
  database returns, and whether the backend fails; a failure may also come after the commit.
  A clock reading or UUID that only feeds a statement belongs to the step of the statement.

  Sealing and serialization are inverse to opening and deserialization and do not appear:
  the data column holds the document. The keyed hash of index values and the text form of a
  timestamp are parameters.
\<close>

section \<open>Tables, errors, environment\<close>

record row =
  row_id :: string
  row_type :: string
  row_data :: document
  row_expires :: "timestamp option"
  row_created :: timestamp
  row_updated :: timestamp
  row_version :: int
  row_last_used :: "timestamp option"

record index_row =
  ix_doc :: string
  ix_field :: string
  ix_value :: string

record db =
  db_rows :: "row list"
  db_indexes :: "index_row list"

record store_cfg =
  sc_hmac :: "string \<Rightarrow> string"
  sc_text :: "timestamp \<Rightarrow> string"

datatype db_error =
  SqlState string
| UniqueViolation
| InvalidIndexValue string
| VersionConflict string int
| IndexedUpsert string
| DecodeFailed
| ConflictAfterRetries string
| OtherError string

datatype db_outcome = Fine | Fails string | CommitLost

record db_env =
  e_now :: timestamp
  e_uuid :: string
  e_random :: string
  e_pick :: nat
  e_outcome :: db_outcome

type_synonym 'a dbp = "(db_env, db, 'a) prog"
type_synonym 'a dbr = "(db_env, db, db_error + 'a) prog"

text \<open>A document with the metadata of its row.\<close>

record 'd stored =
  st_id :: string
  st_data :: 'd
  st_created :: timestamp
  st_updated :: timestamp
  st_version :: int
  st_last_used :: "timestamp option"

section \<open>Retries\<close>

definition MAX_DSQL_RETRIES :: nat where
  "MAX_DSQL_RETRIES = 3"

definition RETRYABLE_SQL_STATES :: "string list" where
  "RETRYABLE_SQL_STATES =
     [''40001'', ''OC000'', ''OC001'', ''5'', ''6'', ''261'', ''517'', ''773'', ''262'', ''518'']"

definition is_retryable_code :: "string \<Rightarrow> bool" where
  "is_retryable_code code \<longleftrightarrow> code \<in> set RETRYABLE_SQL_STATES"

definition is_retryable_db_error :: "db_error \<Rightarrow> bool" where
  "is_retryable_db_error er =
     (case er of VersionConflict _ _ \<Rightarrow> True | SqlState code \<Rightarrow> is_retryable_code code | _ \<Rightarrow> False)"

definition is_unique_violation :: "db_error \<Rightarrow> bool" where
  "is_unique_violation er \<longleftrightarrow> er = UniqueViolation"

primrec with_retries :: "('er \<Rightarrow> bool) \<Rightarrow> nat \<Rightarrow> (db_env, db, 'er + 'a) prog \<Rightarrow> (db_env, db, 'er + 'a) prog" where
  "with_retries retryable 0 body = body"
| "with_retries retryable (Suc n) body =
     prog_bind body (\<lambda>r. case r of
        Inr v \<Rightarrow> Ret (Inr v)
      | Inl er \<Rightarrow> if retryable er then with_retries retryable n body else Ret (Inl er))"

definition with_dsql_retry :: "'a dbr \<Rightarrow> 'a dbr" where
  "with_dsql_retry body = with_retries is_retryable_db_error MAX_DSQL_RETRIES body"

text \<open>The delay before a retry in milliseconds, from the subsecond nanoseconds of the clock.\<close>

definition retry_backoff :: "nat \<Rightarrow> nat \<Rightarrow> nat" where
  "retry_backoff attempt nanos =
     (let base_ms = 100 * 2 ^ attempt;
          jitter_range = base_ms div 4;
          modulus = jitter_range * 2 + 1
      in base_ms + (nanos mod modulus - jitter_range))"

section \<open>Steps\<close>

definition db_read :: "(db_env \<Rightarrow> db \<Rightarrow> db_error + 'a) \<Rightarrow> 'a dbr" where
  "db_read f = Act (\<lambda>e s.
     (Ret (case e_outcome e of
             Fine \<Rightarrow> f e s
           | Fails code \<Rightarrow> Inl (SqlState code)
           | CommitLost \<Rightarrow> Inl (SqlState '''')), s))"

definition db_transaction_with ::
    "(db_error \<Rightarrow> 'er) \<Rightarrow> (db_env \<Rightarrow> db \<Rightarrow> 'er + 'a \<times> db) \<Rightarrow> (db_env, db, 'er + 'a) prog" where
  "db_transaction_with err f = Act (\<lambda>e s.
     case e_outcome e of
       Fails code \<Rightarrow> (Ret (Inl (err (SqlState code))), s)
     | Fine \<Rightarrow> (case f e s of Inl er \<Rightarrow> (Ret (Inl er), s) | Inr (a, s') \<Rightarrow> (Ret (Inr a), s'))
     | CommitLost \<Rightarrow>
         (case f e s of Inl er \<Rightarrow> (Ret (Inl er), s) | Inr (a, s') \<Rightarrow> (Ret (Inl (err (SqlState ''''))), s')))"

definition db_transaction :: "(db_env \<Rightarrow> db \<Rightarrow> db_error + 'a \<times> db) \<Rightarrow> 'a dbr" where
  "db_transaction f = db_transaction_with id f"

definition bind_ok :: "'a dbr \<Rightarrow> ('a \<Rightarrow> 'b dbr) \<Rightarrow> 'b dbr" where
  "bind_ok p k = prog_bind p (\<lambda>r. case r of Inl er \<Rightarrow> Ret (Inl er) | Inr a \<Rightarrow> k a)"

section \<open>Statements\<close>

definition sat_i32 :: "int \<Rightarrow> int" where
  "sat_i32 v = max (- (2 ^ 31)) (min (2 ^ 31 - 1) v)"

text \<open>The text of a timestamp up to its whole second.\<close>

definition timestamp_seconds :: "store_cfg \<Rightarrow> timestamp \<Rightarrow> string" where
  "timestamp_seconds cf t =
     (let text = (case strip_suffix ''Z'' (sc_text cf t) of Some x \<Rightarrow> x | None \<Rightarrow> sc_text cf t)
      in takeWhile (\<lambda>c. c \<noteq> CHR ''.'') text)"

definition expires_before :: "store_cfg \<Rightarrow> timestamp \<Rightarrow> row \<Rightarrow> bool" where
  "expires_before cf now r =
     (case row_expires r of None \<Rightarrow> False | Some t \<Rightarrow> sc_text cf t < timestamp_seconds cf now)"

definition expires_after :: "store_cfg \<Rightarrow> timestamp \<Rightarrow> row \<Rightarrow> bool" where
  "expires_after cf now r =
     (case row_expires r of None \<Rightarrow> False | Some t \<Rightarrow> timestamp_seconds cf now < sc_text cf t)"

definition index_value_condition :: "store_cfg \<Rightarrow> string \<Rightarrow> string \<Rightarrow> bool" where
  "index_value_condition cf v stored \<longleftrightarrow>
     CHR 0x00 \<notin> set v
     \<and> (let hashed = sc_hmac cf v in if hashed = v then stored = v else stored \<in> {hashed, v})"

text \<open>Inserting the entries of a document, unique per document, field and value.\<close>

fun insert_indexes ::
    "store_cfg \<Rightarrow> string \<Rightarrow> (string \<times> string) list \<Rightarrow> index_row list \<Rightarrow> db_error + index_row list" where
  "insert_indexes cf doc_id [] ixs = Inr ixs"
| "insert_indexes cf doc_id ((field, v) # es) ixs =
     (let ix = \<lparr>ix_doc = doc_id, ix_field = field, ix_value = sc_hmac cf v\<rparr>
      in if CHR 0x00 \<in> set v then Inl (InvalidIndexValue field)
         else if ix \<in> set ixs then Inl UniqueViolation
         else insert_indexes cf doc_id es (ixs @ [ix]))"

definition decode_row :: "'d doctype \<Rightarrow> row \<Rightarrow> db_error + 'd stored" where
  "decode_row T r =
     (case dt_proj T (row_data r) of
        None \<Rightarrow> Inl DecodeFailed
      | Some d \<Rightarrow> Inr \<lparr>st_id = row_id r, st_data = d, st_created = row_created r,
          st_updated = row_updated r, st_version = row_version r, st_last_used = row_last_used r\<rparr>)"

fun decode_rows :: "'d doctype \<Rightarrow> row list \<Rightarrow> db_error + 'd stored list" where
  "decode_rows T [] = Inr []"
| "decode_rows T (r # rs) =
     (case decode_row T r of
        Inl er \<Rightarrow> Inl er
      | Inr d \<Rightarrow> (case decode_rows T rs of Inl er \<Rightarrow> Inl er | Inr ds \<Rightarrow> Inr (d # ds)))"

definition decode_first :: "'d doctype \<Rightarrow> row option \<Rightarrow> db_error + 'd stored option" where
  "decode_first T ro =
     (case ro of
        None \<Rightarrow> Inr None
      | Some r \<Rightarrow> (case decode_row T r of Inl er \<Rightarrow> Inl er | Inr d \<Rightarrow> Inr (Some d)))"

definition select_id :: "string \<Rightarrow> string \<Rightarrow> db \<Rightarrow> row option" where
  "select_id ty did s = List.find (\<lambda>r. row_id r = did \<and> row_type r = ty) (db_rows s)"

text \<open>The join of the two tables: a row once for every entry of it that matches.\<close>

definition select_index :: "store_cfg \<Rightarrow> string \<Rightarrow> string \<Rightarrow> string \<Rightarrow> db \<Rightarrow> row list" where
  "select_index cf ty field v s =
     concat (map (\<lambda>r. map (\<lambda>_. r)
       (filter (\<lambda>ix. ix_doc ix = row_id r \<and> ix_field ix = field \<and> index_value_condition cf v (ix_value ix))
         (db_indexes s)))
       (filter (\<lambda>r. row_type r = ty) (db_rows s)))"

definition newest :: "store_cfg \<Rightarrow> nat \<Rightarrow> row list \<Rightarrow> row option" where
  "newest cf pick rs =
     (let top = filter (\<lambda>r. list_all (\<lambda>r'. sc_text cf (row_created r') \<le> sc_text cf (row_created r)) rs) rs
      in if top = [] then None else Some (top ! (pick mod length top)))"

definition by_id :: "row list \<Rightarrow> row list" where
  "by_id rs = sort_key row_id rs"

definition insert_stmt :: "store_cfg \<Rightarrow> timestamp \<Rightarrow> string \<Rightarrow> document \<Rightarrow> db \<Rightarrow> db_error + db" where
  "insert_stmt cf now did d s =
     (if did \<in> row_id ` set (db_rows s) then Inl UniqueViolation
      else case insert_indexes cf did (index_entries d) (db_indexes s) of
             Inl er \<Rightarrow> Inl er
           | Inr ixs \<Rightarrow> Inr (s\<lparr>db_rows := db_rows s @
               [\<lparr>row_id = did, row_type = doc_type d, row_data = d, row_expires = doc_expires d,
                 row_created = now, row_updated = now, row_version = 1, row_last_used = None\<rparr>],
               db_indexes := ixs\<rparr>))"

definition write_row :: "timestamp \<Rightarrow> int \<Rightarrow> document \<Rightarrow> row \<Rightarrow> row" where
  "write_row now v d r =
     r\<lparr>row_data := d, row_expires := doc_expires d, row_updated := now, row_version := v\<rparr>"

definition without_indexes :: "string set \<Rightarrow> db \<Rightarrow> index_row list" where
  "without_indexes ids s = filter (\<lambda>ix. ix_doc ix \<notin> ids) (db_indexes s)"

text \<open>The guarded update: nothing matches unless the version is the expected one.\<close>

definition cas_stmt :: "store_cfg \<Rightarrow> timestamp \<Rightarrow> string \<Rightarrow> int \<Rightarrow> document \<Rightarrow> db \<Rightarrow> db_error + bool \<times> db" where
  "cas_stmt cf now did expected d s =
     (if \<not> list_ex (\<lambda>r. row_id r = did \<and> row_version r = expected) (db_rows s) then Inr (False, s)
      else case insert_indexes cf did (index_entries d) (without_indexes {did} s) of
             Inl er \<Rightarrow> Inl er
           | Inr ixs \<Rightarrow> Inr (True, s\<lparr>
               db_rows := map (\<lambda>r. if row_id r = did \<and> row_version r = expected
                                   then write_row now (sat_i32 (expected + 1)) d r else r) (db_rows s),
               db_indexes := ixs\<rparr>))"

definition update_stmt :: "store_cfg \<Rightarrow> timestamp \<Rightarrow> string \<Rightarrow> document \<Rightarrow> db \<Rightarrow> db_error + unit \<times> db" where
  "update_stmt cf now did d s =
     (case insert_indexes cf did (index_entries d) (without_indexes {did} s) of
        Inl er \<Rightarrow> Inl er
      | Inr ixs \<Rightarrow> Inr ((), s\<lparr>
          db_rows := map (\<lambda>r. if row_id r = did then write_row now (row_version r + 1) d r else r) (db_rows s),
          db_indexes := ixs\<rparr>))"

definition delete_stmt :: "string \<Rightarrow> db \<Rightarrow> bool \<times> db" where
  "delete_stmt did s =
     (list_ex (\<lambda>r. row_id r = did) (db_rows s),
      s\<lparr>db_rows := filter (\<lambda>r. row_id r \<noteq> did) (db_rows s), db_indexes := without_indexes {did} s\<rparr>)"

definition delete_if_not_expired_stmt :: "store_cfg \<Rightarrow> string \<Rightarrow> timestamp \<Rightarrow> db \<Rightarrow> bool \<times> db" where
  "delete_if_not_expired_stmt cf did now s =
     (if list_ex (\<lambda>r. row_id r = did \<and> expires_after cf now r) (db_rows s)
      then (True, s\<lparr>db_rows := filter (\<lambda>r. \<not> (row_id r = did \<and> expires_after cf now r)) (db_rows s),
                    db_indexes := without_indexes {did} s\<rparr>)
      else (False, s))"

section \<open>Operations\<close>

definition insert_with_id :: "store_cfg \<Rightarrow> 'd doctype \<Rightarrow> string \<Rightarrow> 'd \<Rightarrow> ('d stored) dbr" where
  "insert_with_id cf T did x = with_dsql_retry (db_transaction (\<lambda>e s.
     case insert_stmt cf (e_now e) did (dt_inj T x) s of
       Inl er \<Rightarrow> Inl er
     | Inr s' \<Rightarrow> Inr (\<lparr>st_id = did, st_data = x, st_created = e_now e, st_updated = e_now e,
                      st_version = 1, st_last_used = None\<rparr>, s')))"

definition store_insert :: "store_cfg \<Rightarrow> 'd doctype \<Rightarrow> 'd \<Rightarrow> ('d stored) dbr" where
  "store_insert cf T x = with_dsql_retry (db_transaction (\<lambda>e s.
     case insert_stmt cf (e_now e) (e_uuid e) (dt_inj T x) s of
       Inl er \<Rightarrow> Inl er
     | Inr s' \<Rightarrow> Inr (\<lparr>st_id = e_uuid e, st_data = x, st_created = e_now e, st_updated = e_now e,
                      st_version = 1, st_last_used = None\<rparr>, s')))"

definition upsert :: "store_cfg \<Rightarrow> 'd doctype \<Rightarrow> string \<Rightarrow> 'd \<Rightarrow> unit dbr" where
  "upsert cf T did x = with_dsql_retry (
     if index_entries (dt_inj T x) \<noteq> [] then Ret (Inl (IndexedUpsert (dt_name T)))
     else db_transaction (\<lambda>e s.
       if did \<in> row_id ` set (db_rows s)
       then Inr ((), s\<lparr>db_rows := map (\<lambda>r. if row_id r = did
              then write_row (e_now e) (row_version r) (dt_inj T x) r else r) (db_rows s)\<rparr>)
       else (case insert_stmt cf (e_now e) did (dt_inj T x) s of Inl er \<Rightarrow> Inl er | Inr s' \<Rightarrow> Inr ((), s'))))"

definition store_get :: "'d doctype \<Rightarrow> string \<Rightarrow> ('d stored option) dbr" where
  "store_get T did = db_read (\<lambda>e s. decode_first T (select_id (dt_name T) did s))"

text \<open>The same read for callers that look at the clock as soon as it returns.\<close>

definition store_get_at :: "'d doctype \<Rightarrow> string \<Rightarrow> ('d stored option \<times> timestamp) dbr" where
  "store_get_at T did = db_read (\<lambda>e s.
     case decode_first T (select_id (dt_name T) did s) of Inl er \<Rightarrow> Inl er | Inr d \<Rightarrow> Inr (d, e_now e))"

definition get_by_ids :: "'d doctype \<Rightarrow> string list \<Rightarrow> ('d stored list) dbr" where
  "get_by_ids T ids =
     (if ids = [] then Ret (Inr [])
      else db_read (\<lambda>e s.
        decode_rows T (filter (\<lambda>r. row_id r \<in> set ids \<and> row_type r = dt_name T) (db_rows s))))"

definition find_one :: "store_cfg \<Rightarrow> 'd doctype \<Rightarrow> string \<Rightarrow> string \<Rightarrow> ('d stored option) dbr" where
  "find_one cf T field v = db_read (\<lambda>e s.
     decode_first T (newest cf (e_pick e) (select_index cf (dt_name T) field v s)))"

definition find_one_at ::
    "store_cfg \<Rightarrow> 'd doctype \<Rightarrow> string \<Rightarrow> string \<Rightarrow> ('d stored option \<times> timestamp) dbr" where
  "find_one_at cf T field v = db_read (\<lambda>e s.
     case decode_first T (newest cf (e_pick e) (select_index cf (dt_name T) field v s)) of
       Inl er \<Rightarrow> Inl er
     | Inr d \<Rightarrow> Inr (d, e_now e))"

definition find_all :: "store_cfg \<Rightarrow> 'd doctype \<Rightarrow> string \<Rightarrow> string \<Rightarrow> ('d stored list) dbr" where
  "find_all cf T field v = db_read (\<lambda>e s.
     decode_rows T (by_id (select_index cf (dt_name T) field v s)))"

text \<open>One page of rows in order of their ids behind a cursor, and whether more follow.\<close>

definition page_rows :: "string option \<Rightarrow> nat \<Rightarrow> row list \<Rightarrow> row list \<times> bool" where
  "page_rows after_id limit rs =
     (let rs = by_id (case after_id of None \<Rightarrow> rs | Some c \<Rightarrow> filter (\<lambda>r. c < row_id r) rs);
          rows = take (min (2 ^ 64 - 1) (limit + 1)) rs;
          has_more = length rows > limit
      in (take (if has_more then limit else length rows) rows, has_more))"

definition decode_page :: "'d doctype \<Rightarrow> row list \<times> bool \<Rightarrow> db_error + 'd stored list \<times> bool" where
  "decode_page T pg = (case decode_rows T (fst pg) of Inl er \<Rightarrow> Inl er | Inr ds \<Rightarrow> Inr (ds, snd pg))"

definition find_paginated ::
    "store_cfg \<Rightarrow> 'd doctype \<Rightarrow> string \<Rightarrow> string \<Rightarrow> string option \<Rightarrow> nat \<Rightarrow> ('d stored list \<times> bool) dbr" where
  "find_paginated cf T field v after_id limit = db_read (\<lambda>e s.
     decode_page T (page_rows after_id limit (select_index cf (dt_name T) field v s)))"

text \<open>The join with one alias of the index table per criterion.\<close>

definition matching_entries :: "store_cfg \<Rightarrow> db \<Rightarrow> row \<Rightarrow> string \<times> string \<Rightarrow> nat" where
  "matching_entries cf s r c =
     length (filter (\<lambda>ix. ix_doc ix = row_id r \<and> ix_field ix = fst c
       \<and> index_value_condition cf (snd c) (ix_value ix)) (db_indexes s))"

definition find_by_indexes :: "store_cfg \<Rightarrow> 'd doctype \<Rightarrow> (string \<times> string) list \<Rightarrow> ('d stored list) dbr" where
  "find_by_indexes cf T criteria =
     (if criteria = [] then Ret (Inr [])
      else db_read (\<lambda>e s. decode_rows T (by_id (concat (map
        (\<lambda>r. replicate (prod_list (map (matching_entries cf s r) criteria)) r)
        (filter (\<lambda>r. row_type r = dt_name T) (db_rows s)))))))"

definition store_update :: "store_cfg \<Rightarrow> 'd doctype \<Rightarrow> string \<Rightarrow> 'd \<Rightarrow> unit dbr" where
  "store_update cf T did x =
     with_dsql_retry (db_transaction (\<lambda>e s. update_stmt cf (e_now e) did (dt_inj T x) s))"

definition update_last_used_at :: "string \<Rightarrow> unit dbr" where
  "update_last_used_at did = with_dsql_retry (db_transaction (\<lambda>e s.
     Inr ((), s\<lparr>db_rows := map (\<lambda>r. if row_id r = did then r\<lparr>row_last_used := Some (e_now e)\<rparr> else r)
       (db_rows s)\<rparr>)))"

definition compare_and_update :: "store_cfg \<Rightarrow> 'd doctype \<Rightarrow> string \<Rightarrow> int \<Rightarrow> 'd \<Rightarrow> bool dbr" where
  "compare_and_update cf T did expected x =
     with_dsql_retry (db_transaction (\<lambda>e s. cas_stmt cf (e_now e) did expected (dt_inj T x) s))"

datatype ('a, 'b) transition = Applied 'a | Rejected 'b | NotFound

text \<open>
  The loop of \<open>transition_versioned\<close>: \<open>n\<close> attempts are left. The decision gets the clock of
  its attempt and the data read, and returns the result with the changed data, or a rejection.
\<close>

primrec transition_loop ::
    "store_cfg \<Rightarrow> 'd doctype \<Rightarrow> string \<Rightarrow> (timestamp \<Rightarrow> 'd \<Rightarrow> 'b + 'a \<times> 'd) \<Rightarrow> nat
       \<Rightarrow> (('a \<times> int, 'b) transition) dbr" where
  "transition_loop cf T did decide 0 = Ret (Inl (ConflictAfterRetries did))"
| "transition_loop cf T did decide (Suc n) =
     bind_ok (store_get_at T did) (\<lambda>(doc, now).
       case doc of
         None \<Rightarrow> Ret (Inr NotFound)
       | Some doc \<Rightarrow>
           (case decide now (st_data doc) of
              Inl rejected \<Rightarrow> Ret (Inr (Rejected rejected))
            | Inr (applied, data) \<Rightarrow>
                bind_ok (compare_and_update cf T did (st_version doc) data) (\<lambda>won.
                  if won then Ret (Inr (Applied (applied, sat_i32 (st_version doc + 1))))
                  else transition_loop cf T did decide n)))"

definition transition_versioned ::
    "store_cfg \<Rightarrow> 'd doctype \<Rightarrow> string \<Rightarrow> (timestamp \<Rightarrow> 'd \<Rightarrow> 'b + 'a \<times> 'd) \<Rightarrow> (('a \<times> int, 'b) transition) dbr" where
  "transition_versioned cf T did decide = transition_loop cf T did decide (Suc MAX_DSQL_RETRIES)"

definition store_transition ::
    "store_cfg \<Rightarrow> 'd doctype \<Rightarrow> string \<Rightarrow> (timestamp \<Rightarrow> 'd \<Rightarrow> 'b + 'a \<times> 'd) \<Rightarrow> (('a, 'b) transition) dbr" where
  "store_transition cf T did decide =
     bind_ok (transition_versioned cf T did decide) (\<lambda>t. Ret (Inr (case t of
        Applied (applied, _) \<Rightarrow> Applied applied
      | Rejected rejected \<Rightarrow> Rejected rejected
      | NotFound \<Rightarrow> NotFound)))"

definition store_modify :: "store_cfg \<Rightarrow> 'd doctype \<Rightarrow> string \<Rightarrow> ('d \<Rightarrow> 'd) \<Rightarrow> bool dbr" where
  "store_modify cf T did modifier =
     bind_ok (store_transition cf T did (\<lambda>_ d. Inr ((), modifier d))) (\<lambda>t. Ret (Inr (case t of
        Applied _ \<Rightarrow> True
      | NotFound \<Rightarrow> False
      | Rejected (_ :: unit) \<Rightarrow> False)))"

function chunks :: "nat \<Rightarrow> 'a list \<Rightarrow> 'a list list" where
  "chunks n xs = (if xs = [] \<or> n = 0 then [] else take n xs # chunks n (drop n xs))"
  by auto
termination
  by (relation "measure (length \<circ> snd)") auto

declare chunks.simps [simp del]

text \<open>
  The writes of \<open>update_by_index\<close>, in batches: the entries of a batch are validated, then
  every row must still have the version that was read, or nothing at all is written.
\<close>

definition UPDATE_BY_INDEX_BATCH :: nat where
  "UPDATE_BY_INDEX_BATCH = 500"

definition validate_index_entry :: "string \<times> string \<Rightarrow> db_error option" where
  "validate_index_entry entry =
     (if CHR 0x00 \<in> set (snd entry) then Some (InvalidIndexValue (fst entry)) else None)"

fun guarded_writes ::
    "store_cfg \<Rightarrow> timestamp \<Rightarrow> (string \<times> int \<times> document) list \<Rightarrow> db \<Rightarrow> db_error + db" where
  "guarded_writes cf now [] s = Inr s"
| "guarded_writes cf now ((did, v, d) # ws) s =
     (case cas_stmt cf now did v d s of
        Inl er \<Rightarrow> Inl er
      | Inr (False, _) \<Rightarrow> Inl (VersionConflict did v)
      | Inr (True, s') \<Rightarrow> guarded_writes cf now ws s')"

fun write_batches ::
    "store_cfg \<Rightarrow> timestamp \<Rightarrow> (string \<times> int \<times> document) list list \<Rightarrow> db \<Rightarrow> db_error + db" where
  "write_batches cf now [] s = Inr s"
| "write_batches cf now (b # bs) s =
     (case List.map_filter validate_index_entry (concat (map (\<lambda>(_, _, d). index_entries d) b)) of
        er # _ \<Rightarrow> Inl er
      | [] \<Rightarrow> (case guarded_writes cf now b s of
                Inl er \<Rightarrow> Inl er
              | Inr s' \<Rightarrow> write_batches cf now bs s'))"

definition update_by_index_stmt ::
    "store_cfg \<Rightarrow> 'd doctype \<Rightarrow> ('d \<Rightarrow> 'd) \<Rightarrow> 'd stored list \<Rightarrow> timestamp \<Rightarrow> db \<Rightarrow> db_error + db" where
  "update_by_index_stmt cf T modifier docs now s =
     write_batches cf now (chunks UPDATE_BY_INDEX_BATCH
       (map (\<lambda>d. (st_id d, st_version d, dt_inj T (modifier (st_data d)))) docs)) s"

definition find_all_tx :: "store_cfg \<Rightarrow> 'd doctype \<Rightarrow> string \<Rightarrow> string \<Rightarrow> ('d stored list) dbr" where
  "find_all_tx cf T field v = db_read (\<lambda>e s. decode_rows T (select_index cf (dt_name T) field v s))"

definition update_by_index :: "store_cfg \<Rightarrow> 'd doctype \<Rightarrow> string \<Rightarrow> string \<Rightarrow> ('d \<Rightarrow> 'd) \<Rightarrow> nat dbr" where
  "update_by_index cf T field v modifier =
     with_dsql_retry (bind_ok (find_all_tx cf T field v) (\<lambda>docs.
       db_transaction (\<lambda>e s.
         case update_by_index_stmt cf T modifier docs (e_now e) s of
           Inl er \<Rightarrow> Inl er
         | Inr s' \<Rightarrow> Inr (length docs, s'))))"

definition store_delete :: "string \<Rightarrow> bool dbr" where
  "store_delete did = with_dsql_retry (db_transaction (\<lambda>e s. Inr (delete_stmt did s)))"

definition delete_if_not_expired :: "store_cfg \<Rightarrow> string \<Rightarrow> timestamp \<Rightarrow> bool dbr" where
  "delete_if_not_expired cf did now =
     with_dsql_retry (db_transaction (\<lambda>e s. Inr (delete_if_not_expired_stmt cf did now s)))"

definition delete_by_index_stmt :: "store_cfg \<Rightarrow> 'd doctype \<Rightarrow> string \<Rightarrow> string \<Rightarrow> db \<Rightarrow> db_error + nat \<times> db" where
  "delete_by_index_stmt cf T field v s =
     (case decode_rows T (select_index cf (dt_name T) field v s) of
        Inl er \<Rightarrow> Inl er
      | Inr docs \<Rightarrow>
          (let ids = st_id ` set docs in
           Inr (length docs, s\<lparr>db_rows := filter (\<lambda>r. row_id r \<notin> ids) (db_rows s),
                               db_indexes := without_indexes ids s\<rparr>)))"

definition delete_by_index :: "store_cfg \<Rightarrow> 'd doctype \<Rightarrow> string \<Rightarrow> string \<Rightarrow> nat dbr" where
  "delete_by_index cf T field v =
     with_dsql_retry (db_transaction (\<lambda>e s. delete_by_index_stmt cf T field v s))"

text \<open>One batch of the sweep: a row renewed since it was selected survives with its entries.\<close>

definition sweep_stmt :: "store_cfg \<Rightarrow> timestamp \<Rightarrow> string list \<Rightarrow> db \<Rightarrow> nat \<times> db" where
  "sweep_stmt cf now ids s =
     (let gone = filter (\<lambda>r. row_id r \<in> set ids \<and> expires_before cf now r) (db_rows s);
          rows = filter (\<lambda>r. \<not> (row_id r \<in> set ids \<and> expires_before cf now r)) (db_rows s);
          deleted = {i \<in> set ids. i \<notin> row_id ` set rows}
      in (length gone, s\<lparr>db_rows := rows, db_indexes := without_indexes deleted s\<rparr>))"

fun sweep_batches :: "store_cfg \<Rightarrow> timestamp \<Rightarrow> string list list \<Rightarrow> nat \<Rightarrow> nat dbr" where
  "sweep_batches cf now [] deleted = Ret (Inr deleted)"
| "sweep_batches cf now (ids # bs) deleted =
     bind_ok (db_transaction (\<lambda>e s. Inr (sweep_stmt cf now ids s)))
       (\<lambda>n. sweep_batches cf now bs (deleted + n))"

definition delete_expired_before :: "store_cfg \<Rightarrow> string \<Rightarrow> timestamp \<Rightarrow> nat dbr" where
  "delete_expired_before cf ty now =
     bind_ok (db_read (\<lambda>e s. Inr (map row_id
        (filter (\<lambda>r. row_type r = ty \<and> expires_before cf now r) (db_rows s)))))
       (\<lambda>ids. sweep_batches cf now (chunks 1000 ids) 0)"

text \<open>The clock of a sweep is read at its start, ahead of the first statement.\<close>

definition delete_expired :: "store_cfg \<Rightarrow> string \<Rightarrow> nat dbr" where
  "delete_expired cf ty =
     with_dsql_retry (prog_bind (Act (\<lambda>e s. (Ret (e_now e), s))) (delete_expired_before cf ty))"

definition store_count :: "store_cfg \<Rightarrow> string \<Rightarrow> string \<Rightarrow> string \<Rightarrow> nat dbr" where
  "store_count cf ty field v = db_read (\<lambda>e s. Inr (length (select_index cf ty field v s)))"

definition list_all_docs :: "store_cfg \<Rightarrow> 'd doctype \<Rightarrow> ('d stored list) dbr" where
  "list_all_docs cf T = db_read (\<lambda>e s. decode_rows T (rev (sort_key (\<lambda>r. sc_text cf (row_created r))
     (filter (\<lambda>r. row_type r = dt_name T) (db_rows s)))))"

definition list_all_paginated :: "'d doctype \<Rightarrow> string option \<Rightarrow> nat \<Rightarrow> ('d stored list \<times> bool) dbr" where
  "list_all_paginated T after_id limit = db_read (\<lambda>e s.
     decode_page T (page_rows after_id limit (filter (\<lambda>r. row_type r = dt_name T) (db_rows s))))"

definition find_paginated_with_count ::
    "store_cfg \<Rightarrow> 'd doctype \<Rightarrow> string \<Rightarrow> string \<Rightarrow> nat \<Rightarrow> nat \<Rightarrow> ('d stored list \<times> nat) dbr" where
  "find_paginated_with_count cf T field v offset limit =
     bind_ok (db_read (\<lambda>e s. let rs = by_id (select_index cf (dt_name T) field v s)
                              in Inr (take limit (drop offset rs), length rs)))
       (\<lambda>(rows, n).
          bind_ok (if rows = [] then store_count cf (dt_name T) field v else Ret (Inr n)) (\<lambda>count.
            Ret (case decode_rows T rows of Inl er \<Rightarrow> Inl er | Inr ds \<Rightarrow> Inr (ds, count))))"

end
