(* ===== verification/Db_Claims.thy ===== *)
theory Db_Claims
  imports Db_Store
begin

text \<open>
  The server's single-use credentials as programs over the store: authorization codes, device
  codes and sign-in states, pushed and pending authorization requests, nonces and JWT ids,
  challenge states, and the signature counter of an authenticator
  (\<open>vouch-server/src/db/{authorization_codes,device_auth,par,pending_oauth,dpop,challenge_states,
  authenticators,oauth}.rs\<close>). The hash that derives a document id is a parameter.
\<close>

section \<open>Errors, time\<close>

datatype claim_error = AlreadyConsumed | InvalidInput string | Database db_error

type_synonym 'a claimp = "(db_env, db, claim_error + 'a) prog"

definition bind_claim :: "'a dbr \<Rightarrow> ('a \<Rightarrow> 'b claimp) \<Rightarrow> 'b claimp" where
  "bind_claim p k = prog_bind p (\<lambda>r. case r of Inl er \<Rightarrow> Ret (Inl (Database er)) | Inr a \<Rightarrow> k a)"

text \<open>The range of a timestamp, from the year -9999 to 9999, and checked additions.\<close>

definition TIMESTAMP_MIN :: timestamp where
  "TIMESTAMP_MIN = -377705023201 * 10 ^ 9"

definition TIMESTAMP_MAX :: timestamp where
  "TIMESTAMP_MAX = 253402207200 * 10 ^ 9 + 999999999"

definition checked_timestamp :: "int \<Rightarrow> timestamp option" where
  "checked_timestamp t = (if TIMESTAMP_MIN \<le> t \<and> t \<le> TIMESTAMP_MAX then Some t else None)"

definition checked_add_secs :: "timestamp \<Rightarrow> int \<Rightarrow> timestamp option" where
  "checked_add_secs t secs = checked_timestamp (t + secs * 10 ^ 9)"

definition from_second :: "int \<Rightarrow> timestamp option" where
  "from_second secs = checked_timestamp (secs * 10 ^ 9)"

section \<open>Authorization codes\<close>

definition store_authorization_code ::
    "store_cfg \<Rightarrow> string \<Rightarrow> string \<Rightarrow> string \<Rightarrow> timestamp \<Rightarrow> json option \<Rightarrow> unit dbr" where
  "store_authorization_code cf code_hash client_id user_id expires_at details =
     bind_ok (store_insert cf code_type
       \<lparr>ac_code_hash = code_hash, ac_client_id = client_id, ac_user_id = user_id,
        ac_expires_at = expires_at, ac_consumed_at = None, ac_authorization_details = details\<rparr>)
       (\<lambda>_. Ret (Inr ()))"

definition try_consume_authorization_code :: "store_cfg \<Rightarrow> string \<Rightarrow> timestamp \<Rightarrow> unit claimp" where
  "try_consume_authorization_code cf code_hash now =
     bind_claim (find_one cf code_type ''code_hash'' code_hash) (\<lambda>doc.
       case doc of
         None \<Rightarrow> Ret (Inl AlreadyConsumed)
       | Some doc \<Rightarrow>
           if ac_consumed_at (st_data doc) \<noteq> None \<or> ac_expires_at (st_data doc) \<le> now
           then Ret (Inl AlreadyConsumed)
           else bind_claim (compare_and_update cf code_type (st_id doc) (st_version doc)
                   ((st_data doc)\<lparr>ac_consumed_at := Some now\<rparr>))
                 (\<lambda>won. Ret (if won then Inr () else Inl AlreadyConsumed)))"

definition get_authorization_code_details :: "store_cfg \<Rightarrow> string \<Rightarrow> (json option) dbr" where
  "get_authorization_code_details cf code_hash =
     bind_ok (find_one cf code_type ''code_hash'' code_hash)
       (\<lambda>doc. Ret (Inr (Option.bind doc (\<lambda>d. ac_authorization_details (st_data d)))))"

section \<open>Device authorization\<close>

datatype hardware_verification = Verified "timestamp option" | NotVerified

definition hardware_verified :: "hardware_verification \<Rightarrow> bool" where
  "hardware_verified hw = (case hw of Verified _ \<Rightarrow> True | NotVerified \<Rightarrow> False)"

definition authenticated_at :: "hardware_verification \<Rightarrow> timestamp option" where
  "authenticated_at hw = (case hw of Verified t \<Rightarrow> t | NotVerified \<Rightarrow> None)"

text \<open>What the approving browser observed; the ceremony yields its instant.\<close>

datatype device_approval = Observed timestamp | NotObserved

fun hardware_of_approval :: "device_approval \<Rightarrow> hardware_verification" where
  "hardware_of_approval (Observed t) = Verified (Some t)"
| "hardware_of_approval NotObserved = NotVerified"

record stored_approval =
  sa_user_id :: string
  sa_user_email :: string
  sa_authenticator_id :: string
  sa_verification :: hardware_verification

datatype device_auth_state =
  StPending | StAuthorized stored_approval | StDenied | StConsumed "string option"

definition state_from_stored :: "device_auth_request_doc \<Rightarrow> device_auth_state" where
  "state_from_stored d =
     (case da_status d of
        DPending \<Rightarrow> StPending
      | DDenied \<Rightarrow> StDenied
      | DAuthorized \<Rightarrow>
          (case (da_user_id d, da_user_email d, da_authenticator_id d) of
             (Some user_id, Some user_email, Some authenticator_id) \<Rightarrow>
               StAuthorized \<lparr>sa_user_id = user_id, sa_user_email = user_email,
                 sa_authenticator_id = authenticator_id,
                 sa_verification = (if da_hardware_verified d then Verified (da_authenticated_at d)
                                    else NotVerified)\<rparr>
           | _ \<Rightarrow> StDenied)
      | DConsumed \<Rightarrow> StConsumed (da_user_id d))"

record device_auth_request =
  dr_id :: string
  dr_device_code_hash :: string
  dr_user_code :: string
  dr_state :: device_auth_state
  dr_client_id :: string
  dr_expires_at :: timestamp
  dr_interval_seconds :: int
  dr_last_poll_at :: "timestamp option"
  dr_consumed_at :: "timestamp option"

definition from_doc :: "device_auth_request_doc stored \<Rightarrow> device_auth_request option" where
  "from_doc doc =
     (case da_client_id (st_data doc) of
        None \<Rightarrow> None
      | Some client_id \<Rightarrow> Some
          \<lparr>dr_id = st_id doc, dr_device_code_hash = da_device_code_hash (st_data doc),
           dr_user_code = da_user_code (st_data doc), dr_state = state_from_stored (st_data doc),
           dr_client_id = client_id, dr_expires_at = da_expires_at (st_data doc),
           dr_interval_seconds = da_interval_seconds (st_data doc),
           dr_last_poll_at = da_last_poll_at (st_data doc),
           dr_consumed_at = da_consumed_at (st_data doc)\<rparr>)"

definition create_device_auth_request ::
    "store_cfg \<Rightarrow> string \<Rightarrow> string \<Rightarrow> string \<Rightarrow> timestamp \<Rightarrow> int \<Rightarrow> string dbr" where
  "create_device_auth_request cf device_code_hash user_code client_id expires_at interval_seconds =
     bind_ok (store_insert cf device_type
       \<lparr>da_device_code_hash = device_code_hash, da_user_code = user_code, da_status = DPending,
        da_client_id = Some client_id, da_user_id = None, da_user_email = None,
        da_authenticator_id = None, da_hardware_verified = False, da_authenticated_at = None,
        da_expires_at = expires_at, da_interval_seconds = interval_seconds,
        da_last_poll_at = None, da_consumed_at = None\<rparr>)
       (\<lambda>result. Ret (Inr (st_id result)))"

definition get_device_auth_by_code_hash :: "store_cfg \<Rightarrow> string \<Rightarrow> (device_auth_request option) dbr" where
  "get_device_auth_by_code_hash cf device_code_hash =
     bind_ok (find_one cf device_type ''device_code_hash'' device_code_hash)
       (\<lambda>doc. Ret (Inr (Option.bind doc from_doc)))"

definition get_device_auth_by_user_code :: "store_cfg \<Rightarrow> string \<Rightarrow> (device_auth_request option) dbr" where
  "get_device_auth_by_user_code cf user_code =
     bind_ok (find_one cf device_type ''user_code'' user_code)
       (\<lambda>doc. Ret (Inr (Option.bind doc from_doc)))"

definition get_device_auth_by_id :: "string \<Rightarrow> (device_auth_request option) dbr" where
  "get_device_auth_by_id did =
     bind_ok (store_get device_type did) (\<lambda>doc. Ret (Inr (Option.bind doc from_doc)))"

record authorize_device_auth_params =
  ap_id :: string
  ap_user_id :: string
  ap_user_email :: string
  ap_authenticator_id :: string
  ap_verification :: device_approval

definition decide_authorize ::
    "authorize_device_auth_params \<Rightarrow> timestamp \<Rightarrow> device_auth_request_doc
       \<Rightarrow> device_auth_status + unit \<times> device_auth_request_doc" where
  "decide_authorize ps now d =
     (let hw = hardware_of_approval (ap_verification ps) in
      if da_status d \<noteq> DPending then Inl (da_status d)
      else if da_expires_at d \<le> now then Inl (da_status d)
      else Inr ((), d\<lparr>da_status := DAuthorized, da_user_id := Some (ap_user_id ps),
             da_user_email := Some (ap_user_email ps),
             da_authenticator_id := Some (ap_authenticator_id ps),
             da_hardware_verified := hardware_verified hw,
             da_authenticated_at := authenticated_at hw\<rparr>))"

definition authorize_device_auth :: "store_cfg \<Rightarrow> authorize_device_auth_params \<Rightarrow> unit dbr" where
  "authorize_device_auth cf ps =
     (if ap_id ps = [] then Ret (Inl (OtherError ''called with empty id''))
      else prog_bind (store_transition cf device_type (ap_id ps) (decide_authorize ps)) (\<lambda>r.
        case r of
          Inl er \<Rightarrow> Ret (Inl (OtherError ''concurrently modified after retries''))
        | Inr (Applied _) \<Rightarrow> Ret (Inr ())
        | Inr (Rejected status) \<Rightarrow> Ret (Inl (OtherError ''already has status''))
        | Inr NotFound \<Rightarrow> Ret (Inl (OtherError ''no device auth request found''))))"

definition decide_consume_device ::
    "timestamp \<Rightarrow> device_auth_request_doc \<Rightarrow> unit + stored_approval \<times> device_auth_request_doc" where
  "decide_consume_device now d =
     (case state_from_stored d of
        StAuthorized approval \<Rightarrow>
          if da_expires_at d \<le> now then Inl ()
          else Inr (approval, d\<lparr>da_status := DConsumed, da_consumed_at := Some now\<rparr>)
      | _ \<Rightarrow> Inl ())"

definition try_consume_device_auth :: "store_cfg \<Rightarrow> string \<Rightarrow> stored_approval claimp" where
  "try_consume_device_auth cf device_code_hash =
     bind_claim (find_one_at cf device_type ''device_code_hash'' device_code_hash) (\<lambda>(doc, now0).
       case doc of
         None \<Rightarrow> Ret (Inl AlreadyConsumed)
       | Some doc \<Rightarrow>
           if (case state_from_stored (st_data doc) of StAuthorized _ \<Rightarrow> False | _ \<Rightarrow> True)
              \<or> da_expires_at (st_data doc) \<le> now0
           then Ret (Inl AlreadyConsumed)
           else bind_claim (store_transition cf device_type (st_id doc) decide_consume_device) (\<lambda>t.
             Ret (case t of
                Applied approval \<Rightarrow> Inr approval
              | Rejected _ \<Rightarrow> Inl AlreadyConsumed
              | NotFound \<Rightarrow> Inl AlreadyConsumed)))"

definition update_device_auth_poll_time ::
    "store_cfg \<Rightarrow> string \<Rightarrow> int \<Rightarrow> timestamp \<Rightarrow> bool dbr" where
  "update_device_auth_poll_time cf did interval_seconds now =
     bind_ok (store_get device_type did) (\<lambda>doc.
       case doc of
         None \<Rightarrow> Ret (Inr False)
       | Some doc \<Rightarrow>
           if (case da_last_poll_at (st_data doc) of
                 None \<Rightarrow> False
               | Some last_poll \<Rightarrow> now - last_poll < interval_seconds * 10 ^ 9)
           then Ret (Inr False)
           else bind_ok (compare_and_update cf device_type did (st_version doc)
                   ((st_data doc)\<lparr>da_last_poll_at := Some now\<rparr>))
                 (\<lambda>_. Ret (Inr True)))"

definition detach_authenticator_from_device_auth :: "device_auth_request_doc \<Rightarrow> device_auth_request_doc" where
  "detach_authenticator_from_device_auth d =
     (let d' = d\<lparr>da_authenticator_id := None\<rparr>
      in if da_status d' = DAuthorized then d'\<lparr>da_status := DDenied\<rparr> else d')"

text \<open>The statements of \<open>delete_authenticator\<close> behind its read of the device requests.\<close>

definition delete_authenticator_stmts ::
    "store_cfg \<Rightarrow> string \<Rightarrow> device_auth_request_doc stored list \<Rightarrow> timestamp \<Rightarrow> db \<Rightarrow> db_error + db" where
  "delete_authenticator_stmts cf authenticator_id docs now s =
     (case update_by_index_stmt cf device_type detach_authenticator_from_device_auth docs now s of
        Inl er \<Rightarrow> Inl er
      | Inr s1 \<Rightarrow>
          (case delete_by_index_stmt cf (raw_type ''session'') ''authenticator_id'' authenticator_id s1 of
             Inl er \<Rightarrow> Inl er
           | Inr (_, s2) \<Rightarrow> Inr (snd (delete_stmt authenticator_id s2))))"

section \<open>Sign-in states\<close>

definition create_oidc_state ::
    "store_cfg \<Rightarrow> string \<Rightarrow> string option \<Rightarrow> string \<Rightarrow> string \<Rightarrow> timestamp \<Rightarrow> string \<Rightarrow> string dbr" where
  "create_oidc_state cf state device_auth_id nonce code_verifier expires_at provider_id =
     bind_ok (store_insert cf oidc_type
       \<lparr>os_state = state, os_device_auth_id = (case device_auth_id of None \<Rightarrow> [] | Some i \<Rightarrow> i),
        os_nonce = nonce, os_code_verifier = code_verifier, os_expires_at = expires_at,
        os_provider_id = provider_id, os_consumed_at = None\<rparr>)
       (\<lambda>result. Ret (Inr (st_id result)))"

definition stored_device_auth_id :: "string \<Rightarrow> string option" where
  "stored_device_auth_id stored = (if stored \<noteq> [] then Some stored else None)"

record oidc_state =
  oi_id :: string
  oi_state :: string
  oi_device_auth_id :: "string option"
  oi_nonce :: string
  oi_code_verifier :: string
  oi_expires_at :: timestamp
  oi_provider_id :: string

definition try_consume_oidc_state :: "store_cfg \<Rightarrow> string \<Rightarrow> timestamp \<Rightarrow> oidc_state claimp" where
  "try_consume_oidc_state cf state now =
     bind_claim (find_one cf oidc_type ''state'' state) (\<lambda>doc.
       case doc of
         None \<Rightarrow> Ret (Inl AlreadyConsumed)
       | Some doc \<Rightarrow>
           if os_consumed_at (st_data doc) \<noteq> None \<or> os_expires_at (st_data doc) \<le> now
           then Ret (Inl AlreadyConsumed)
           else (let data = (st_data doc)\<lparr>os_consumed_at := Some now\<rparr> in
             bind_claim (compare_and_update cf oidc_type (st_id doc) (st_version doc) data) (\<lambda>won.
               Ret (if won
                    then Inr \<lparr>oi_id = st_id doc, oi_state = os_state data,
                      oi_device_auth_id = stored_device_auth_id (os_device_auth_id data),
                      oi_nonce = os_nonce data, oi_code_verifier = os_code_verifier data,
                      oi_expires_at = os_expires_at data, oi_provider_id = os_provider_id data\<rparr>
                    else Inl AlreadyConsumed))))"

section \<open>Pushed authorization requests\<close>

definition PAR_EXPIRES_IN :: int where
  "PAR_EXPIRES_IN = 60"

definition REQUEST_URI_URN_PREFIX :: string where
  "REQUEST_URI_URN_PREFIX = ''urn:ietf:params:oauth:request_uri:''"

text \<open>The base64url text of the random bytes is the environment's.\<close>

definition generate_request_uri :: "string \<Rightarrow> string" where
  "generate_request_uri random = REQUEST_URI_URN_PREFIX @ random"

record create_par_params =
  cp_client_id :: string
  cp_response_type :: string
  cp_redirect_uri :: string
  cp_scope :: "string option"
  cp_state :: "string option"
  cp_nonce :: "string option"
  cp_code_challenge :: "string option"
  cp_code_challenge_method :: "string option"
  cp_resource :: "string option"
  cp_acr_values :: "string option"
  cp_max_age :: "int option"
  cp_prompt :: "string option"
  cp_dpop_jkt :: "string option"
  cp_authorization_details :: "json option"
  cp_response_mode :: response_mode

definition par_doc :: "create_par_params \<Rightarrow> string \<Rightarrow> timestamp \<Rightarrow> pushed_authorization_request_doc" where
  "par_doc ps request_uri expires_at =
     \<lparr>par_request_uri = request_uri, par_client_id = cp_client_id ps,
      par_response_type = cp_response_type ps, par_redirect_uri = cp_redirect_uri ps,
      par_scope = cp_scope ps, par_state = cp_state ps, par_nonce = cp_nonce ps,
      par_code_challenge = cp_code_challenge ps,
      par_code_challenge_method = cp_code_challenge_method ps, par_resource = cp_resource ps,
      par_acr_values = cp_acr_values ps, par_max_age = cp_max_age ps, par_prompt = cp_prompt ps,
      par_dpop_jkt = cp_dpop_jkt ps, par_expires_at = expires_at, par_consumed_at = None,
      par_authorization_details = cp_authorization_details ps,
      par_response_mode = cp_response_mode ps\<rparr>"

definition create_pushed_authorization_request ::
    "store_cfg \<Rightarrow> create_par_params \<Rightarrow> (string \<times> string) dbr" where
  "create_pushed_authorization_request cf ps =
     prog_bind (Act (\<lambda>e s. (Ret (generate_request_uri (e_random e), e_now e), s))) (\<lambda>(request_uri, now).
       case checked_add_secs now PAR_EXPIRES_IN of
         None \<Rightarrow> Ret (Inl (OtherError ''Time calculation overflow computing PAR expiration''))
       | Some expires_at \<Rightarrow>
           bind_ok (store_insert cf par_type (par_doc ps request_uri expires_at))
             (\<lambda>result. Ret (Inr (st_id result, request_uri))))"

datatype par_consumption_mode = EnforceExpiry | SkipExpiry

record par_ref =
  pf_request_uri :: string
  pf_client_id :: string
  pf_mode :: par_consumption_mode

definition par_consume :: "store_cfg \<Rightarrow> par_ref \<Rightarrow> timestamp \<Rightarrow> unit claimp" where
  "par_consume cf par now =
     bind_claim (find_one cf par_type ''request_uri'' (pf_request_uri par)) (\<lambda>doc.
       case doc of
         None \<Rightarrow> Ret (Inl AlreadyConsumed)
       | Some doc \<Rightarrow>
           if par_client_id (st_data doc) \<noteq> pf_client_id par \<or> par_consumed_at (st_data doc) \<noteq> None
           then Ret (Inl AlreadyConsumed)
           else if pf_mode par = EnforceExpiry \<and> par_expires_at (st_data doc) \<le> now
           then Ret (Inl AlreadyConsumed)
           else bind_claim (compare_and_update cf par_type (st_id doc) (st_version doc)
                   ((st_data doc)\<lparr>par_consumed_at := Some now\<rparr>))
                 (\<lambda>won. Ret (if won then Inr () else Inl AlreadyConsumed)))"

text \<open>The record of a pushed request is its document with id and creation time.\<close>

definition get_pushed_authorization_request ::
    "store_cfg \<Rightarrow> string \<Rightarrow> string \<Rightarrow> timestamp
       \<Rightarrow> ((string \<times> timestamp \<times> pushed_authorization_request_doc) option) dbr" where
  "get_pushed_authorization_request cf request_uri client_id now =
     bind_ok (find_one cf par_type ''request_uri'' request_uri) (\<lambda>doc. Ret (Inr (
       case doc of
         None \<Rightarrow> None
       | Some doc \<Rightarrow>
           if par_client_id (st_data doc) \<noteq> client_id \<or> par_consumed_at (st_data doc) \<noteq> None
              \<or> par_expires_at (st_data doc) \<le> now
           then None
           else Some (st_id doc, st_created doc, st_data doc))))"

definition extend_par_expiration :: "store_cfg \<Rightarrow> string \<Rightarrow> string \<Rightarrow> int \<Rightarrow> unit dbr" where
  "extend_par_expiration cf request_uri client_id new_ttl_secs =
     bind_ok (find_one_at cf par_type ''request_uri'' request_uri) (\<lambda>(doc, now).
       case doc of
         None \<Rightarrow> Ret (Inr ())
       | Some doc \<Rightarrow>
           if par_client_id (st_data doc) \<noteq> client_id \<or> par_consumed_at (st_data doc) \<noteq> None
           then Ret (Inr ())
           else (case checked_add_secs now new_ttl_secs of
              None \<Rightarrow> Ret (Inl (OtherError ''Time calculation overflow extending PAR expiration''))
            | Some new_expires_at \<Rightarrow>
                bind_ok (compare_and_update cf par_type (st_id doc) (st_version doc)
                    ((st_data doc)\<lparr>par_expires_at := new_expires_at\<rparr>))
                  (\<lambda>_. Ret (Inr ()))))"

section \<open>Pending authorizations\<close>

record create_pending_params =
  pp_client_id :: string
  pp_redirect_uri :: string
  pp_response_type :: string
  pp_state :: "string option"
  pp_scope :: "string option"
  pp_nonce :: "string option"
  pp_code_challenge :: "string option"
  pp_code_challenge_method :: "string option"
  pp_resource :: "string option"
  pp_acr_values :: "string option"
  pp_max_age :: "int option"
  pp_prompt :: "string option"
  pp_dpop_jkt :: "string option"
  pp_authorization_details :: "json option"
  pp_response_mode :: response_mode
  pp_par_request_uri :: "string option"

definition pending_doc :: "create_pending_params \<Rightarrow> timestamp \<Rightarrow> pending_oauth_auth_doc" where
  "pending_doc ps expires_at =
     \<lparr>po_client_id = pp_client_id ps, po_redirect_uri = pp_redirect_uri ps,
      po_response_type = pp_response_type ps, po_state = pp_state ps, po_scope = pp_scope ps,
      po_nonce = pp_nonce ps, po_code_challenge = pp_code_challenge ps,
      po_code_challenge_method = pp_code_challenge_method ps, po_expires_at = expires_at,
      po_consumed_at = None, po_resource = pp_resource ps, po_acr_values = pp_acr_values ps,
      po_max_age = pp_max_age ps, po_prompt = pp_prompt ps, po_dpop_jkt = pp_dpop_jkt ps,
      po_authorization_details = pp_authorization_details ps,
      po_response_mode = pp_response_mode ps, po_par_request_uri = pp_par_request_uri ps\<rparr>"

definition create_pending_oauth_authorization :: "store_cfg \<Rightarrow> create_pending_params \<Rightarrow> string dbr" where
  "create_pending_oauth_authorization cf ps =
     prog_bind (Act (\<lambda>e s. (Ret (e_now e), s))) (\<lambda>now.
       case checked_add_secs now (10 * 60) of
         None \<Rightarrow> Ret (Inl (OtherError ''Time calculation overflow computing expiration''))
       | Some expires_at \<Rightarrow>
           bind_ok (store_insert cf pending_type (pending_doc ps expires_at))
             (\<lambda>result. Ret (Inr (st_id result))))"

definition get_pending_oauth_authorization ::
    "string \<Rightarrow> timestamp \<Rightarrow> ((string \<times> timestamp \<times> pending_oauth_auth_doc) option) dbr" where
  "get_pending_oauth_authorization did now =
     bind_ok (store_get pending_type did) (\<lambda>doc. Ret (Inr (
       case doc of
         None \<Rightarrow> None
       | Some d \<Rightarrow>
           if po_consumed_at (st_data d) = None \<and> now < po_expires_at (st_data d)
           then Some (st_id d, st_created d, st_data d) else None)))"

definition consume_pending_oauth_authorization ::
    "store_cfg \<Rightarrow> string \<Rightarrow> timestamp \<Rightarrow> (string \<times> timestamp \<times> pending_oauth_auth_doc) claimp" where
  "consume_pending_oauth_authorization cf did now =
     bind_claim (store_get pending_type did) (\<lambda>doc.
       case doc of
         None \<Rightarrow> Ret (Inl AlreadyConsumed)
       | Some doc \<Rightarrow>
           if po_consumed_at (st_data doc) \<noteq> None \<or> po_expires_at (st_data doc) \<le> now
           then Ret (Inl AlreadyConsumed)
           else (let data = (st_data doc)\<lparr>po_consumed_at := Some now\<rparr> in
             bind_claim (compare_and_update cf pending_type did (st_version doc) data) (\<lambda>won.
               Ret (if won then Inr (did, st_created doc, data) else Inl AlreadyConsumed))))"

section \<open>Nonces and identifiers of proofs\<close>

definition MAX_JTI_LENGTH :: nat where
  "MAX_JTI_LENGTH = 256"

definition deterministic_dpop_jti_id :: "(string \<Rightarrow> string) \<Rightarrow> string \<Rightarrow> string" where
  "deterministic_dpop_jti_id sha jti = sha (''dpop_jti'' @ [CHR 0x00] @ jti)"

definition deterministic_nonce_id :: "(string \<Rightarrow> string) \<Rightarrow> string \<Rightarrow> string \<Rightarrow> string" where
  "deterministic_nonce_id sha domain nonce = sha (domain @ [CHR 0x00] @ nonce)"

definition deterministic_dpop_nonce_id :: "(string \<Rightarrow> string) \<Rightarrow> string \<Rightarrow> string" where
  "deterministic_dpop_nonce_id sha nonce = deterministic_nonce_id sha ''dpop_nonce'' nonce"

definition deterministic_signature_nonce_id :: "(string \<Rightarrow> string) \<Rightarrow> string \<Rightarrow> string" where
  "deterministic_signature_nonce_id sha nonce = deterministic_nonce_id sha ''signature_nonce'' nonce"

definition new_nonce :: "int \<Rightarrow> (string \<times> timestamp) dbr" where
  "new_nonce validity_seconds = Act (\<lambda>e s.
     (Ret (case checked_add_secs (e_now e) validity_seconds of
             None \<Rightarrow> Inl (OtherError ''nonce expiry timestamp overflow'')
           | Some expires_at \<Rightarrow> Inr (e_random e, expires_at)), s))"

definition generate_dpop_nonce :: "store_cfg \<Rightarrow> (string \<Rightarrow> string) \<Rightarrow> int \<Rightarrow> string dbr" where
  "generate_dpop_nonce cf sha validity_seconds =
     bind_ok (new_nonce validity_seconds) (\<lambda>(nonce, expires_at).
       bind_ok (insert_with_id cf dpop_nonce_type (deterministic_dpop_nonce_id sha nonce) (nonce, expires_at))
         (\<lambda>_. Ret (Inr nonce)))"

definition validate_dpop_nonce :: "(string \<Rightarrow> string) \<Rightarrow> string \<Rightarrow> timestamp \<Rightarrow> unit claimp" where
  "validate_dpop_nonce sha nonce now =
     bind_claim (store_get dpop_nonce_type (deterministic_dpop_nonce_id sha nonce)) (\<lambda>doc.
       Ret (case doc of
              Some doc \<Rightarrow> if now < snd (st_data doc) then Inr () else Inl AlreadyConsumed
            | None \<Rightarrow> Inl AlreadyConsumed))"

definition generate_signature_nonce :: "store_cfg \<Rightarrow> (string \<Rightarrow> string) \<Rightarrow> int \<Rightarrow> string dbr" where
  "generate_signature_nonce cf sha validity_seconds =
     bind_ok (new_nonce validity_seconds) (\<lambda>(nonce, expires_at).
       bind_ok (insert_with_id cf sig_nonce_type (deterministic_signature_nonce_id sha nonce) (nonce, expires_at))
         (\<lambda>_. Ret (Inr nonce)))"

definition validate_and_consume_signature_nonce ::
    "store_cfg \<Rightarrow> (string \<Rightarrow> string) \<Rightarrow> string \<Rightarrow> timestamp \<Rightarrow> unit claimp" where
  "validate_and_consume_signature_nonce cf sha nonce now =
     bind_claim (delete_if_not_expired cf (deterministic_signature_nonce_id sha nonce) now)
       (\<lambda>won. Ret (if won then Inr () else Inl AlreadyConsumed))"

text \<open>An insert under a derived id: the second one collides on the primary key.\<close>

definition claim_by_insert :: "store_cfg \<Rightarrow> 'd doctype \<Rightarrow> string \<Rightarrow> 'd \<Rightarrow> unit claimp" where
  "claim_by_insert cf T did x =
     prog_bind (insert_with_id cf T did x) (\<lambda>r. Ret (case r of
        Inr _ \<Rightarrow> Inr ()
      | Inl er \<Rightarrow> if is_unique_violation er then Inl AlreadyConsumed else Inl (Database er)))"

definition store_dpop_jti_with_expiry ::
    "store_cfg \<Rightarrow> (string \<Rightarrow> string) \<Rightarrow> string \<Rightarrow> timestamp \<Rightarrow> unit claimp" where
  "store_dpop_jti_with_expiry cf sha jti expires_at =
     (if jti = [] then Ret (Inl (InvalidInput ''DPoP JTI must not be empty''))
      else if length jti > MAX_JTI_LENGTH then Ret (Inl (InvalidInput ''DPoP JTI exceeds maximum length''))
      else claim_by_insert cf dpop_jti_type (deterministic_dpop_jti_id sha jti) (jti, expires_at))"

definition check_and_store_dpop_jti_at_second ::
    "store_cfg \<Rightarrow> (string \<Rightarrow> string) \<Rightarrow> string \<Rightarrow> int \<Rightarrow> int \<Rightarrow> unit claimp" where
  "check_and_store_dpop_jti_at_second cf sha jti now_second validity_seconds =
     (case Option.bind (from_second now_second) (\<lambda>t. checked_add_secs t validity_seconds) of
        None \<Rightarrow> Ret (Inl (Database (OtherError ''DPoP JTI expiry overflow'')))
      | Some expires_at \<Rightarrow> store_dpop_jti_with_expiry cf sha jti expires_at)"

definition deterministic_jti_id :: "(string \<Rightarrow> string) \<Rightarrow> string \<Rightarrow> string \<Rightarrow> string" where
  "deterministic_jti_id sha jti client_id =
     sha (''jwt_assertion_jti'' @ [CHR 0x00] @ client_id @ [CHR 0x00] @ jti)"

definition store_jwt_assertion_jti ::
    "store_cfg \<Rightarrow> (string \<Rightarrow> string) \<Rightarrow> string \<Rightarrow> string \<Rightarrow> timestamp \<Rightarrow> unit claimp" where
  "store_jwt_assertion_jti cf sha jti client_id expires_at =
     (if length jti > MAX_JTI_LENGTH then Ret (Inl (InvalidInput ''JTI exceeds maximum length''))
      else if CHR 0x00 \<in> set jti then Ret (Inl (InvalidInput ''JTI must not contain a NUL (0x00) character''))
      else claim_by_insert cf assertion_jti_type (deterministic_jti_id sha jti client_id)
             (jti, client_id, expires_at))"

definition deterministic_challenge_state_id :: "(string \<Rightarrow> string) \<Rightarrow> string \<Rightarrow> string" where
  "deterministic_challenge_state_id sha state_jwt = sha (''challenge_state'' @ [CHR 0x00] @ state_jwt)"

definition try_consume_challenge_state ::
    "store_cfg \<Rightarrow> (string \<Rightarrow> string) \<Rightarrow> string \<Rightarrow> timestamp \<Rightarrow> unit claimp" where
  "try_consume_challenge_state cf sha state_jwt expires_at =
     claim_by_insert cf challenge_type (deterministic_challenge_state_id sha state_jwt) expires_at"

section \<open>Signature counters\<close>

definition admits :: "u32 \<Rightarrow> u32 \<Rightarrow> bool" where
  "admits stored presented \<longleftrightarrow> stored = 0 \<or> stored < presented"

datatype counter_commit = Committed | NotIncreasing | KeyDeleted

definition decide_counter :: "u32 \<Rightarrow> timestamp \<Rightarrow> authenticator_doc \<Rightarrow> unit + unit \<times> authenticator_doc" where
  "decide_counter presented now d =
     (if \<not> admits (au_counter d) presented then Inl () else Inr ((), d\<lparr>au_counter := presented\<rparr>))"

definition commit_authenticator_counter :: "store_cfg \<Rightarrow> string \<Rightarrow> u32 \<Rightarrow> counter_commit dbr" where
  "commit_authenticator_counter cf authenticator_id presented =
     bind_ok (store_transition cf authenticator_type authenticator_id (decide_counter presented)) (\<lambda>t.
       Ret (Inr (case t of
          Applied _ \<Rightarrow> Committed
        | Rejected _ \<Rightarrow> NotIncreasing
        | NotFound \<Rightarrow> KeyDeleted)))"

definition update_authenticator_name :: "store_cfg \<Rightarrow> string \<Rightarrow> string \<Rightarrow> bool dbr" where
  "update_authenticator_name cf authenticator_id name =
     store_modify cf authenticator_type authenticator_id (\<lambda>d. d\<lparr>au_name := name\<rparr>)"

record create_authenticator_params =
  ca_user_id :: string
  ca_name :: string
  ca_credential_id :: string
  ca_public_key :: string
  ca_aaguid :: "string option"
  ca_user_handle :: "string option"
  ca_attestation_verified :: bool
  ca_counter :: u32

text \<open>Credential id, public key and user handle come base64url encoded.\<close>

definition create_authenticator :: "store_cfg \<Rightarrow> create_authenticator_params \<Rightarrow> string dbr" where
  "create_authenticator cf ps =
     bind_ok (store_insert cf authenticator_type
       \<lparr>au_user_id = ca_user_id ps, au_user_email = [], au_name = ca_name ps,
        au_credential_id = ca_credential_id ps, au_public_key = ca_public_key ps,
        au_counter = ca_counter ps, au_aaguid = ca_aaguid ps, au_user_handle = ca_user_handle ps,
        au_attestation_verified = ca_attestation_verified ps\<rparr>)
       (\<lambda>result. Ret (Inr (st_id result)))"

section \<open>Deleting a key\<close>

datatype key_error = KeyValidation | KeyMissing string | LastKey | KeyOccConflict | KeyConflict | KeyInternal

definition from_db_contention :: "db_error \<Rightarrow> key_error" where
  "from_db_contention er = (if is_retryable_db_error er then KeyOccConflict else KeyInternal)"

definition bind_key :: "'a dbr \<Rightarrow> ('a \<Rightarrow> (db_env, db, key_error + 'b) prog) \<Rightarrow> (db_env, db, key_error + 'b) prog" where
  "bind_key p k = prog_bind p (\<lambda>r. case r of Inl er \<Rightarrow> Ret (Inl (from_db_contention er)) | Inr a \<Rightarrow> k a)"

text \<open>
  One attempt of \<open>services::keys::delete_key\<close>. Its transaction runs under READ COMMITTED, so
  each of its reads is a step of its own and sees what others have committed; the count after
  the cascade is such a read, on the tables as the transaction's own statements leave them.
  The writes take effect together at the commit. The version of the user's document, written
  back as it was read, makes concurrent deletes conflict.
\<close>

definition delete_key_once ::
    "store_cfg \<Rightarrow> string \<Rightarrow> string \<Rightarrow> (db_env, db, key_error + string \<times> nat) prog" where
  "delete_key_once cf user_id key_id =
     bind_key (store_get (raw_type ''user'') user_id) (\<lambda>user_doc.
       case user_doc of
         None \<Rightarrow> Ret (Inl (KeyMissing ''User''))
       | Some user_doc \<Rightarrow>
           bind_key (store_get authenticator_type key_id) (\<lambda>auth_doc.
             case auth_doc of
               None \<Rightarrow> Ret (Inl (KeyMissing ''Key''))
             | Some auth_doc \<Rightarrow>
                 if au_user_id (st_data auth_doc) \<noteq> user_id then Ret (Inl (KeyMissing ''Key''))
                 else bind_key (store_count cf ''authenticator'' ''user_id'' user_id) (\<lambda>count_before.
                   if count_before \<le> 1 then Ret (Inl LastKey)
                   else bind_key (store_count cf ''session'' ''authenticator_id'' key_id) (\<lambda>sessions_revoked.
                     bind_key (find_all_tx cf device_type ''authenticator_id'' key_id) (\<lambda>docs.
                       bind_key (db_read (\<lambda>e s.
                           case delete_authenticator_stmts cf key_id docs (e_now e) s of
                             Inl er \<Rightarrow> Inl er
                           | Inr s' \<Rightarrow> Inr (length (select_index cf ''authenticator'' ''user_id'' user_id s'))))
                         (\<lambda>count_after.
                           if count_after < 1 then Ret (Inl LastKey)
                           else db_transaction_with from_db_contention (\<lambda>e s.
                             case delete_authenticator_stmts cf key_id docs (e_now e) s of
                               Inl er \<Rightarrow> Inl (from_db_contention er)
                             | Inr s1 \<Rightarrow>
                                 (case cas_stmt cf (e_now e) user_id (st_version user_doc) (st_data user_doc) s1 of
                                    Inl er \<Rightarrow> Inl (from_db_contention er)
                                  | Inr (False, _) \<Rightarrow> Inl KeyOccConflict
                                  | Inr (True, s2) \<Rightarrow>
                                      Inr ((au_name (st_data auth_doc), sessions_revoked), s2)))))))))"

text \<open>Whether a text is a UUID is a parameter.\<close>

definition delete_key ::
    "store_cfg \<Rightarrow> (string \<Rightarrow> bool) \<Rightarrow> string \<Rightarrow> string \<Rightarrow> (db_env, db, key_error + string \<times> nat) prog" where
  "delete_key cf is_uuid user_id key_id =
     (if \<not> is_uuid key_id then Ret (Inl KeyValidation)
      else prog_bind (with_retries (\<lambda>er. er = KeyOccConflict) MAX_DSQL_RETRIES (delete_key_once cf user_id key_id))
        (\<lambda>r. Ret (case r of Inl KeyOccConflict \<Rightarrow> Inl KeyConflict | _ \<Rightarrow> r)))"

section \<open>Sweeps\<close>

definition delete_expired_authorization_codes :: "store_cfg \<Rightarrow> nat dbr" where
  "delete_expired_authorization_codes cf = delete_expired cf ''authorization_code''"

definition delete_expired_oidc_states :: "store_cfg \<Rightarrow> nat dbr" where
  "delete_expired_oidc_states cf = delete_expired cf ''oidc_state''"

definition delete_expired_device_auth_requests :: "store_cfg \<Rightarrow> nat dbr" where
  "delete_expired_device_auth_requests cf =
     bind_ok (delete_expired cf ''oidc_state'') (\<lambda>_. delete_expired cf ''device_auth_request'')"

definition delete_expired_pushed_authorization_requests :: "store_cfg \<Rightarrow> nat dbr" where
  "delete_expired_pushed_authorization_requests cf = delete_expired cf ''pushed_authorization_request''"

definition delete_expired_pending_oauth_authorizations :: "store_cfg \<Rightarrow> nat dbr" where
  "delete_expired_pending_oauth_authorizations cf = delete_expired cf ''pending_oauth_auth''"

definition delete_expired_dpop_nonces :: "store_cfg \<Rightarrow> nat dbr" where
  "delete_expired_dpop_nonces cf = delete_expired cf ''dpop_nonce''"

definition delete_expired_signature_nonces :: "store_cfg \<Rightarrow> nat dbr" where
  "delete_expired_signature_nonces cf = delete_expired cf ''signature_nonce''"

definition delete_expired_dpop_jtis :: "store_cfg \<Rightarrow> nat dbr" where
  "delete_expired_dpop_jtis cf = delete_expired cf ''dpop_jti''"

definition delete_expired_jwt_assertion_jtis :: "store_cfg \<Rightarrow> nat dbr" where
  "delete_expired_jwt_assertion_jtis cf = delete_expired cf ''jwt_assertion_jti''"

definition delete_expired_challenge_states :: "store_cfg \<Rightarrow> nat dbr" where
  "delete_expired_challenge_states cf = delete_expired cf ''challenge_state''"

end
