(* ===== verification/Jose.thy ===== *)
theory Jose
  imports Db_Claims
begin

text \<open>
  JSON web keys, signatures and tokens (\<open>vouch-server/src/crypto/{alg,jwk,jwt,validity,hash}.rs\<close>,
  \<open>vouch-common/src/jwk.rs\<close>): algorithms, keys and their thumbprints, the compact JWS and its
  header, time windows of tokens, and the server's own state and access tokens.

  Base64, SHA-256, JSON text, the deserialization of a JOSE header and the checks of the JWT
  library are parameters. A JSON object is the list of its members, a JSON number that is no
  64-bit integer keeps its text. The text a library gives with its own error is left out of the
  error values.
\<close>

section \<open>Algorithms and keys\<close>

datatype jws_algorithm = Es256 | Rs256 | Ps256 | EdDsa

fun alg_as_str :: "jws_algorithm \<Rightarrow> string" where
  "alg_as_str Es256 = ''ES256''"
| "alg_as_str Rs256 = ''RS256''"
| "alg_as_str Ps256 = ''PS256''"
| "alg_as_str EdDsa = ''EdDSA''"

definition alg_from_str :: "string \<Rightarrow> jws_algorithm option" where
  "alg_from_str s =
     (if s = ''ES256'' then Some Es256
      else if s = ''RS256'' then Some Rs256
      else if s = ''PS256'' then Some Ps256
      else if s = ''EdDSA'' then Some EdDsa
      else None)"

definition FAPI_ALLOWED :: "jws_algorithm list" where
  "FAPI_ALLOWED = [Es256, Ps256, EdDsa]"

definition CLIENT_ASSERTION_ALLOWED :: "jws_algorithm list" where
  "CLIENT_ASSERTION_ALLOWED = [Es256, Rs256, Ps256, EdDsa]"

datatype private_key_material = KeyAbsent | KeyPresent

datatype ec_curve = P256
datatype okp_curve = Ed25519
datatype key_use = SignatureUse

fun ec_curve_as_str :: "ec_curve \<Rightarrow> string" where
  "ec_curve_as_str P256 = ''P-256''"

fun okp_curve_as_str :: "okp_curve \<Rightarrow> string" where
  "okp_curve_as_str Ed25519 = ''Ed25519''"

record ec_jwk =
  ec_crv :: ec_curve
  ec_x :: string
  ec_y :: string
  ec_kid :: "string option"
  ec_alg :: "jws_algorithm option"
  ec_use :: "key_use option"
  ec_d :: private_key_material

record rsa_jwk =
  rsa_n :: string
  rsa_e :: string
  rsa_kid :: "string option"
  rsa_alg :: "jws_algorithm option"
  rsa_use :: "key_use option"
  rsa_d :: private_key_material
  rsa_p :: private_key_material
  rsa_q :: private_key_material
  rsa_dp :: private_key_material
  rsa_dq :: private_key_material
  rsa_qi :: private_key_material

record okp_jwk =
  okp_crv :: okp_curve
  okp_x :: string
  okp_d :: private_key_material

datatype jwk = Ec ec_jwk | Rsa rsa_jwk | Okp okp_jwk

definition ec_for_jwks :: "string \<Rightarrow> string \<Rightarrow> string \<Rightarrow> ec_jwk" where
  "ec_for_jwks kid x y =
     \<lparr>ec_crv = P256, ec_x = x, ec_y = y, ec_kid = Some kid, ec_alg = Some Es256,
      ec_use = Some SignatureUse, ec_d = KeyAbsent\<rparr>"

definition rsa_for_jwks :: "string \<Rightarrow> string \<Rightarrow> string \<Rightarrow> rsa_jwk" where
  "rsa_for_jwks kid n e =
     \<lparr>rsa_n = n, rsa_e = e, rsa_kid = Some kid, rsa_alg = Some Rs256, rsa_use = Some SignatureUse,
      rsa_d = KeyAbsent, rsa_p = KeyAbsent, rsa_q = KeyAbsent, rsa_dp = KeyAbsent, rsa_dq = KeyAbsent,
      rsa_qi = KeyAbsent\<rparr>"

definition carries_private_key :: "jwk \<Rightarrow> bool" where
  "carries_private_key k \<longleftrightarrow>
     KeyPresent \<in> set (case k of
        Ec ec \<Rightarrow> [ec_d ec]
      | Rsa rsa \<Rightarrow> [rsa_d rsa, rsa_p rsa, rsa_q rsa, rsa_dp rsa, rsa_dq rsa, rsa_qi rsa]
      | Okp okp \<Rightarrow> [okp_d okp])"

section \<open>Parameters\<close>

datatype jvalue =
  JNull
| JBool bool
| JInt int
| JFloat string
| JString string
| JArray "jvalue list"
| JObject "(string \<times> jvalue) list"

datatype header_alg = Known jws_algorithm | OtherAlg string

definition header_alg_as_str :: "header_alg \<Rightarrow> string" where
  "header_alg_as_str a = (case a of Known alg \<Rightarrow> alg_as_str alg | OtherAlg name \<Rightarrow> name)"

definition header_alg_of :: "string \<Rightarrow> header_alg" where
  "header_alg_of name = (case alg_from_str name of Some alg \<Rightarrow> Known alg | None \<Rightarrow> OtherAlg name)"

datatype crit_presence = CritAbsent | CritPresent

record jose_header =
  jh_alg :: header_alg
  jh_typ :: "string option"
  jh_kid :: "string option"
  jh_jwk :: "jwk option"
  jh_crit :: crit_presence

record jose_lib =
  b64url :: "string \<Rightarrow> string"
  b64url_decode :: "string \<Rightarrow> string option"
  b64std_decode :: "string \<Rightarrow> string option"
  sha256 :: "string \<Rightarrow> string"
  json_text :: "jvalue \<Rightarrow> string"
  json_parse :: "string \<Rightarrow> jvalue option"
  float_instant :: "string \<Rightarrow> timestamp option"
  instant_float :: "timestamp \<Rightarrow> string"
  header_from_slice :: "string \<Rightarrow> jose_header option"

definition hash_token :: "jose_lib \<Rightarrow> string \<Rightarrow> string" where
  "hash_token jl token = b64url jl (sha256 jl token)"

section \<open>Thumbprints\<close>

datatype jwk_thumbprint_key =
  TpEc string string string
| TpRsa string string
| TpOkp string string

fun jget :: "string \<Rightarrow> jvalue \<Rightarrow> jvalue option" where
  "jget name (JObject ms) = map_of ms name"
| "jget name _ = None"

fun jstr :: "jvalue \<Rightarrow> string option" where
  "jstr (JString s) = Some s"
| "jstr _ = None"

definition thumbprint_from_json :: "jvalue \<Rightarrow> jwk_thumbprint_key option" where
  "thumbprint_from_json jwk =
     (let member = (\<lambda>name. Option.bind (jget name jwk) jstr) in
      Option.bind (Option.bind (jget ''kty'' jwk) jstr) (\<lambda>kty.
        if kty = ''EC'' then
          Option.bind (member ''crv'') (\<lambda>crv. Option.bind (member ''x'') (\<lambda>x. Option.bind (member ''y'') (\<lambda>y.
            Some (TpEc crv x y))))
        else if kty = ''RSA'' then
          Option.bind (member ''e'') (\<lambda>e. Option.bind (member ''n'') (\<lambda>n. Some (TpRsa e n)))
        else if kty = ''OKP'' then
          Option.bind (member ''crv'') (\<lambda>crv. Option.bind (member ''x'') (\<lambda>x. Some (TpOkp crv x)))
        else None))"

fun kty :: "jwk_thumbprint_key \<Rightarrow> string" where
  "kty (TpEc _ _ _) = ''EC''"
| "kty (TpRsa _ _) = ''RSA''"
| "kty (TpOkp _ _) = ''OKP''"

definition canonical_jwk :: "jwk_thumbprint_key \<Rightarrow> jvalue" where
  "canonical_jwk k =
     (case k of
        TpEc crv x y \<Rightarrow> JObject [(''crv'', JString crv), (''kty'', JString (kty k)), (''x'', JString x), (''y'', JString y)]
      | TpRsa e n \<Rightarrow> JObject [(''e'', JString e), (''kty'', JString (kty k)), (''n'', JString n)]
      | TpOkp crv x \<Rightarrow> JObject [(''crv'', JString crv), (''kty'', JString (kty k)), (''x'', JString x)])"

definition key_thumbprint :: "jose_lib \<Rightarrow> jwk_thumbprint_key \<Rightarrow> string" where
  "key_thumbprint jl k = b64url jl (sha256 jl (json_text jl (canonical_jwk k)))"

definition thumbprint_key :: "jwk \<Rightarrow> jwk_thumbprint_key" where
  "thumbprint_key k =
     (case k of
        Ec ec \<Rightarrow> TpEc (ec_curve_as_str (ec_crv ec)) (ec_x ec) (ec_y ec)
      | Rsa rsa \<Rightarrow> TpRsa (rsa_e rsa) (rsa_n rsa)
      | Okp okp \<Rightarrow> TpOkp (okp_curve_as_str (okp_crv okp)) (okp_x okp))"

definition thumbprint :: "jose_lib \<Rightarrow> jwk \<Rightarrow> string" where
  "thumbprint jl k = key_thumbprint jl (thumbprint_key k)"

section \<open>The compact JWS\<close>

datatype jws_error = Malformed string | Critical | PrivateKey

record jws =
  jws_header :: jose_header
  jws_payload_b64 :: string

definition decode_segment :: "jose_lib \<Rightarrow> string \<Rightarrow> string option" where
  "decode_segment jl segment =
     (case b64url_decode jl segment of Some bytes \<Rightarrow> Some bytes | None \<Rightarrow> b64std_decode jl segment)"

definition jws_parse :: "jose_lib \<Rightarrow> string \<Rightarrow> jws_error + jws" where
  "jws_parse jl token =
     (case split_on (CHR ''.'') token of
        [header_b64, payload_b64, _] \<Rightarrow>
          (case decode_segment jl header_b64 of
             None \<Rightarrow> Inl (Malformed ''header is not valid base64'')
           | Some header_bytes \<Rightarrow>
               (case header_from_slice jl header_bytes of
                  None \<Rightarrow> Inl (Malformed ''header is not a well-formed JOSE header'')
                | Some header \<Rightarrow>
                    if jh_crit header = CritPresent then Inl Critical
                    else if (case jh_jwk header of Some k \<Rightarrow> carries_private_key k | None \<Rightarrow> False) then Inl PrivateKey
                    else Inr \<lparr>jws_header = header, jws_payload_b64 = payload_b64\<rparr>))
      | _ \<Rightarrow> Inl (Malformed ''JWS must have three segments''))"

definition claims_as :: "jose_lib \<Rightarrow> (string \<Rightarrow> 'c option) \<Rightarrow> jws \<Rightarrow> jws_error + 'c" where
  "claims_as jl from_slice w =
     (case decode_segment jl (jws_payload_b64 w) of
        None \<Rightarrow> Inl (Malformed ''payload is not valid base64'')
      | Some payload \<Rightarrow>
          (case from_slice payload of
             None \<Rightarrow> Inl (Malformed ''payload is not the expected JSON'')
           | Some c \<Rightarrow> Inr c))"

section \<open>Instants and windows\<close>

text \<open>Whole seconds of an instant, and what is left of it, both cut towards zero.\<close>

definition as_second :: "timestamp \<Rightarrow> int" where
  "as_second t = (if 0 \<le> t then t div 10 ^ 9 else - (- t div 10 ^ 9))"

definition subsec_nanosecond :: "timestamp \<Rightarrow> int" where
  "subsec_nanosecond t = t - as_second t * 10 ^ 9"

definition whole_second :: "timestamp \<Rightarrow> timestamp" where
  "whole_second t = (case from_second (as_second t) of Some w \<Rightarrow> w | None \<Rightarrow> t)"

fun numeric_date :: "jose_lib \<Rightarrow> jvalue \<Rightarrow> timestamp option" where
  "numeric_date jl (JInt i) = (if i < 2 ^ 63 then from_second i else None)"
| "numeric_date jl (JFloat x) = float_instant jl x"
| "numeric_date jl _ = None"

definition numeric_date_serialize :: "jose_lib \<Rightarrow> timestamp \<Rightarrow> jvalue" where
  "numeric_date_serialize jl t =
     (if subsec_nanosecond t = 0 then JInt (as_second t) else JFloat (instant_float jl t))"

fun numeric_date_option :: "jose_lib \<Rightarrow> jvalue \<Rightarrow> timestamp option option" where
  "numeric_date_option jl JNull = Some None"
| "numeric_date_option jl v = map_option Some (numeric_date jl v)"

record validity_window =
  vw_not_before :: "timestamp option"
  vw_expires :: "timestamp option"

definition OWN_TOKEN_NBF_LEEWAY_SECS :: int where
  "OWN_TOKEN_NBF_LEEWAY_SECS = 60"

definition window_from_claims :: "timestamp option \<Rightarrow> timestamp option \<Rightarrow> validity_window" where
  "window_from_claims exp nbf = \<lparr>vw_not_before = nbf, vw_expires = exp\<rparr>"

definition window_issued_at :: "timestamp \<Rightarrow> int \<Rightarrow> validity_window" where
  "window_issued_at issued_at max_age_secs =
     \<lparr>vw_not_before = Some issued_at, vw_expires = checked_add_secs issued_at max_age_secs\<rparr>"

definition window_from_payload :: "jose_lib \<Rightarrow> jvalue \<Rightarrow> validity_window option" where
  "window_from_payload jl payload =
     (let read = (\<lambda>name. case jget name payload of
                    Some v \<Rightarrow> map_option Some (numeric_date jl v)
                  | None \<Rightarrow> Some None) in
      Option.bind (read ''exp'') (\<lambda>exp. Option.bind (read ''nbf'') (\<lambda>nbf.
        Some (window_from_claims exp nbf))))"

definition window_from_token :: "jose_lib \<Rightarrow> string \<Rightarrow> validity_window option" where
  "window_from_token jl token =
     (case split_on (CHR ''.'') token of
        _ # payload_b64 # _ \<Rightarrow>
          Option.bind (decode_segment jl payload_b64) (\<lambda>payload.
            Option.bind (json_parse jl payload) (window_from_payload jl))
      | _ \<Rightarrow> None)"

definition expired_at :: "validity_window \<Rightarrow> timestamp \<Rightarrow> int \<Rightarrow> bool" where
  "expired_at w now leeway_secs =
     (case vw_expires w of
        None \<Rightarrow> False
      | Some expires \<Rightarrow>
          (case checked_add_secs now (- leeway_secs) of None \<Rightarrow> False | Some skewed \<Rightarrow> expires \<le> skewed))"

definition not_yet_valid_at :: "validity_window \<Rightarrow> timestamp \<Rightarrow> int \<Rightarrow> bool" where
  "not_yet_valid_at w now leeway_secs =
     (case vw_not_before w of
        None \<Rightarrow> False
      | Some not_before \<Rightarrow>
          (case checked_add_secs now leeway_secs of None \<Rightarrow> False | Some skewed \<Rightarrow> skewed < not_before))"

definition accepts_at :: "validity_window \<Rightarrow> timestamp \<Rightarrow> int \<Rightarrow> int \<Rightarrow> bool" where
  "accepts_at w now exp_leeway_secs nbf_leeway_secs \<longleftrightarrow>
     \<not> expired_at w now exp_leeway_secs \<and> \<not> not_yet_valid_at w now nbf_leeway_secs"

definition accepts_own_token_at :: "validity_window \<Rightarrow> timestamp \<Rightarrow> bool" where
  "accepts_own_token_at w now \<longleftrightarrow>
     vw_expires w \<noteq> None \<and> accepts_at w now 0 OWN_TOKEN_NBF_LEEWAY_SECS"

section \<open>The server's own tokens\<close>

datatype jwt_type =
  AccessToken | AuthorizationCodeToken | RegistrationState | BrowserRegistrationState
| BrowserAuthenticationState | GitHubState | Fido2ChallengeState

fun as_header_str :: "jwt_type \<Rightarrow> string" where
  "as_header_str AccessToken = ''at+jwt''"
| "as_header_str AuthorizationCodeToken = ''vouch-authz+jwt''"
| "as_header_str RegistrationState = ''vouch-reg-state+jwt''"
| "as_header_str BrowserRegistrationState = ''vouch-browser-reg+jwt''"
| "as_header_str BrowserAuthenticationState = ''vouch-browser-auth+jwt''"
| "as_header_str GitHubState = ''vouch-github-state+jwt''"
| "as_header_str Fido2ChallengeState = ''vouch-fido2-challenge+jwt''"

datatype jwt_error = ExpiredSignature | InvalidToken | OtherJwt string

datatype state_token_error = StJwt jwt_error | StInternal string | StExpired | StValidation string

definition state_error_from :: "jwt_error \<Rightarrow> state_token_error" where
  "state_error_from e = (if e = ExpiredSignature then StExpired else StJwt e)"

text \<open>
  The checks of the JWT library for one type of claims, with the secret or key and whatever
  validation the source configures: the \<open>typ\<close> of the header and the claims.
\<close>

type_synonym ('k, 'c) jwt_decoder = "string \<Rightarrow> 'k \<Rightarrow> jwt_error + (string option \<times> 'c)"

definition decode_state_token ::
    "jose_lib \<Rightarrow> (string, 'c) jwt_decoder \<Rightarrow> string \<Rightarrow> jwt_type \<Rightarrow> string \<Rightarrow> timestamp \<Rightarrow> jwt_error + 'c" where
  "decode_state_token jl decode token jwt_type secret now =
     (case decode token secret of
        Inl e \<Rightarrow> Inl e
      | Inr (typ, claims) \<Rightarrow>
          if typ \<noteq> Some (as_header_str jwt_type) then Inl InvalidToken
          else if \<not> (case window_from_token jl token of Some w \<Rightarrow> accepts_own_token_at w now | None \<Rightarrow> False)
          then Inl ExpiredSignature
          else Inr claims)"

datatype state_token_signer = LocalSigner string | KmsSigner string

definition splitn3 :: "char \<Rightarrow> string \<Rightarrow> string list" where
  "splitn3 sep s =
     (case split_once sep s of
        None \<Rightarrow> [s]
      | Some (a, r) \<Rightarrow> (case split_once sep r of None \<Rightarrow> [a, r] | Some (b, c) \<Rightarrow> [a, b, c]))"

text \<open>The key management service answers a MAC check with a verdict or fails.\<close>

definition kms_decode ::
    "jose_lib \<Rightarrow> (string \<Rightarrow> string \<Rightarrow> string \<Rightarrow> string + bool) \<Rightarrow> (string \<Rightarrow> 'c option)
       \<Rightarrow> string \<Rightarrow> string \<Rightarrow> jwt_type \<Rightarrow> timestamp \<Rightarrow> state_token_error + 'c" where
  "kms_decode jl verify_mac from_slice key_id token jwt_type now =
     (case splitn3 (CHR ''.'') token of
        [header_b64, payload_b64, sig_b64] \<Rightarrow>
          (case b64url_decode jl sig_b64 of
             None \<Rightarrow> Inl (StValidation ''Invalid signature encoding'')
           | Some sig_bytes \<Rightarrow>
          (case verify_mac key_id (header_b64 @ ''.'' @ payload_b64) sig_bytes of
             Inl e \<Rightarrow> Inl (StInternal (''KMS VerifyMac failed: '' @ e))
           | Inr valid \<Rightarrow>
               if \<not> valid then Inl (StValidation ''MAC verification failed'')
               else
          (case b64url_decode jl header_b64 of
             None \<Rightarrow> Inl (StValidation ''Invalid header encoding'')
           | Some header_bytes \<Rightarrow>
          (case json_parse jl header_bytes of
             None \<Rightarrow> Inl (StValidation ''Invalid header JSON'')
           | Some header \<Rightarrow>
               if Option.bind (jget ''typ'' header) jstr \<noteq> Some (as_header_str jwt_type)
               then Inl (StValidation (''Wrong typ header: expected '' @ as_header_str jwt_type))
               else
          (case b64url_decode jl payload_b64 of
             None \<Rightarrow> Inl (StValidation ''Invalid payload encoding'')
           | Some payload_bytes \<Rightarrow>
          (case json_parse jl payload_bytes of
             None \<Rightarrow> Inl (StValidation ''Invalid payload JSON'')
           | Some raw \<Rightarrow>
          (case window_from_payload jl raw of
             None \<Rightarrow> Inl (StValidation ''Invalid exp or nbf claim'')
           | Some validity \<Rightarrow>
               if \<not> accepts_own_token_at validity now then Inl StExpired
               else
          (case from_slice payload_bytes of
             None \<Rightarrow> Inl (StValidation ''Failed to deserialize claims'')
           | Some claims \<Rightarrow> Inr claims))))))))
      | _ \<Rightarrow> Inl (StValidation ''Malformed JWT''))"

definition kms_encode ::
    "jose_lib \<Rightarrow> (string \<Rightarrow> string \<Rightarrow> string + string option) \<Rightarrow> ('c \<Rightarrow> string option)
       \<Rightarrow> string \<Rightarrow> 'c \<Rightarrow> jwt_type \<Rightarrow> state_token_error + string" where
  "kms_encode jl generate_mac to_vec key_id claims jwt_type =
     (let header_b64 = b64url jl (json_text jl (JObject
            [(''alg'', JString ''HS256''), (''typ'', JString (as_header_str jwt_type))])) in
      case to_vec claims of
        None \<Rightarrow> Inl (StInternal ''Failed to serialize claims'')
      | Some payload_bytes \<Rightarrow>
          (let message = header_b64 @ ''.'' @ b64url jl payload_bytes in
           case generate_mac key_id message of
             Inl e \<Rightarrow> Inl (StInternal (''KMS GenerateMac failed: '' @ e))
           | Inr None \<Rightarrow> Inl (StInternal ''KMS GenerateMac returned no MAC'')
           | Inr (Some mac) \<Rightarrow> Inr (message @ ''.'' @ b64url jl mac)))"

definition signer_decode ::
    "jose_lib \<Rightarrow> (string, 'c) jwt_decoder \<Rightarrow> (string \<Rightarrow> string \<Rightarrow> string \<Rightarrow> string + bool) \<Rightarrow> (string \<Rightarrow> 'c option)
       \<Rightarrow> state_token_signer \<Rightarrow> string \<Rightarrow> jwt_type \<Rightarrow> timestamp \<Rightarrow> state_token_error + 'c" where
  "signer_decode jl decode verify_mac from_slice signer token jwt_type now =
     (case signer of
        LocalSigner secret \<Rightarrow>
          (case decode_state_token jl decode token jwt_type secret now of Inl e \<Rightarrow> Inl (state_error_from e) | Inr c \<Rightarrow> Inr c)
      | KmsSigner key_id \<Rightarrow> kms_decode jl verify_mac from_slice key_id token jwt_type now)"

text \<open>Access tokens: the algorithm of the header, the library's checks, then type and time.\<close>

definition decode_es256_token ::
    "jose_lib \<Rightarrow> (string \<Rightarrow> string option) \<Rightarrow> ('k \<times> string, 'c) jwt_decoder \<Rightarrow> string \<Rightarrow> 'k \<Rightarrow> string \<Rightarrow> timestamp \<Rightarrow> 'c option" where
  "decode_es256_token jl decode_header decode token oidc_key expected_issuer now =
     (case decode_header token of
        None \<Rightarrow> None
      | Some alg \<Rightarrow>
          if alg \<noteq> ''ES256'' then None
          else (case decode token (oidc_key, expected_issuer) of
             Inl _ \<Rightarrow> None
           | Inr (typ, claims) \<Rightarrow>
               if typ \<noteq> Some (as_header_str AccessToken) then None
               else (case window_from_token jl token of
                  None \<Rightarrow> None
                | Some w \<Rightarrow> if accepts_own_token_at w now then Some claims else None)))"

section \<open>Algorithms, keys and the parse\<close>

lemma alg_from_str_as_str [simp]: "alg_from_str (alg_as_str a) = Some a"
  by (cases a) (simp_all add: alg_from_str_def)

lemma alg_from_str_SomeD: "alg_from_str s = Some a \<Longrightarrow> s = alg_as_str a"
  by (auto simp: alg_from_str_def split: if_splits)

lemma header_alg_roundtrip: "header_alg_as_str (header_alg_of s) = s"
  by (auto simp: header_alg_as_str_def header_alg_of_def dest: alg_from_str_SomeD split: option.splits)

lemma alg_as_str_inject [simp]: "alg_as_str a = alg_as_str b \<longleftrightarrow> a = b"
  by (metis alg_from_str_as_str option.inject)

lemma published_key_is_public:
  "\<not> carries_private_key (Ec (ec_for_jwks k x y))" "\<not> carries_private_key (Rsa (rsa_for_jwks k n e))"
  by (simp_all add: carries_private_key_def ec_for_jwks_def rsa_for_jwks_def)

lemma jws_parse_InrD:
  assumes "jws_parse jl token = Inr w"
  obtains h p s hb where "token = h @ ''.'' @ p @ ''.'' @ s"
    and "CHR ''.'' \<notin> set h" and "CHR ''.'' \<notin> set p" and "CHR ''.'' \<notin> set s"
    and "decode_segment jl h = Some hb" and "header_from_slice jl hb = Some (jws_header w)"
    and "jws_payload_b64 w = p" and "jh_crit (jws_header w) = CritAbsent"
    and "case jh_jwk (jws_header w) of None \<Rightarrow> True | Some k \<Rightarrow> \<not> carries_private_key k"
proof -
  obtain h p s where sp: "split_on (CHR ''.'') token = [h, p, s]"
    using assms by (auto simp: jws_parse_def split: list.splits)
  obtain hb hd where hb: "decode_segment jl h = Some hb" "header_from_slice jl hb = Some hd"
    and w: "jh_crit hd \<noteq> CritPresent" "\<not> (case jh_jwk hd of Some k \<Rightarrow> carries_private_key k | None \<Rightarrow> False)"
      "w = \<lparr>jws_header = hd, jws_payload_b64 = p\<rparr>"
    using assms by (auto simp: jws_parse_def sp split: option.splits if_splits)
  have free: "\<forall>f\<in>set [h, p, s]. CHR ''.'' \<notin> set f"
    using split_on_sep_free [of _ "CHR ''.''" token] sp by metis
  have "token = join_on (CHR ''.'') [h, p, s]"
    using join_split [of "CHR ''.''" token] sp by simp
  then have "token = h @ ''.'' @ p @ ''.'' @ s"
    by simp
  moreover have "jh_crit hd = CritAbsent"
    using w(1) by (cases "jh_crit hd") auto
  ultimately show ?thesis
    using that [of h p s hb] hb w free by (auto split: option.splits)
qed

lemma split_three:
  assumes "CHR ''.'' \<notin> set h" "CHR ''.'' \<notin> set p" "CHR ''.'' \<notin> set s"
  shows "split_on (CHR ''.'') (h @ ''.'' @ p @ ''.'' @ s) = [h, p, s]"
  using assms by (simp add: split_on_word split_on_last)

lemma splitn3_three:
  assumes "CHR ''.'' \<notin> set h" "CHR ''.'' \<notin> set p"
  shows "splitn3 (CHR ''.'') (h @ ''.'' @ p @ ''.'' @ s) = [h, p, s]"
  using assms by (simp add: splitn3_def split_once_word)


section \<open>Thumbprints identify keys\<close>

lemma canonical_jwk_inject: "canonical_jwk k = canonical_jwk k' \<longleftrightarrow> k = k'"
  by (cases k; cases k') (auto simp: canonical_jwk_def)

lemma thumbprint_from_canonical: "thumbprint_from_json (canonical_jwk k) = Some k"
  by (cases k) (simp_all add: thumbprint_from_json_def canonical_jwk_def)

text \<open>The members a signature is checked with; \<open>kid\<close>, \<open>alg\<close> and \<open>use\<close> are no part of a key.\<close>

fun public_members :: "jwk \<Rightarrow> string \<times> string list" where
  "public_members (Ec ec) = (''EC'', [ec_x ec, ec_y ec])"
| "public_members (Rsa rsa) = (''RSA'', [rsa_n rsa, rsa_e rsa])"
| "public_members (Okp okp) = (''OKP'', [okp_x okp])"

lemma thumbprint_key_public: "thumbprint_key k = thumbprint_key k' \<longleftrightarrow> public_members k = public_members k'"
proof -
  have e: "\<And>c. ec_curve_as_str c = ''P-256''" "\<And>c. okp_curve_as_str c = ''Ed25519''"
    by (metis ec_curve.exhaust ec_curve_as_str.simps) (metis okp_curve.exhaust okp_curve_as_str.simps)
  show ?thesis
    by (cases k; cases k') (auto simp: thumbprint_key_def e)
qed

text \<open>
  C28: The thumbprint of a key is that of its public members: keys that agree in them have one
  thumbprint whatever optional members they carry, and two keys of one thumbprint agree in them,
  unless their canonical texts are a collision of SHA-256. Base64 is decodable, and the JSON text
  of an object of strings determines it.
\<close>
theorem thumbprint_identifies_key:
  assumes b64: "\<And>s. b64url_decode jl (b64url jl s) = Some s"
    and json: "\<And>a b. json_text jl (canonical_jwk a) = json_text jl (canonical_jwk b) \<Longrightarrow> a = b"
  shows "(public_members k = public_members k' \<longrightarrow> thumbprint jl k = thumbprint jl k')
    \<and> (thumbprint jl k = thumbprint jl k' \<longrightarrow>
         public_members k = public_members k'
         \<or> (let c = json_text jl (canonical_jwk (thumbprint_key k));
                c' = json_text jl (canonical_jwk (thumbprint_key k'))
            in c \<noteq> c' \<and> sha256 jl c = sha256 jl c'))"
proof (intro conjI impI)
  assume "public_members k = public_members k'"
  then show "thumbprint jl k = thumbprint jl k'"
    unfolding thumbprint_def thumbprint_key_public [symmetric] by simp
next
  let ?c = "\<lambda>k. json_text jl (canonical_jwk (thumbprint_key k))"
  assume "thumbprint jl k = thumbprint jl k'"
  then have "b64url_decode jl (b64url jl (sha256 jl (?c k))) = b64url_decode jl (b64url jl (sha256 jl (?c k')))"
    by (simp add: thumbprint_def key_thumbprint_def)
  then have hash: "sha256 jl (?c k) = sha256 jl (?c k')"
    by (simp add: b64)
  show "public_members k = public_members k' \<or> (let c = ?c k; c' = ?c k' in c \<noteq> c' \<and> sha256 jl c = sha256 jl c')"
  proof (cases "?c k = ?c k'")
    case True
    then show ?thesis using json [of "thumbprint_key k" "thumbprint_key k'"] by (simp add: thumbprint_key_public)
  next
    case False
    then show ?thesis using hash by (simp add: Let_def)
  qed
qed

section \<open>Windows\<close>

lemma numeric_date_whole_second:
  assumes "from_second (as_second t) \<noteq> None"
  shows "numeric_date jl (numeric_date_serialize jl (whole_second t)) = Some (whole_second t)"
proof -
  have w: "whole_second t = as_second t * 10 ^ 9" and r: "from_second (as_second t) = Some (as_second t * 10 ^ 9)"
    using assms by (auto simp: whole_second_def from_second_def checked_timestamp_def split: if_splits)
  have s: "as_second (as_second t * 10 ^ 9) = as_second t"
    by (cases "0 \<le> as_second t") (simp_all add: as_second_def [of "_ * _"] mult_less_0_iff not_le)
  have "as_second t < 2 ^ 63"
    using r by (simp add: from_second_def checked_timestamp_def TIMESTAMP_MAX_def split: if_splits)
  then show ?thesis
    unfolding numeric_date_serialize_def subsec_nanosecond_def w s by (simp add: r)
qed

lemma own_token_window:
  assumes "TIMESTAMP_MIN \<le> now" "now \<le> TIMESTAMP_MAX"
    and "\<And>n. vw_not_before w = Some n \<Longrightarrow> n \<le> TIMESTAMP_MAX"
  shows "accepts_own_token_at w now \<longleftrightarrow>
    (\<exists>x. vw_expires w = Some x \<and> now < x)
    \<and> (case vw_not_before w of None \<Rightarrow> True | Some n \<Rightarrow> n - 60 * 10 ^ 9 \<le> now)"
proof (cases "vw_not_before w")
  case None
  then show ?thesis
    using assms(1, 2)
    by (auto simp: accepts_own_token_at_def accepts_at_def expired_at_def not_yet_valid_at_def
        checked_add_secs_def checked_timestamp_def split: option.splits)
next
  case (Some n)
  have "\<not> not_yet_valid_at w now OWN_TOKEN_NBF_LEEWAY_SECS \<longleftrightarrow> n - 60 * 10 ^ 9 \<le> now"
    using assms(1, 2) assms(3) [OF Some] Some
    by (simp add: not_yet_valid_at_def checked_add_secs_def checked_timestamp_def
        OWN_TOKEN_NBF_LEEWAY_SECS_def not_less le_diff_eq) linarith
  moreover have "expired_at w now 0 \<longleftrightarrow> (\<exists>x. vw_expires w = Some x \<and> x \<le> now)"
    using assms(1, 2) by (auto simp: expired_at_def checked_add_secs_def checked_timestamp_def split: option.splits)
  ultimately show ?thesis
    using Some by (auto simp: accepts_own_token_at_def accepts_at_def)
qed

text \<open>
  C19: A token of the server's own is accepted exactly from a minute before its \<open>nbf\<close> until just
  before its \<open>exp\<close>, which it must have. Where its claims are whole seconds, cutting the clock to
  the whole second changes no verdict.
\<close>
theorem own_token_accepted_iff:
  assumes now: "0 \<le> now" "now \<le> TIMESTAMP_MAX"
    and exp: "vw_expires w = Some (x * 10 ^ 9)"
    and nbf: "vw_not_before w = Some (n * 10 ^ 9)" "n * 10 ^ 9 \<le> TIMESTAMP_MAX"
  shows "(accepts_own_token_at w now \<longleftrightarrow> (n - 60) * 10 ^ 9 \<le> now \<and> now < x * 10 ^ 9)
    \<and> (accepts_own_token_at w (whole_second now) \<longleftrightarrow> accepts_own_token_at w now)"
proof -
  define f where "f = now div 10 ^ 9"
  have f: "f * 10 ^ 9 \<le> now" "now < f * 10 ^ 9 + 10 ^ 9" "0 \<le> f"
    using now(1) by (auto simp: f_def)
  have cut: "m * 10 ^ 9 \<le> f * 10 ^ 9 \<longleftrightarrow> m * 10 ^ 9 \<le> now" for m :: int
    using f(1, 2) by (auto intro: order_trans)
  have min: "TIMESTAMP_MIN \<le> 0"
    by (simp add: TIMESTAMP_MIN_def)
  have "as_second now = f"
    using now(1) by (simp add: as_second_def f_def)
  moreover have "TIMESTAMP_MIN \<le> f * 10 ^ 9 \<and> f * 10 ^ 9 \<le> TIMESTAMP_MAX"
    using now(2) f order_trans [OF min, of "f * 10 ^ 9"] by auto
  ultimately have w: "whole_second now = f * 10 ^ 9"
    by (simp add: whole_second_def from_second_def checked_timestamp_def)
  have verdict: "accepts_own_token_at w t \<longleftrightarrow> (n - 60) * 10 ^ 9 \<le> t \<and> t < x * 10 ^ 9"
    if "0 \<le> t" "t \<le> TIMESTAMP_MAX" for t
    using own_token_window [of t w] that exp nbf min by (auto simp: left_diff_distrib)
  show ?thesis
    using verdict [of now] verdict [of "f * 10 ^ 9"] cut [of x] cut [of "n - 60"] now f w by auto
qed

section \<open>State tokens\<close>

lemma as_header_str_inject [simp]: "as_header_str a = as_header_str b \<longleftrightarrow> a = b"
  by (cases a; cases b) simp_all

lemma decode_state_token_InrD:
  assumes "decode_state_token jl decode token ty secret now = Inr c"
  shows "decode token secret = Inr (Some (as_header_str ty), c)"
    "\<exists>w. window_from_token jl token = Some w \<and> accepts_own_token_at w now"
  using assms by (auto simp: decode_state_token_def split: sum.splits option.splits if_splits)

lemma decode_es256_token_SomeD:
  assumes "decode_es256_token jl dh decode token k iss now = Some c"
  shows "dh token = Some ''ES256''" "decode token (k, iss) = Inr (Some ''at+jwt'', c)"
    "\<exists>w. window_from_token jl token = Some w \<and> accepts_own_token_at w now"
  using assms by (auto simp: decode_es256_token_def split: sum.splits option.splits if_splits)

lemma kms_decode_InrD:
  assumes "kms_decode jl verify_mac from_slice key token ty now = Inr c"
  obtains h p s sb hb hj pb raw w where "splitn3 (CHR ''.'') token = [h, p, s]"
    "b64url_decode jl s = Some sb" "verify_mac key (h @ ''.'' @ p) sb = Inr True"
    "b64url_decode jl h = Some hb" "json_parse jl hb = Some hj"
    "Option.bind (jget ''typ'' hj) jstr = Some (as_header_str ty)"
    "b64url_decode jl p = Some pb" "json_parse jl pb = Some raw"
    "window_from_payload jl raw = Some w" "accepts_own_token_at w now" "from_slice pb = Some c"
  using assms
  by (auto simp: kms_decode_def split: list.splits option.splits sum.splits if_splits)

text \<open>
  C18: One token is never two kinds of state: whichever signer is configured and whatever the two
  claim types are, a token decoded as a state of one type is refused as a state of every other.
  The library reads the \<open>typ\<close> of a token from the token alone.
\<close>
theorem state_token_has_one_type:
  fixes decode :: "(string, 'c) jwt_decoder" and decode' :: "(string, 'd) jwt_decoder"
  assumes same: "\<And>k k' t c t' c'. decode token k = Inr (t, c) \<Longrightarrow> decode' token k' = Inr (t', c') \<Longrightarrow> t = t'"
    and "signer_decode jl decode verify_mac from_slice signer token ty now = Inr c"
    and "ty \<noteq> ty'"
  shows "\<exists>e. signer_decode jl decode' verify_mac from_slice' signer token ty' now' = Inl e"
proof (rule ccontr)
  assume "\<not> ?thesis"
  then obtain d where d: "signer_decode jl decode' verify_mac from_slice' signer token ty' now' = Inr d"
    by (cases "signer_decode jl decode' verify_mac from_slice' signer token ty' now'") auto
  have "as_header_str ty = as_header_str ty'"
  proof (cases signer)
    case (LocalSigner secret)
    then have a: "decode_state_token jl decode token ty secret now = Inr c"
      and b: "decode_state_token jl decode' token ty' secret now' = Inr d"
      using assms(2) d by (simp_all add: signer_decode_def split: sum.splits)
    show ?thesis
      using same [OF decode_state_token_InrD(1) [OF a] decode_state_token_InrD(1) [OF b]] by simp
  next
    case (KmsSigner key)
    then have a: "kms_decode jl verify_mac from_slice key token ty now = Inr c"
      and b: "kms_decode jl verify_mac from_slice' key token ty' now' = Inr d"
      using assms(2) d by (simp_all add: signer_decode_def)
    obtain h p s hb hj where "splitn3 (CHR ''.'') token = [h, p, s]" "b64url_decode jl h = Some hb"
      "json_parse jl hb = Some hj" "Option.bind (jget ''typ'' hj) jstr = Some (as_header_str ty)"
      using a by (rule kms_decode_InrD)
    moreover obtain h' p' s' hb' hj' where "splitn3 (CHR ''.'') token = [h', p', s']" "b64url_decode jl h' = Some hb'"
      "json_parse jl hb' = Some hj'" "Option.bind (jget ''typ'' hj') jstr = Some (as_header_str ty')"
      using b by (rule kms_decode_InrD)
    ultimately show ?thesis by simp
  qed
  with assms(3) show False by simp
qed

text \<open>
  What the key management service signs is read back: a state encoded under a key decodes
  under it, as its own type and inside its window, to the claims that were encoded. Base64 is
  decodable and has no full stop, the header's JSON is read back, claims are read from the text
  they are written as, and the service accepts the MAC it made.
\<close>
theorem kms_state_token_roundtrip:
  assumes b64: "\<And>s. b64url_decode jl (b64url jl s) = Some s" "\<And>s. CHR ''.'' \<notin> set (b64url jl s)"
    and header: "\<And>t. json_parse jl (json_text jl (JObject [(''alg'', JString ''HS256''), (''typ'', JString t)]))
        = Some (JObject [(''alg'', JString ''HS256''), (''typ'', JString t)])"
    and claims: "to_vec claims = Some body" "from_slice body = Some claims"
      "json_parse jl body = Some raw" "window_from_payload jl raw = Some w"
    and mac: "\<And>m t. generate_mac key m = Inr (Some t) \<Longrightarrow> verify_mac key m t = Inr True"
    and enc: "kms_encode jl generate_mac to_vec key claims ty = Inr token"
  shows "kms_decode jl verify_mac from_slice key token ty now =
    (if accepts_own_token_at w now then Inr claims else Inl StExpired)"
proof -
  let ?h = "b64url jl (json_text jl (JObject [(''alg'', JString ''HS256''), (''typ'', JString (as_header_str ty))]))"
  let ?p = "b64url jl body"
  obtain t where t: "generate_mac key (?h @ ''.'' @ ?p) = Inr (Some t)"
    and token: "token = ?h @ ''.'' @ ?p @ ''.'' @ b64url jl t"
    using enc claims(1) by (auto simp: kms_encode_def Let_def split: sum.splits option.splits)
  have "splitn3 (CHR ''.'') token = [?h, ?p, b64url jl t]"
    unfolding token by (rule splitn3_three) (rule b64(2))+
  then show ?thesis
    using mac [OF t] by (simp add: kms_decode_def b64(1) header claims)
qed

section \<open>A concrete library\<close>

text \<open>
  An encoding without full stops, a hash that is the text itself, headers and bodies told apart
  by their first character.
\<close>

fun demo_b64 :: "string \<Rightarrow> string" where
  "demo_b64 [] = []"
| "demo_b64 (c # s) = (if c = CHR ''.'' then ''_d'' else [c, CHR ''-'']) @ demo_b64 s"

fun demo_unb64 :: "string \<Rightarrow> string option" where
  "demo_unb64 [] = Some []"
| "demo_unb64 [_] = None"
| "demo_unb64 (c # d # s) = map_option (Cons (if d = CHR ''d'' then CHR ''.'' else c)) (demo_unb64 s)"

definition demo_json :: "jvalue \<Rightarrow> string" where
  "demo_json v =
     (case Option.bind (jget ''typ'' v) jstr of
        Some t \<Rightarrow> ''h'' @ t
      | None \<Rightarrow>
          (case thumbprint_from_json v of
             Some (TpEc c x y) \<Rightarrow> ''E'' @ demo_b64 c @ ''.'' @ demo_b64 x @ ''.'' @ y
           | Some (TpRsa e n) \<Rightarrow> ''R'' @ demo_b64 e @ ''.'' @ n
           | Some (TpOkp c x) \<Rightarrow> ''O'' @ demo_b64 c @ ''.'' @ x
           | None \<Rightarrow> []))"

definition demo_parse :: "string \<Rightarrow> jvalue option" where
  "demo_parse s =
     (case s of
        [] \<Rightarrow> None
      | c # t \<Rightarrow> Some (if c = CHR ''h'' then JObject [(''alg'', JString ''HS256''), (''typ'', JString t)]
                     else JObject [(''exp'', JInt 1000), (''nbf'', JInt 100)]))"

definition demo_jwk :: jwk where
  "demo_jwk = Ec \<lparr>ec_crv = P256, ec_x = ''X'', ec_y = ''Y'', ec_kid = None, ec_alg = None, ec_use = None, ec_d = KeyAbsent\<rparr>"

definition demo_jose :: jose_lib where
  "demo_jose = \<lparr>b64url = demo_b64, b64url_decode = demo_unb64, b64std_decode = demo_unb64,
     sha256 = (\<lambda>s. s), json_text = demo_json, json_parse = demo_parse,
     float_instant = (\<lambda>_. None), instant_float = (\<lambda>_. []),
     header_from_slice = (\<lambda>s. if s = ''dpop'' then Some \<lparr>jh_alg = Known Es256, jh_typ = Some ''dpop+jwt'',
        jh_kid = None, jh_jwk = Some demo_jwk, jh_crit = CritAbsent\<rparr> else None)\<rparr>"

lemma demo_b64_roundtrip: "demo_unb64 (demo_b64 s) = Some s"
  by (induction s) auto

lemma demo_b64_dot: "CHR ''.'' \<notin> set (demo_b64 s)"
  by (induction s) auto

lemma demo_b64_inject: "demo_b64 s @ ''.'' @ x = demo_b64 t @ ''.'' @ y \<longleftrightarrow> s = t \<and> x = y"
proof
  assume "demo_b64 s @ ''.'' @ x = demo_b64 t @ ''.'' @ y"
  then have "split_once (CHR ''.'') (demo_b64 s @ CHR ''.'' # x) = split_once (CHR ''.'') (demo_b64 t @ CHR ''.'' # y)"
    by simp
  then have "demo_b64 s = demo_b64 t \<and> x = y"
    by (simp add: split_once_word demo_b64_dot)
  then show "s = t \<and> x = y"
    by (metis demo_b64_roundtrip option.inject)
qed auto

lemma demo_json_canonical: "demo_json (canonical_jwk a) = demo_json (canonical_jwk b) \<longleftrightarrow> a = b"
proof -
  have "jget ''typ'' (canonical_jwk k) = None" for k
    by (cases k) (simp_all add: canonical_jwk_def)
  then show ?thesis
    by (cases a; cases b) (use demo_b64_inject in \<open>simp_all add: demo_json_def thumbprint_from_canonical\<close>)
qed

lemma demo_header: "demo_parse (demo_json (JObject [(''alg'', JString ''HS256''), (''typ'', JString t)])) =
    Some (JObject [(''alg'', JString ''HS256''), (''typ'', JString t)])"
  by (simp add: demo_parse_def demo_json_def)

theorem thumbprint_identifies_key_witness:
  "thumbprint demo_jose demo_jwk = thumbprint demo_jose (Ec (ec_for_jwks ''kid'' ''X'' ''Y''))"
  using thumbprint_identifies_key [of demo_jose demo_jwk "Ec (ec_for_jwks ''kid'' ''X'' ''Y'')"]
  by (simp add: demo_jose_def demo_b64_roundtrip demo_json_canonical demo_jwk_def ec_for_jwks_def)

theorem own_token_accepted_iff_witness:
  "let w = window_from_claims (Some (1000 * 10 ^ 9)) (Some (100 * 10 ^ 9))
   in accepts_own_token_at w (40 * 10 ^ 9) \<and> \<not> accepts_own_token_at w (40 * 10 ^ 9 - 1)
    \<and> accepts_own_token_at w (1000 * 10 ^ 9 - 1) \<and> \<not> accepts_own_token_at w (1000 * 10 ^ 9)"
  using own_token_accepted_iff [of "40 * 10 ^ 9" "window_from_claims (Some (1000 * 10 ^ 9)) (Some (100 * 10 ^ 9))" 1000 100]
    own_token_accepted_iff [of "40 * 10 ^ 9 - 1" "window_from_claims (Some (1000 * 10 ^ 9)) (Some (100 * 10 ^ 9))" 1000 100]
    own_token_accepted_iff [of "1000 * 10 ^ 9 - 1" "window_from_claims (Some (1000 * 10 ^ 9)) (Some (100 * 10 ^ 9))" 1000 100]
    own_token_accepted_iff [of "1000 * 10 ^ 9" "window_from_claims (Some (1000 * 10 ^ 9)) (Some (100 * 10 ^ 9))" 1000 100]
  by (simp add: window_from_claims_def TIMESTAMP_MAX_def)

definition demo_state :: string where
  "demo_state = demo_b64 (''h'' @ as_header_str GitHubState) @ ''.'' @ demo_b64 ''{}'' @ ''.'' @ demo_b64 ''m''"

theorem kms_state_token_roundtrip_witness:
  "kms_decode demo_jose (\<lambda>_ _ s. Inr (s = ''m'')) Some ''key'' demo_state GitHubState (200 * 10 ^ 9) = Inr ''{}''
   \<and> kms_decode demo_jose (\<lambda>_ _ s. Inr (s = ''m'')) Some ''key'' demo_state GitHubState (1000 * 10 ^ 9) = Inl StExpired"
proof -
  let ?w = "window_from_claims (Some (1000 * 10 ^ 9)) (Some (100 * 10 ^ 9))"
  let ?raw = "JObject [(''exp'', JInt 1000), (''nbf'', JInt 100)]"
  have w: "window_from_payload demo_jose ?raw = Some ?w"
    by (simp add: window_from_payload_def from_second_def checked_timestamp_def TIMESTAMP_MAX_def TIMESTAMP_MIN_def)
  have enc: "kms_encode demo_jose (\<lambda>_ _. Inr (Some ''m'')) Some ''key'' ''{}'' GitHubState = Inr demo_state"
    by (simp add: kms_encode_def demo_jose_def demo_state_def demo_json_def)
  have dec: "kms_decode demo_jose (\<lambda>_ _ s. Inr (s = ''m'')) Some ''key'' demo_state GitHubState now =
      (if accepts_own_token_at ?w now then Inr ''{}'' else Inl StExpired)" for now
    by (rule kms_state_token_roundtrip [where generate_mac = "\<lambda>_ _. Inr (Some ''m'')" and body = "''{}''" and raw = ?raw
          and to_vec = Some])
      (use w enc in \<open>auto simp: demo_jose_def demo_b64_roundtrip demo_b64_dot demo_parse_def demo_json_def\<close>)
  show ?thesis
    unfolding dec
    by (simp add: accepts_own_token_at_def accepts_at_def expired_at_def not_yet_valid_at_def window_from_claims_def
        checked_add_secs_def checked_timestamp_def OWN_TOKEN_NBF_LEEWAY_SECS_def TIMESTAMP_MAX_def TIMESTAMP_MIN_def)
qed

theorem state_token_has_one_type_witness:
  "\<exists>e. signer_decode demo_jose (\<lambda>_ _. Inl InvalidToken :: jwt_error + (string option \<times> string))
      (\<lambda>_ _ s. Inr (s = ''m'')) Some (KmsSigner ''key'') demo_state RegistrationState (200 * 10 ^ 9) = Inl e"
proof (rule state_token_has_one_type)
  show "signer_decode demo_jose (\<lambda>_ _. Inl InvalidToken :: jwt_error + (string option \<times> string))
      (\<lambda>_ _ s. Inr (s = ''m'')) Some (KmsSigner ''key'') demo_state GitHubState (200 * 10 ^ 9) = Inr ''{}''"
    by code_simp
qed auto

end
