(* ===== verification/Oidc_Error.thy ===== *)
theory Oidc_Error
  imports Sfv "HOL-Library.Char_ord"
begin

text \<open>
  Errors of the services and the HTTP authentication headers that carry them
  (\<open>vouch-server/src/error.rs\<close>, \<open>http.rs\<close>). \<open>HeaderValue::from_str\<close> is a parameter.
\<close>

section \<open>Authentication headers\<close>

definition eq_ignore_ascii_case :: "string \<Rightarrow> string \<Rightarrow> bool" where
  "eq_ignore_ascii_case a b \<longleftrightarrow> to_ascii_lowercase a = to_ascii_lowercase b"

definition strip_auth_scheme :: "string \<Rightarrow> string \<Rightarrow> string option" where
  "strip_auth_scheme header_value scheme =
     (case split_once (CHR '' '') header_value of
        None \<Rightarrow> None
      | Some (value_scheme, token) \<Rightarrow> if eq_ignore_ascii_case value_scheme scheme then Some token else None)"

text \<open>A header map keeps the values of a name in their order; \<open>to_str\<close> reads visible ASCII.\<close>

type_synonym header_map = "(string \<times> string) list"

definition get_all :: "header_map \<Rightarrow> string \<Rightarrow> string list" where
  "get_all hs name = map snd (filter (\<lambda>(n, _). n = name) hs)"

definition header_to_str :: "string \<Rightarrow> string option" where
  "header_to_str v = (if \<forall>c \<in> set v. (32 \<le> (of_char c :: nat) \<and> of_char c < (127 :: nat)) \<or> of_char c = (9 :: nat) then Some v else None)"

definition bearer_token :: "header_map \<Rightarrow> string option" where
  "bearer_token headers =
     (case get_all headers ''authorization'' of
        [] \<Rightarrow> None
      | v # _ \<Rightarrow> Option.bind (header_to_str v) (\<lambda>v. strip_auth_scheme v ''Bearer''))"

definition challenge_char :: "char \<Rightarrow> bool" where
  "challenge_char c \<longleftrightarrow>
     CHR '' '' \<le> c \<and> c \<le> CHR ''!'' \<or> CHR ''#'' \<le> c \<and> c \<le> CHR ''['' \<or> CHR '']'' \<le> c \<and> c \<le> CHR ''~''"

definition sanitize_challenge_value :: "string \<Rightarrow> string" where
  "sanitize_challenge_value v = filter challenge_char v"

definition render_param :: "string \<times> string \<Rightarrow> string" where
  "render_param p = fst p @ ''='' @ [CHR 0x22] @ sanitize_challenge_value (snd p) @ [CHR 0x22]"

fun join_with :: "string \<Rightarrow> string list \<Rightarrow> string" where
  "join_with sep [] = []"
| "join_with sep [w] = w"
| "join_with sep (w # ws) = w @ sep @ join_with sep ws"

definition challenge :: "string \<Rightarrow> (string \<times> string) list \<Rightarrow> string" where
  "challenge scheme params =
     (if params = [] then scheme else scheme @ '' '' @ join_with '', '' (map render_param params))"

definition bearer_challenge :: "(string \<times> string) list \<Rightarrow> string" where
  "bearer_challenge = challenge ''Bearer''"

definition dpop_challenge :: "(string \<times> string) list \<Rightarrow> string" where
  "dpop_challenge = challenge ''DPoP''"

section \<open>Error codes and responses\<close>

datatype oauth_error_code =
  InvalidRequest | InvalidClient | InvalidGrant | UnauthorizedClient | UnsupportedGrantType | InvalidScope
| ServerError | AccessDenied | UnsupportedResponseType | InvalidTokenCode | InvalidDpopProof | UseDpopNonce
| InvalidTarget | InsufficientUserAuthentication | UnmetAuthenticationRequirements | InvalidRequestObject
| InvalidRedirectUri | InvalidClientMetadata | InvalidAuthorizationDetails | InvalidRequestUri
| LoginRequired | AccountSelectionRequired

definition BAD_REQUEST :: nat where "BAD_REQUEST = 400"
definition UNAUTHORIZED :: nat where "UNAUTHORIZED = 401"
definition FORBIDDEN :: nat where "FORBIDDEN = 403"
definition NOT_FOUND :: nat where "NOT_FOUND = 404"
definition CONFLICT :: nat where "CONFLICT = 409"
definition INTERNAL_SERVER_ERROR :: nat where "INTERNAL_SERVER_ERROR = 500"

definition status_code :: "oauth_error_code \<Rightarrow> nat" where
  "status_code c =
     (case c of
        InvalidClient \<Rightarrow> UNAUTHORIZED
      | InsufficientUserAuthentication \<Rightarrow> UNAUTHORIZED
      | InvalidTokenCode \<Rightarrow> UNAUTHORIZED
      | ServerError \<Rightarrow> INTERNAL_SERVER_ERROR
      | _ \<Rightarrow> BAD_REQUEST)"

fun code_as_str :: "oauth_error_code \<Rightarrow> string" where
  "code_as_str InvalidRequest = ''invalid_request''"
| "code_as_str InvalidClient = ''invalid_client''"
| "code_as_str InvalidGrant = ''invalid_grant''"
| "code_as_str UnauthorizedClient = ''unauthorized_client''"
| "code_as_str UnsupportedGrantType = ''unsupported_grant_type''"
| "code_as_str InvalidScope = ''invalid_scope''"
| "code_as_str UnsupportedResponseType = ''unsupported_response_type''"
| "code_as_str ServerError = ''server_error''"
| "code_as_str AccessDenied = ''access_denied''"
| "code_as_str InvalidTokenCode = ''invalid_token''"
| "code_as_str InvalidDpopProof = ''invalid_dpop_proof''"
| "code_as_str UseDpopNonce = ''use_dpop_nonce''"
| "code_as_str InvalidTarget = ''invalid_target''"
| "code_as_str InsufficientUserAuthentication = ''insufficient_user_authentication''"
| "code_as_str UnmetAuthenticationRequirements = ''unmet_authentication_requirements''"
| "code_as_str InvalidRequestObject = ''invalid_request_object''"
| "code_as_str InvalidRedirectUri = ''invalid_redirect_uri''"
| "code_as_str InvalidClientMetadata = ''invalid_client_metadata''"
| "code_as_str InvalidAuthorizationDetails = ''invalid_authorization_details''"
| "code_as_str InvalidRequestUri = ''invalid_request_uri''"
| "code_as_str LoginRequired = ''login_required''"
| "code_as_str AccountSelectionRequired = ''account_selection_required''"

datatype inactive_account = AccountNotFound | AccountDeactivated

fun inactive_to_string :: "inactive_account \<Rightarrow> string" where
  "inactive_to_string AccountNotFound = ''User not found''"
| "inactive_to_string AccountDeactivated = ''User account is deactivated''"

datatype service_error =
  NotFound string
| Validation string
| Forbidden string
| Conflict string
| OAuth oauth_error_code string
| Api nat string string
| ApiWithHeaders nat string string header_map
| InactiveAccount inactive_account
| StepUpRequired "string option" "nat option"
| OccConflict
| DatabaseError string
| Internal string

definition INACTIVE_ACCOUNT_CODE :: string where
  "INACTIVE_ACCOUNT_CODE = ''unauthorized''"

definition service_retryable :: "service_error \<Rightarrow> bool" where
  "service_retryable e \<longleftrightarrow> e = OccConflict"

text \<open>The body of an error: the OAuth form with its description, or the form of the API.\<close>

datatype error_body = OAuthBody string "string option" | ApiBody string string

definition error_description :: "string \<Rightarrow> string" where
  "error_description text = sanitize_challenge_value text"

definition into_oauth_response :: "service_error \<Rightarrow> nat \<times> error_body" where
  "into_oauth_response e =
     (let described = (\<lambda>status ec text. (status, OAuthBody ec (Some (error_description text)))) in
      case e of
        OAuth ec description \<Rightarrow> described (status_code ec) (code_as_str ec) description
      | NotFound entity \<Rightarrow> described NOT_FOUND (code_as_str InvalidRequest) (entity @ '' not found'')
      | Validation msg \<Rightarrow> described BAD_REQUEST (code_as_str InvalidRequest) msg
      | Api status ec message \<Rightarrow>
          if status = UNAUTHORIZED then described status ec message
          else described INTERNAL_SERVER_ERROR (code_as_str ServerError) ''Internal server error''
      | InactiveAccount reason \<Rightarrow> described UNAUTHORIZED INACTIVE_ACCOUNT_CODE (inactive_to_string reason)
      | ApiWithHeaders status ec message _ \<Rightarrow>
          if status = UNAUTHORIZED then described status ec message
          else described INTERNAL_SERVER_ERROR (code_as_str ServerError) ''Internal server error''
      | Forbidden _ \<Rightarrow> described FORBIDDEN (code_as_str AccessDenied) ''Access denied''
      | StepUpRequired _ _ \<Rightarrow>
          described UNAUTHORIZED (code_as_str InsufficientUserAuthentication) ''A recent authentication is required''
      | _ \<Rightarrow> described INTERNAL_SERVER_ERROR (code_as_str ServerError) ''Internal server error'')"

definition build_www_authenticate :: "string option \<Rightarrow> nat option \<Rightarrow> string" where
  "build_www_authenticate acr_values max_age =
     bearer_challenge
       ([(''error'', code_as_str InsufficientUserAuthentication),
         (''error_description'', ''A recent authentication is required'')]
        @ (case acr_values of Some acr \<Rightarrow> [(''acr_values'', acr)] | None \<Rightarrow> [])
        @ (case max_age of Some age \<Rightarrow> [(''max_age'', show_nat age)] | None \<Rightarrow> []))"

record error_response =
  er_status :: nat
  er_headers :: header_map
  er_body :: error_body

definition into_api_response :: "(string \<Rightarrow> string option) \<Rightarrow> service_error \<Rightarrow> error_response" where
  "into_api_response from_str e =
     (let api = (\<lambda>status ec message. \<lparr>er_status = status, er_headers = [], er_body = ApiBody ec message\<rparr>) in
      case e of
        NotFound entity \<Rightarrow> api NOT_FOUND ''not_found'' (entity @ '' not found'')
      | Validation msg \<Rightarrow> api BAD_REQUEST ''invalid_request'' msg
      | Forbidden msg \<Rightarrow> api FORBIDDEN ''forbidden'' msg
      | Conflict msg \<Rightarrow> api CONFLICT ''conflict'' msg
      | InactiveAccount reason \<Rightarrow> api UNAUTHORIZED INACTIVE_ACCOUNT_CODE (inactive_to_string reason)
      | Api status ec message \<Rightarrow> api status ec message
      | ApiWithHeaders status ec message headers \<Rightarrow>
          \<lparr>er_status = status, er_headers = headers, er_body = ApiBody ec message\<rparr>
      | StepUpRequired acr_values max_age \<Rightarrow>
          \<lparr>er_status = UNAUTHORIZED,
           er_headers = [(''www-authenticate'',
             case from_str (build_www_authenticate acr_values max_age) of
               Some v \<Rightarrow> v
             | None \<Rightarrow> ''Bearer error='' @ [CHR 0x22] @ ''insufficient_user_authentication'' @ [CHR 0x22])],
           er_body = OAuthBody ''insufficient_user_authentication'' (Some ''A recent authentication is required'')\<rparr>
      | OAuth _ _ \<Rightarrow>
          (case into_oauth_response e of (status, body) \<Rightarrow> \<lparr>er_status = status, er_headers = [], er_body = body\<rparr>)
      | _ \<Rightarrow> api INTERNAL_SERVER_ERROR ''internal_error'' ''Internal error'')"

section \<open>Nothing escapes its quotes\<close>

lemma challenge_char_quote [simp]: "\<not> challenge_char (CHR 0x22)" "\<not> challenge_char (CHR 0x5C)"
  by (simp_all add: challenge_char_def less_eq_char_def)

lemma sanitize_quote [simp]: "CHR 0x22 \<notin> set (sanitize_challenge_value v)"
  by (simp add: sanitize_challenge_value_def)

lemma sanitize_idem: "sanitize_challenge_value (sanitize_challenge_value v) = sanitize_challenge_value v"
  by (simp add: sanitize_challenge_value_def)

lemma code_as_str_inject: "code_as_str a = code_as_str b \<longleftrightarrow> a = b"
  by (cases a; cases b; simp)

fun every_other :: "'a list \<Rightarrow> 'a list" where
  "every_other (x # y # xs) = y # every_other xs"
| "every_other _ = []"

lemma split_params:
  assumes "\<And>p. p \<in> set params \<Longrightarrow> CHR 0x22 \<notin> set (fst p)" and "params \<noteq> []" and "CHR 0x22 \<notin> set pre"
  shows "every_other (split_on (CHR 0x22) (pre @ join_with '', '' (map render_param params)))
    = map (\<lambda>p. sanitize_challenge_value (snd p)) params"
  using assms
proof (induction params arbitrary: pre)
  case (Cons p ps)
  have p: "CHR 0x22 \<notin> set (fst p)" using Cons.prems(1) [of p] by simp
  have head: "split_on (CHR 0x22) (pre @ render_param p @ rest)
      = (pre @ fst p @ ''='') # sanitize_challenge_value (snd p) # split_on (CHR 0x22) rest" for rest
    using split_on_word [of "CHR 0x22" "pre @ fst p @ ''=''" "sanitize_challenge_value (snd p) @ CHR 0x22 # rest"]
      split_on_word [of "CHR 0x22" "sanitize_challenge_value (snd p)" rest] p Cons.prems(3)
    by (simp add: render_param_def)
  show ?case
  proof (cases ps)
    case Nil
    then show ?thesis using head [of "[]"] by simp
  next
    case (Cons p' ps')
    have "every_other (split_on (CHR 0x22) ('', '' @ join_with '', '' (map render_param ps)))
        = map (\<lambda>p. sanitize_challenge_value (snd p)) ps"
      using Cons Cons.prems by (intro Cons.IH) auto
    then show ?thesis
      using head [of "'', '' @ join_with '', '' (map render_param ps)"] Cons by simp
  qed
qed simp

text \<open>
  No value of a challenge escapes its quotes: whatever texts the parameters carry, splitting
  the rendered header at its quotes gives back the scheme and names at the even places and, at
  the odd places, the values without the characters that OAuth does not permit.
\<close>
theorem challenge_values_stay_quoted:
  assumes "CHR 0x22 \<notin> set scheme" and "list_all (\<lambda>p. CHR 0x22 \<notin> set (fst p)) params"
  shows "every_other (split_on (CHR 0x22) (challenge scheme params)) = map (\<lambda>p. filter challenge_char (snd p)) params"
proof (cases "params = []")
  case True
  then show ?thesis using assms(1) by (simp add: challenge_def split_on_last)
next
  case False
  then show ?thesis
    using split_params [of params "scheme @ '' ''"] assms
    by (simp add: challenge_def sanitize_challenge_value_def [symmetric] list_all_iff)
qed

theorem challenge_values_stay_quoted_witness:
  "every_other (split_on (CHR 0x22) (dpop_challenge [(''error'', ''a'' @ [CHR 0x22] @ '', x=''), (''algs'', ''ES256'')]))
     = [''a, x='', ''ES256'']"
  using challenge_values_stay_quoted [of "''DPoP''" "[(''error'', ''a'' @ [CHR 0x22] @ '', x=''), (''algs'', ''ES256'')]"]
  by (simp add: dpop_challenge_def challenge_char_def less_eq_char_def)

lemma scheme_case:
  "strip_auth_scheme (s @ '' '' @ token) scheme = Some token
     \<longleftrightarrow> to_ascii_lowercase s = to_ascii_lowercase scheme" if "CHR '' '' \<notin> set s"
  using that by (simp add: strip_auth_scheme_def split_once_word eq_ignore_ascii_case_def)

text \<open>Internal failures tell a client nothing but that they happened.\<close>

lemma internal_errors_are_opaque:
  "into_oauth_response (Internal m) = into_oauth_response (Internal m')"
  "into_api_response f (Internal m) = into_api_response f (DatabaseError m')"
  by (simp_all add: into_oauth_response_def into_api_response_def)

end
