(* ===== verification/Flow.thy ===== *)
theory Flow
  imports Interleaving
begin

text \<open>
  Request handlers over a shared service. A handler computes, calls the service, and takes
  input from elsewhere (other parts of the server, clocks, random values). A call is a task of
  the system of \<open>Interleaving\<close>: it runs step by step among all others, and the handler goes
  on once the task has returned. The locale \<open>handled\<close> relates the answers of handlers to the
  tasks behind them: what a handler answers follows from the answers of tasks of its own.
\<close>

section \<open>Handlers\<close>

datatype ('q, 'r, 'x, 'a) flow =
  Finish 'a
| Call 'q "'r \<Rightarrow> ('q, 'r, 'x, 'a) flow"
| Input "'x \<Rightarrow> ('q, 'r, 'x, 'a) flow"

primrec flow_bind :: "('q, 'r, 'x, 'a) flow \<Rightarrow> ('a \<Rightarrow> ('q, 'r, 'x, 'b) flow) \<Rightarrow> ('q, 'r, 'x, 'b) flow" where
  "flow_bind (Finish a) k = k a"
| "flow_bind (Call q c) k = Call q (\<lambda>r. flow_bind (c r) k)"
| "flow_bind (Input c) k = Input (\<lambda>x. flow_bind (c x) k)"

text \<open>The paths of a handler: the calls it made, with their answers, and where it then stands.\<close>

inductive follows :: "('q, 'r, 'x, 'a) flow \<Rightarrow> ('q \<times> 'r) list \<Rightarrow> ('q, 'r, 'x, 'a) flow \<Rightarrow> bool" where
  here: "follows f [] f"
| call: "follows (c r) cs f \<Longrightarrow> follows (Call q c) ((q, r) # cs) f"
| input: "follows (c x) cs f \<Longrightarrow> follows (Input c) cs f"

inductive_cases follows_FinishE [elim!]: "follows (Finish a) cs f"
inductive_cases follows_CallE: "follows (Call q c) cs f"
inductive_cases follows_InputE: "follows (Input c) cs f"

lemma follows_Call: "follows (Call q c) cs (Finish a) \<longleftrightarrow> (\<exists>r cs'. cs = (q, r) # cs' \<and> follows (c r) cs' (Finish a))"
  by (auto elim: follows_CallE intro: follows.call)

lemma follows_Input: "follows (Input c) cs (Finish a) \<longleftrightarrow> (\<exists>x. follows (c x) cs (Finish a))"
  by (auto elim: follows_InputE intro: follows.input)

lemma follows_Finish: "follows (Finish a) cs (Finish b) \<longleftrightarrow> cs = [] \<and> b = a"
  by (auto intro: follows.here)

lemmas follows_simps = follows_Call follows_Input follows_Finish

lemma follows_trans: "follows f cs g \<Longrightarrow> follows g cs' h \<Longrightarrow> follows f (cs @ cs') h"
  by (induction rule: follows.induct) (auto intro: follows.intros)

lemma follows_bind_intro:
  "follows f cs1 f' \<Longrightarrow> f' = Finish a \<Longrightarrow> follows (k a) cs2 g \<Longrightarrow> follows (flow_bind f k) (cs1 @ cs2) g"
  by (induction rule: follows.induct) (auto intro: follows.intros)

lemma follows_bind_elim:
  "follows (flow_bind f k) cs (Finish b) \<Longrightarrow>
     \<exists>a cs1 cs2. cs = cs1 @ cs2 \<and> follows f cs1 (Finish a) \<and> follows (k a) cs2 (Finish b)"
proof (induction f arbitrary: cs)
  case (Finish a)
  then show ?case
    by (intro exI conjI) (rule append_Nil [symmetric], rule follows.here, simp)
next
  case (Call q c)
  then obtain r cs' where cs: "cs = (q, r) # cs'" and f: "follows (flow_bind (c r) k) cs' (Finish b)"
    by (auto simp: follows_Call)
  from Call.IH [OF rangeI f] obtain a cs1 cs2
    where "cs' = cs1 @ cs2" "follows (c r) cs1 (Finish a)" "follows (k a) cs2 (Finish b)" by blast
  then have "cs = ((q, r) # cs1) @ cs2" "follows (Call q c) ((q, r) # cs1) (Finish a)" "follows (k a) cs2 (Finish b)"
    using cs by (simp_all add: follows_Call)
  then show ?case by blast
next
  case (Input c)
  then obtain x where "follows (flow_bind (c x) k) cs (Finish b)" by (auto simp: follows_Input)
  from Input.IH [OF rangeI this] show ?case unfolding follows_Input by blast
qed

lemma follows_bind:
  "follows (flow_bind f k) cs (Finish b) \<longleftrightarrow>
     (\<exists>a cs1 cs2. cs = cs1 @ cs2 \<and> follows f cs1 (Finish a) \<and> follows (k a) cs2 (Finish b))"
proof
  assume "\<exists>a cs1 cs2. cs = cs1 @ cs2 \<and> follows f cs1 (Finish a) \<and> follows (k a) cs2 (Finish b)"
  then show "follows (flow_bind f k) cs (Finish b)" by (elim exE conjE) (simp add: follows_bind_intro [OF _ refl])
qed (rule follows_bind_elim)

section \<open>Handlers at work\<close>

datatype ('q, 'r, 'x, 'a) stage = Runs "('q, 'r, 'x, 'a) flow" | Waits nat "'r \<Rightarrow> ('q, 'r, 'x, 'a) flow"

record ('i, 'q, 'r, 'x, 'a) handling =
  hd_input :: 'i
  hd_calls :: "(nat \<times> 'q \<times> 'r) list"
  hd_stage :: "('q, 'r, 'x, 'a) stage"

record ('i, 'q, 'e, 's, 'r, 'g, 'x, 'a) server =
  sv_sys :: "('q, 'e, 's, 'r, 'g) sys"
  sv_handlings :: "('i, 'q, 'r, 'x, 'a) handling list"

text \<open>
  The service takes the steps of its tasks; tasks that no modelled handler started appear at
  any time, and so do requests to the handlers.
\<close>

inductive server_reach ::
    "('q \<Rightarrow> ('e, 's, 'r) prog) \<Rightarrow> ('e \<Rightarrow> 's \<Rightarrow> 'g \<Rightarrow> bool) \<Rightarrow> (nat \<Rightarrow> 'q \<Rightarrow> 'e \<Rightarrow> 's \<Rightarrow> 's \<Rightarrow> 'g \<Rightarrow> 'g)
       \<Rightarrow> 's \<Rightarrow> 'g \<Rightarrow> ('i \<Rightarrow> ('q, 'r, 'x, 'a) flow) \<Rightarrow> ('i, 'q, 'e, 's, 'r, 'g, 'x, 'a) server \<Rightarrow> bool"
  for serve env_ok obs s0 g0 handler where
  start: "server_reach serve env_ok obs s0 g0 handler
    \<lparr>sv_sys = \<lparr>sys_state = s0, sys_tasks = [], sys_ghost = g0\<rparr>, sv_handlings = []\<rparr>"
| other: "server_reach serve env_ok obs s0 g0 handler v \<Longrightarrow>
    server_reach serve env_ok obs s0 g0 handler
      (v\<lparr>sv_sys := (sv_sys v)\<lparr>sys_tasks := sys_tasks (sv_sys v) @ [(q, serve q)]\<rparr>\<rparr>)"
| step: "\<lbrakk>server_reach serve env_ok obs s0 g0 handler v; i < length (sys_tasks (sv_sys v));
     sys_tasks (sv_sys v) ! i = (q, Act f); env_ok e (sys_state (sv_sys v)) (sys_ghost (sv_sys v));
     f e (sys_state (sv_sys v)) = (p, s')\<rbrakk> \<Longrightarrow>
    server_reach serve env_ok obs s0 g0 handler
      (v\<lparr>sv_sys := \<lparr>sys_state = s', sys_tasks = (sys_tasks (sv_sys v))[i := (q, p)],
         sys_ghost = obs i q e (sys_state (sv_sys v)) s' (sys_ghost (sv_sys v))\<rparr>\<rparr>)"
| arrive: "server_reach serve env_ok obs s0 g0 handler v \<Longrightarrow>
    server_reach serve env_ok obs s0 g0 handler
      (v\<lparr>sv_handlings := sv_handlings v @ [\<lparr>hd_input = a, hd_calls = [], hd_stage = Runs (handler a)\<rparr>]\<rparr>)"
| call: "\<lbrakk>server_reach serve env_ok obs s0 g0 handler v; k < length (sv_handlings v);
     hd_stage (sv_handlings v ! k) = Runs (Call q c)\<rbrakk> \<Longrightarrow>
    server_reach serve env_ok obs s0 g0 handler
      \<lparr>sv_sys = (sv_sys v)\<lparr>sys_tasks := sys_tasks (sv_sys v) @ [(q, serve q)]\<rparr>,
       sv_handlings = (sv_handlings v)[k := (sv_handlings v ! k)\<lparr>hd_stage := Waits (length (sys_tasks (sv_sys v))) c\<rparr>]\<rparr>"
| return: "\<lbrakk>server_reach serve env_ok obs s0 g0 handler v; k < length (sv_handlings v);
     hd_stage (sv_handlings v ! k) = Waits i c; i < length (sys_tasks (sv_sys v)); sys_tasks (sv_sys v) ! i = (q, Ret r)\<rbrakk> \<Longrightarrow>
    server_reach serve env_ok obs s0 g0 handler
      (v\<lparr>sv_handlings := (sv_handlings v)[k := (sv_handlings v ! k)
         \<lparr>hd_calls := hd_calls (sv_handlings v ! k) @ [(i, q, r)], hd_stage := Runs (c r)\<rparr>]\<rparr>)"
| input: "\<lbrakk>server_reach serve env_ok obs s0 g0 handler v; k < length (sv_handlings v);
     hd_stage (sv_handlings v ! k) = Runs (Input c)\<rbrakk> \<Longrightarrow>
    server_reach serve env_ok obs s0 g0 handler
      (v\<lparr>sv_handlings := (sv_handlings v)[k := (sv_handlings v ! k)\<lparr>hd_stage := Runs (c x)\<rparr>]\<rparr>)"

lemma server_sys:
  "server_reach serve env_ok obs s0 g0 handler v \<Longrightarrow> sys_reach serve env_ok obs s0 g0 (sv_sys v)"
  by (induction rule: server_reach.induct)
    (auto intro: sys_reach.start sys_reach.spawn sys_reach.act)

text \<open>The tasks a handler started: those that returned and the one it waits for.\<close>

definition own_tasks :: "('i, 'q, 'r, 'x, 'a) handling \<Rightarrow> nat list" where
  "own_tasks h = map fst (hd_calls h) @ (case hd_stage h of Waits i _ \<Rightarrow> [i] | Runs _ \<Rightarrow> [])"

definition calls_done :: "('q, 'e, 's, 'r, 'g) sys \<Rightarrow> ('i, 'q, 'r, 'x, 'a) handling \<Rightarrow> bool" where
  "calls_done y h \<longleftrightarrow> (\<forall>(i, q, r) \<in> set (hd_calls h). i < length (sys_tasks y) \<and> sys_tasks y ! i = (q, Ret r))"

definition on_path :: "('i \<Rightarrow> ('q, 'r, 'x, 'a) flow) \<Rightarrow> ('q, 'e, 's, 'r, 'g) sys \<Rightarrow> ('i, 'q, 'r, 'x, 'a) handling \<Rightarrow> bool" where
  "on_path handler y h =
     (case hd_stage h of
        Runs f \<Rightarrow> follows (handler (hd_input h)) (map snd (hd_calls h)) f
      | Waits i c \<Rightarrow> i < length (sys_tasks y)
          \<and> follows (handler (hd_input h)) (map snd (hd_calls h)) (Call (fst (sys_tasks y ! i)) c))"

definition handlings_ok ::
    "('i \<Rightarrow> ('q, 'r, 'x, 'a) flow) \<Rightarrow> ('i, 'q, 'e, 's, 'r, 'g, 'x, 'a) server \<Rightarrow> bool" where
  "handlings_ok handler v \<longleftrightarrow>
     (\<forall>h \<in> set (sv_handlings v). calls_done (sv_sys v) h \<and> on_path handler (sv_sys v) h
        \<and> (\<forall>i \<in> set (own_tasks h). i < length (sys_tasks (sv_sys v))))
     \<and> distinct (concat (map own_tasks (sv_handlings v)))"

lemma follows_call_end: "follows f cs (Call q c) \<Longrightarrow> follows f (cs @ [(q, r)]) (c r)"
  using follows_trans [OF _ follows.call [OF follows.here]] .

lemma follows_input_end: "follows f cs (Input c) \<Longrightarrow> follows f cs (c x)"
  using follows_trans [OF _ follows.input [OF follows.here], of f cs c x] by simp

lemma concat_own_update:
  assumes "k < length hs" and "distinct (concat (map own_tasks hs))"
    and "own_tasks h' = own_tasks (hs ! k)"
  shows "distinct (concat (map own_tasks (hs[k := h'])))"
proof -
  have "map own_tasks (hs[k := h']) = map own_tasks hs"
    using assms(1,3) by (metis list_update_id map_update)
  then show ?thesis using assms(2) by simp
qed

lemma set_concat_own: "set (concat (map own_tasks hs)) = (\<Union>h \<in> set hs. set (own_tasks h))"
  by auto

lemma concat_own_new:
  assumes "k < length hs" and "distinct (concat (map own_tasks hs))"
    and "own_tasks h' = own_tasks (hs ! k) @ [n]" and "\<And>h. h \<in> set hs \<Longrightarrow> n \<notin> set (own_tasks h)"
  shows "distinct (concat (map own_tasks (hs[k := h'])))"
proof -
  have hs: "hs = take k hs @ hs ! k # drop (Suc k) hs" using assms(1) by (rule id_take_nth_drop)
  have up: "hs[k := h'] = take k hs @ h' # drop (Suc k) hs" using assms(1) by (rule upd_conv_take_nth_drop)
  have n: "n \<notin> set (concat (map own_tasks hs))" using assms(4) by auto
  have d: "distinct (concat (map own_tasks (take k hs @ hs ! k # drop (Suc k) hs)))"
    and n': "n \<notin> set (concat (map own_tasks (take k hs @ hs ! k # drop (Suc k) hs)))"
    using assms(2) n unfolding hs [symmetric] by simp_all
  show ?thesis unfolding up using d n' by (auto simp: assms(3))
qed

lemma handlings_update:
  assumes ok: "handlings_ok handler v" and k: "k < length (sv_handlings v)"
    and h: "calls_done y h" "on_path handler y h" "\<forall>i \<in> set (own_tasks h). i < length (sys_tasks y)"
    and rest: "\<And>h. h \<in> set (sv_handlings v) \<Longrightarrow> calls_done (sv_sys v) h \<Longrightarrow> calls_done y h"
      "\<And>h. h \<in> set (sv_handlings v) \<Longrightarrow> on_path handler (sv_sys v) h \<Longrightarrow> on_path handler y h"
    and len: "length (sys_tasks (sv_sys v)) \<le> length (sys_tasks y)"
    and d: "distinct (concat (map own_tasks ((sv_handlings v)[k := h])))"
  shows "handlings_ok handler \<lparr>sv_sys = y, sv_handlings = (sv_handlings v)[k := h]\<rparr>"
proof -
  have "calls_done y h' \<and> on_path handler y h' \<and> (\<forall>i \<in> set (own_tasks h'). i < length (sys_tasks y))"
    if "h' \<in> set ((sv_handlings v)[k := h])" for h'
  proof -
    have "h' = h \<or> h' \<in> set (sv_handlings v)" using that set_update_subset_insert [of "sv_handlings v" k h] by auto
    then show ?thesis
    proof
      assume h': "h' \<in> set (sv_handlings v)"
      then have "calls_done (sv_sys v) h'" "on_path handler (sv_sys v) h'"
        "\<forall>i \<in> set (own_tasks h'). i < length (sys_tasks (sv_sys v))"
        using ok by (simp_all add: handlings_ok_def)
      then show ?thesis using rest [OF h'] len by (simp add: less_le_trans [OF _ len])
    qed (use h in simp)
  qed
  then show ?thesis using d by (simp add: handlings_ok_def)
qed

lemma calls_done_append: "calls_done y h \<Longrightarrow> calls_done (y\<lparr>sys_tasks := sys_tasks y @ [t]\<rparr>) h"
  by (auto simp: calls_done_def nth_append)

lemma on_path_append: "on_path handler y h \<Longrightarrow> on_path handler (y\<lparr>sys_tasks := sys_tasks y @ [t]\<rparr>) h"
  by (auto simp: on_path_def nth_append split: stage.splits)

lemma calls_done_step:
  "calls_done y h \<Longrightarrow> sys_tasks y ! i = (q, Act f) \<Longrightarrow>
     calls_done \<lparr>sys_state = s', sys_tasks = (sys_tasks y)[i := (q, p)], sys_ghost = g'\<rparr> h"
  unfolding calls_done_def
proof (intro ballI, clarify)
  fix j q' r
  assume t: "\<forall>(i, q, r) \<in> set (hd_calls h). i < length (sys_tasks y) \<and> sys_tasks y ! i = (q, Ret r)"
    and i: "sys_tasks y ! i = (q, Act f)" and j: "(j, q', r) \<in> set (hd_calls h)"
  then have "j < length (sys_tasks y)" "sys_tasks y ! j = (q', Ret r)" by auto
  moreover have "j \<noteq> i" using calculation(2) i by auto
  ultimately show "j < length (sys_tasks \<lparr>sys_state = s', sys_tasks = (sys_tasks y)[i := (q, p)], sys_ghost = g'\<rparr>)
      \<and> sys_tasks \<lparr>sys_state = s', sys_tasks = (sys_tasks y)[i := (q, p)], sys_ghost = g'\<rparr> ! j = (q', Ret r)" by simp
qed

lemma on_path_step:
  "on_path handler y h \<Longrightarrow> sys_tasks y ! i = (q, Act f) \<Longrightarrow>
     on_path handler \<lparr>sys_state = s', sys_tasks = (sys_tasks y)[i := (q, p)], sys_ghost = g'\<rparr> h"
  by (cases "i < length (sys_tasks y)") (auto simp: on_path_def nth_list_update split: stage.splits)

lemma server_handlings:
  "server_reach serve env_ok obs s0 g0 handler v \<Longrightarrow> handlings_ok handler v"
proof (induction rule: server_reach.induct)
  case start
  then show ?case by (simp add: handlings_ok_def)
next
  case (other v q)
  then show ?case by (auto simp: handlings_ok_def intro: calls_done_append on_path_append less_SucI)
next
  case (step v i q f e p s')
  then show ?case by (auto simp: handlings_ok_def intro: calls_done_step on_path_step)
next
  case (arrive v a)
  then show ?case by (auto simp: handlings_ok_def calls_done_def on_path_def own_tasks_def intro: follows.here)
next
  case (call v k q c)
  let ?h = "sv_handlings v ! k" and ?n = "length (sys_tasks (sv_sys v))"
  let ?h' = "?h\<lparr>hd_stage := Waits ?n c\<rparr>" and ?y = "(sv_sys v)\<lparr>sys_tasks := sys_tasks (sv_sys v) @ [(q, serve q)]\<rparr>"
  have h: "?h \<in> set (sv_handlings v)" using call(2) by simp
  have own: "own_tasks ?h' = own_tasks ?h @ [?n]" using call(3) by (simp add: own_tasks_def)
  have lt: "i < ?n" if "h \<in> set (sv_handlings v)" "i \<in> set (own_tasks h)" for h i
    using call.IH that by (auto simp: handlings_ok_def)
  show ?case
  proof (rule handlings_update [OF call.IH call(2)])
    have "calls_done (sv_sys v) ?h" using call.IH h by (simp add: handlings_ok_def)
    then have "calls_done ?y ?h" by (rule calls_done_append)
    then show "calls_done ?y ?h'" by (simp add: calls_done_def)
    have "on_path handler (sv_sys v) ?h" using call.IH h by (simp add: handlings_ok_def)
    then show "on_path handler ?y ?h'" using call(3) by (simp add: on_path_def)
    show "\<forall>i \<in> set (own_tasks ?h'). i < length (sys_tasks ?y)" unfolding own using lt [OF h] by (auto simp: less_SucI)
    show "distinct (concat (map own_tasks ((sv_handlings v)[k := ?h'])))"
      by (rule concat_own_new [OF call(2) _ own]) (use call.IH lt in \<open>auto simp: handlings_ok_def\<close>)
  qed (auto intro: calls_done_append on_path_append)
next
  case (return v k i c q r)
  let ?h = "sv_handlings v ! k"
  let ?h' = "?h\<lparr>hd_calls := hd_calls ?h @ [(i, q, r)], hd_stage := Runs (c r)\<rparr>"
  have h: "?h \<in> set (sv_handlings v)" using return(2) by simp
  have own: "own_tasks ?h' = own_tasks ?h" using return(3) by (simp add: own_tasks_def)
  have "handlings_ok handler \<lparr>sv_sys = sv_sys v, sv_handlings = (sv_handlings v)[k := ?h']\<rparr>"
  proof (rule handlings_update [OF return.IH return(2)])
    show "calls_done (sv_sys v) ?h'" using return.IH h return(4,5) by (auto simp: handlings_ok_def calls_done_def)
    have "on_path handler (sv_sys v) ?h" using return.IH h by (simp add: handlings_ok_def)
    then show "on_path handler (sv_sys v) ?h'"
      using return(3,5) by (simp add: on_path_def follows_call_end)
    show "\<forall>i \<in> set (own_tasks ?h'). i < length (sys_tasks (sv_sys v))" unfolding own using return.IH h by (simp add: handlings_ok_def)
    show "distinct (concat (map own_tasks ((sv_handlings v)[k := ?h'])))"
      by (rule concat_own_update [OF return(2) _ own]) (use return.IH in \<open>simp add: handlings_ok_def\<close>)
  qed simp_all
  then show ?case by (simp add: handlings_ok_def)
next
  case (input v k c x)
  let ?h = "sv_handlings v ! k"
  let ?h' = "?h\<lparr>hd_stage := Runs (c x)\<rparr>"
  have h: "?h \<in> set (sv_handlings v)" using input(2) by simp
  have own: "own_tasks ?h' = own_tasks ?h" using input(3) by (simp add: own_tasks_def)
  have "handlings_ok handler \<lparr>sv_sys = sv_sys v, sv_handlings = (sv_handlings v)[k := ?h']\<rparr>"
  proof (rule handlings_update [OF input.IH input(2)])
    show "calls_done (sv_sys v) ?h'" using input.IH h by (auto simp: handlings_ok_def calls_done_def)
    have "on_path handler (sv_sys v) ?h" using input.IH h by (simp add: handlings_ok_def)
    then show "on_path handler (sv_sys v) ?h'"
      using input(3) by (simp add: on_path_def follows_input_end)
    show "\<forall>i \<in> set (own_tasks ?h'). i < length (sys_tasks (sv_sys v))" unfolding own using input.IH h by (simp add: handlings_ok_def)
    show "distinct (concat (map own_tasks ((sv_handlings v)[k := ?h'])))"
      by (rule concat_own_update [OF input(2) _ own]) (use input.IH in \<open>simp add: handlings_ok_def\<close>)
  qed simp_all
  then show ?case by (simp add: handlings_ok_def)
qed

section \<open>What finished handlers did\<close>

text \<open>The k-th request was answered, after these calls.\<close>

definition answered :: "('i, 'q, 'e, 's, 'r, 'g, 'x, 'a) server \<Rightarrow> nat \<Rightarrow> 'i \<Rightarrow> (nat \<times> 'q \<times> 'r) list \<Rightarrow> 'a \<Rightarrow> bool" where
  "answered v k inp cs a \<longleftrightarrow>
     k < length (sv_handlings v) \<and> sv_handlings v ! k = \<lparr>hd_input = inp, hd_calls = cs, hd_stage = Runs (Finish a)\<rparr>"

lemma answered_follows:
  assumes "server_reach serve env_ok obs s0 g0 handler v" and "answered v k inp cs a"
  shows "follows (handler inp) (map snd cs) (Finish a)"
proof -
  have "sv_handlings v ! k \<in> set (sv_handlings v)" using assms(2) unfolding answered_def by (intro nth_mem) simp
  then have "on_path handler (sv_sys v) (sv_handlings v ! k)"
    using server_handlings [OF assms(1)] by (simp add: handlings_ok_def)
  then show ?thesis using assms(2) by (simp add: answered_def on_path_def)
qed

lemma answered_task:
  assumes "server_reach serve env_ok obs s0 g0 handler v" and "answered v k inp cs a" and "(i, q, r) \<in> set cs"
  shows "i < length (sys_tasks (sv_sys v))" and "sys_tasks (sv_sys v) ! i = (q, Ret r)"
proof -
  have "sv_handlings v ! k \<in> set (sv_handlings v)" using assms(2) unfolding answered_def by (intro nth_mem) simp
  then have "calls_done (sv_sys v) (sv_handlings v ! k)"
    using server_handlings [OF assms(1)] by (simp add: handlings_ok_def)
  then show "i < length (sys_tasks (sv_sys v))" and "sys_tasks (sv_sys v) ! i = (q, Ret r)"
    using assms(2,3) by (auto simp: answered_def calls_done_def)
qed

lemma distinct_concat_nth:
  "distinct (concat xss) \<Longrightarrow> i < length xss \<Longrightarrow> j < length xss \<Longrightarrow> i \<noteq> j \<Longrightarrow> set (xss ! i) \<inter> set (xss ! j) = {}"
proof (induction xss arbitrary: i j)
  case (Cons xs xss)
  have "set xs \<inter> set (xss ! n) = {}" if "n < length xss" for n
    using Cons.prems(1) nth_mem [OF that] by auto
  with Cons show ?case by (cases i; cases j) auto
qed simp

lemma answered_distinct:
  assumes "server_reach serve env_ok obs s0 g0 handler v" and "answered v k inp cs a" and "answered v l inp' cs' a'"
    and "k \<noteq> l" and "(i, q, r) \<in> set cs" and "(j, q', r') \<in> set cs'"
  shows "i \<noteq> j"
proof -
  have "distinct (concat (map own_tasks (sv_handlings v)))"
    using server_handlings [OF assms(1)] by (simp add: handlings_ok_def)
  from distinct_concat_nth [OF this, of k l] assms(2-4)
  have "set (own_tasks (sv_handlings v ! k)) \<inter> set (own_tasks (sv_handlings v ! l)) = {}"
    by (simp add: answered_def)
  moreover have "i \<in> set (own_tasks (sv_handlings v ! k))" using assms(2,5) by (force simp: answered_def own_tasks_def)
  moreover have "j \<in> set (own_tasks (sv_handlings v ! l))" using assms(3,6) by (force simp: answered_def own_tasks_def)
  ultimately show ?thesis by blast
qed

locale handled =
  interference serve env_ok obs invar rely post s0 g0
  for serve :: "'q \<Rightarrow> ('e, 's, 'r) prog" and env_ok :: "'e \<Rightarrow> 's \<Rightarrow> 'g \<Rightarrow> bool"
    and obs :: "nat \<Rightarrow> 'q \<Rightarrow> 'e \<Rightarrow> 's \<Rightarrow> 's \<Rightarrow> 'g \<Rightarrow> 'g" and invar :: "'s \<Rightarrow> 'g \<Rightarrow> bool"
    and rely :: "'s \<Rightarrow> 'g \<Rightarrow> 's \<Rightarrow> 'g \<Rightarrow> bool" and post :: "nat \<Rightarrow> 'q \<Rightarrow> 'r \<Rightarrow> 's \<Rightarrow> 'g \<Rightarrow> bool"
    and s0 :: 's and g0 :: 'g +
  fixes handler :: "'i \<Rightarrow> ('q, 'r, 'x, 'a) flow"
    and promise :: "'i \<Rightarrow> 'a \<Rightarrow> ('q \<times> 'r) list \<Rightarrow> bool"
  assumes handler_promise: "follows (handler inp) cs (Finish a) \<Longrightarrow> promise inp a cs"
begin

lemma answered_promise:
  assumes "server_reach serve env_ok obs s0 g0 handler v" and "answered v k inp cs a"
  shows "promise inp a (map snd cs)"
    and "\<forall>(i, q, r) \<in> set cs. i < length (sys_tasks (sv_sys v)) \<and> sys_tasks (sv_sys v) ! i = (q, Ret r)
      \<and> post i q r (sys_state (sv_sys v)) (sys_ghost (sv_sys v))"
proof -
  show "promise inp a (map snd cs)" by (rule handler_promise [OF answered_follows [OF assms]])
  show "\<forall>(i, q, r) \<in> set cs. i < length (sys_tasks (sv_sys v)) \<and> sys_tasks (sv_sys v) ! i = (q, Ret r)
      \<and> post i q r (sys_state (sv_sys v)) (sys_ghost (sv_sys v))"
    using answered_task [OF assms] reach_post [OF server_sys [OF assms(1)]] by blast
qed

end

section \<open>Handlers run one after the other\<close>

primrec run_flow ::
    "('e \<Rightarrow> 's \<Rightarrow> 'g \<Rightarrow> bool) \<Rightarrow> (nat \<Rightarrow> 'q \<Rightarrow> 'e \<Rightarrow> 's \<Rightarrow> 's \<Rightarrow> 'g \<Rightarrow> 'g) \<Rightarrow> ('q \<Rightarrow> ('e, 's, 'r) prog) \<Rightarrow> ('q, 'r, 'x, 'a) flow
       \<Rightarrow> 'e list list \<Rightarrow> 'x list \<Rightarrow> (nat \<times> 'q \<times> 'r) list \<Rightarrow> ('q, 'e, 's, 'r, 'g) sys
       \<Rightarrow> ((nat \<times> 'q \<times> 'r) list \<times> 'a \<times> ('q, 'e, 's, 'r, 'g) sys) option" where
  "run_flow ok obs serve (Finish a) = (\<lambda>ess xs cs y. Some (cs, a, y))"
| "run_flow ok obs serve (Call q c) = (\<lambda>ess xs cs y.
     case ess of [] \<Rightarrow> None
     | es # ess' \<Rightarrow>
         (let i = length (sys_tasks y) in
          case run_with ok (obs i q) (serve q) es (sys_state y) (sys_ghost y) of
            None \<Rightarrow> None
          | Some (r, s', g') \<Rightarrow>
              run_flow ok obs serve (c r) ess' xs (cs @ [(i, q, r)])
                \<lparr>sys_state = s', sys_tasks = sys_tasks y @ [(q, Ret r)], sys_ghost = g'\<rparr>))"
| "run_flow ok obs serve (Input c) = (\<lambda>ess xs cs y.
     case xs of [] \<Rightarrow> None | x # xs' \<Rightarrow> run_flow ok obs serve (c x) ess xs' cs y)"

lemma server_run:
  assumes "server_reach serve env_ok obs s0 g0 handler v" and "i < length (sys_tasks (sv_sys v))"
    and "sys_tasks (sv_sys v) ! i = (q, p)" and "\<And>e s g. ok e s g \<Longrightarrow> env_ok e s g"
    and "run_with ok (obs i q) p es (sys_state (sv_sys v)) (sys_ghost (sv_sys v)) = Some (r, s', g')"
  shows "server_reach serve env_ok obs s0 g0 handler
    (v\<lparr>sv_sys := \<lparr>sys_state = s', sys_tasks = (sys_tasks (sv_sys v))[i := (q, Ret r)], sys_ghost = g'\<rparr>\<rparr>)"
  using assms
proof (induction ok "obs i q" p es "sys_state (sv_sys v)" "sys_ghost (sv_sys v)" arbitrary: v rule: run_with.induct)
  case (1 ok r' es v)
  then have "(sys_tasks (sv_sys v))[i := (q, Ret r)] = sys_tasks (sv_sys v)"
    by (metis list_update_id option.inject prod.inject run_with.simps(1))
  then have "sv_sys v = \<lparr>sys_state = s', sys_tasks = (sys_tasks (sv_sys v))[i := (q, Ret r)], sys_ghost = g'\<rparr>"
    using 1 by simp
  then have "v\<lparr>sv_sys := \<lparr>sys_state = s', sys_tasks = (sys_tasks (sv_sys v))[i := (q, Ret r)], sys_ghost = g'\<rparr>\<rparr> = v"
    by (cases v) simp
  then show ?case using 1(1) by metis
next
  case (3 ok f e es v)
  obtain p s1 where f: "f e (sys_state (sv_sys v)) = (p, s1)" by fastforce
  have ok: "ok e (sys_state (sv_sys v)) (sys_ghost (sv_sys v))" using 3(6) by (simp split: if_splits)
  let ?v = "v\<lparr>sv_sys := \<lparr>sys_state = s1, sys_tasks = (sys_tasks (sv_sys v))[i := (q, p)],
    sys_ghost = obs i q e (sys_state (sv_sys v)) s1 (sys_ghost (sv_sys v))\<rparr>\<rparr>"
  have "server_reach serve env_ok obs s0 g0 handler ?v"
    using server_reach.step [OF 3(2,3,4) 3(5) [OF ok] f] .
  then show ?case
    using 3(1) [OF ok, of p ?v] 3(3-6) f ok by simp
qed simp

lemma run_flow_reach:
  assumes "server_reach serve env_ok obs s0 g0 handler v"
    and "k < length (sv_handlings v)" and "sv_handlings v ! k = \<lparr>hd_input = inp, hd_calls = cs, hd_stage = Runs f\<rparr>"
    and "\<And>e s g. ok e s g \<Longrightarrow> env_ok e s g"
    and "run_flow ok obs serve f ess xs cs (sv_sys v) = Some (cs', a, y')"
  shows "server_reach serve env_ok obs s0 g0 handler
    \<lparr>sv_sys = y', sv_handlings = (sv_handlings v)[k := \<lparr>hd_input = inp, hd_calls = cs', hd_stage = Runs (Finish a)\<rparr>]\<rparr>"
  using assms
proof (induction f arbitrary: ess xs cs v)
  case (Finish b)
  have "(sv_handlings v)[k := \<lparr>hd_input = inp, hd_calls = cs', hd_stage = Runs (Finish a)\<rparr>] = sv_handlings v"
    using Finish(3,5) by (metis list_update_id option.inject prod.inject run_flow.simps(1))
  then have "\<lparr>sv_sys = y', sv_handlings = (sv_handlings v)[k := \<lparr>hd_input = inp, hd_calls = cs', hd_stage = Runs (Finish a)\<rparr>]\<rparr> = v"
    using Finish(5) by (cases v) simp
  then show ?case using Finish(1) by metis
next
  case (Call q c)
  let ?n = "length (sys_tasks (sv_sys v))" and ?y = "sv_sys v"
  obtain es ess' r s' g' where ess: "ess = es # ess'"
    and run: "run_with ok (obs ?n q) (serve q) es (sys_state ?y) (sys_ghost ?y) = Some (r, s', g')"
    and rest: "run_flow ok obs serve (c r) ess' xs (cs @ [(?n, q, r)])
      \<lparr>sys_state = s', sys_tasks = sys_tasks ?y @ [(q, Ret r)], sys_ghost = g'\<rparr> = Some (cs', a, y')"
    using Call(6) by (auto simp: Let_def split: list.splits option.splits)
  let ?h = "sv_handlings v ! k"
  let ?v1 = "\<lparr>sv_sys = ?y\<lparr>sys_tasks := sys_tasks ?y @ [(q, serve q)]\<rparr>, sv_handlings = (sv_handlings v)[k := ?h\<lparr>hd_stage := Waits ?n c\<rparr>]\<rparr>"
  have r1: "server_reach serve env_ok obs s0 g0 handler ?v1"
    by (rule server_reach.call [OF Call(2,3)]) (simp add: Call(4))
  let ?v2 = "?v1\<lparr>sv_sys := \<lparr>sys_state = s', sys_tasks = sys_tasks ?y @ [(q, Ret r)], sys_ghost = g'\<rparr>\<rparr>"
  have r2: "server_reach serve env_ok obs s0 g0 handler ?v2"
    using server_run [OF r1, of ?n q "serve q" ok es r s' g'] Call(5) run by simp
  let ?h2 = "sv_handlings ?v2 ! k"
  have h2: "?h2 = ?h\<lparr>hd_stage := Waits ?n c\<rparr>" using Call(3) by simp
  let ?v3 = "?v2\<lparr>sv_handlings := (sv_handlings ?v2)[k := ?h2\<lparr>hd_calls := hd_calls ?h2 @ [(?n, q, r)], hd_stage := Runs (c r)\<rparr>]\<rparr>"
  have r3: "server_reach serve env_ok obs s0 g0 handler ?v3"
    by (rule server_reach.return [OF r2]) (simp_all add: Call(3,4))
  have "sv_handlings ?v3 ! k = \<lparr>hd_input = inp, hd_calls = cs @ [(?n, q, r)], hd_stage = Runs (c r)\<rparr>"
    using Call(3,4) by simp
  from Call.IH [OF rangeI r3 _ this Call(5), of ess' xs] rest Call(3) show ?case by simp
next
  case (Input c)
  obtain x xs' where xs: "xs = x # xs'" and rest: "run_flow ok obs serve (c x) ess xs' cs (sv_sys v) = Some (cs', a, y')"
    using Input(6) by (auto split: list.splits)
  let ?v = "v\<lparr>sv_handlings := (sv_handlings v)[k := (sv_handlings v ! k)\<lparr>hd_stage := Runs (c x)\<rparr>]\<rparr>"
  have r: "server_reach serve env_ok obs s0 g0 handler ?v"
    by (rule server_reach.input [OF Input(2,3)]) (simp add: Input(4))
  have "sv_handlings ?v ! k = \<lparr>hd_input = inp, hd_calls = cs, hd_stage = Runs (c x)\<rparr>" using Input(3,4) by simp
  from Input.IH [OF rangeI r _ this Input(5), of ess xs'] rest Input(3) show ?case by simp
qed

text \<open>
  Requests to the service and to the handlers one after the other, each with the environments
  of its calls and its inputs.
\<close>

fun run_server ::
    "('e \<Rightarrow> 's \<Rightarrow> 'g \<Rightarrow> bool) \<Rightarrow> (nat \<Rightarrow> 'q \<Rightarrow> 'e \<Rightarrow> 's \<Rightarrow> 's \<Rightarrow> 'g \<Rightarrow> 'g) \<Rightarrow> ('q \<Rightarrow> ('e, 's, 'r) prog) \<Rightarrow> ('i \<Rightarrow> ('q, 'r, 'x, 'a) flow)
       \<Rightarrow> ('q \<times> 'e list + 'i \<times> 'e list list \<times> 'x list) list \<Rightarrow> ('i, 'q, 'e, 's, 'r, 'g, 'x, 'a) server
       \<Rightarrow> ('i, 'q, 'e, 's, 'r, 'g, 'x, 'a) server option" where
  "run_server ok obs serve handler [] v = Some v"
| "run_server ok obs serve handler (Inl (q, es) # rest) v =
     (let y = sv_sys v; i = length (sys_tasks y) in
      case run_with ok (obs i q) (serve q) es (sys_state y) (sys_ghost y) of
        None \<Rightarrow> None
      | Some (r, s', g') \<Rightarrow> run_server ok obs serve handler rest
          (v\<lparr>sv_sys := \<lparr>sys_state = s', sys_tasks = sys_tasks y @ [(q, Ret r)], sys_ghost = g'\<rparr>\<rparr>))"
| "run_server ok obs serve handler (Inr (inp, ess, xs) # rest) v =
     (case run_flow ok obs serve (handler inp) ess xs [] (sv_sys v) of
        None \<Rightarrow> None
      | Some (cs, a, y') \<Rightarrow> run_server ok obs serve handler rest
          \<lparr>sv_sys = y', sv_handlings = sv_handlings v @ [\<lparr>hd_input = inp, hd_calls = cs, hd_stage = Runs (Finish a)\<rparr>]\<rparr>)"

lemma run_server_reach:
  assumes "server_reach serve env_ok obs s0 g0 handler v" and "\<And>e s g. ok e s g \<Longrightarrow> env_ok e s g"
    and "run_server ok obs serve handler rs v = Some v'"
  shows "server_reach serve env_ok obs s0 g0 handler v'"
  using assms
proof (induction ok obs serve handler rs v rule: run_server.induct)
  case (2 ok obs serve handler q es rest v)
  let ?y = "sv_sys v" and ?i = "length (sys_tasks (sv_sys v))"
  obtain r s' g' where run: "run_with ok (obs ?i q) (serve q) es (sys_state ?y) (sys_ghost ?y) = Some (r, s', g')"
    and rest: "run_server ok obs serve handler rest
      (v\<lparr>sv_sys := \<lparr>sys_state = s', sys_tasks = sys_tasks ?y @ [(q, Ret r)], sys_ghost = g'\<rparr>\<rparr>) = Some v'"
    using 2(4) by (auto simp: Let_def split: option.splits)
  have "server_reach serve env_ok obs s0 g0 handler (v\<lparr>sv_sys := ?y\<lparr>sys_tasks := sys_tasks ?y @ [(q, serve q)]\<rparr>\<rparr>)"
    by (rule server_reach.other [OF 2(2)])
  from server_run [OF this, of ?i q "serve q" ok es r s' g'] 2(3) run
  have "server_reach serve env_ok obs s0 g0 handler
      (v\<lparr>sv_sys := \<lparr>sys_state = s', sys_tasks = sys_tasks ?y @ [(q, Ret r)], sys_ghost = g'\<rparr>\<rparr>)"
    by simp
  from 2(1) [OF refl refl run refl refl this 2(3) rest] show ?case .
next
  case (3 ok obs serve handler inp ess xs rest v)
  obtain cs a y' where f: "run_flow ok obs serve (handler inp) ess xs [] (sv_sys v) = Some (cs, a, y')"
    and rest: "run_server ok obs serve handler rest
      \<lparr>sv_sys = y', sv_handlings = sv_handlings v @ [\<lparr>hd_input = inp, hd_calls = cs, hd_stage = Runs (Finish a)\<rparr>]\<rparr> = Some v'"
    using 3(4) by (auto split: option.splits)
  let ?v = "v\<lparr>sv_handlings := sv_handlings v @ [\<lparr>hd_input = inp, hd_calls = [], hd_stage = Runs (handler inp)\<rparr>]\<rparr>"
  have "server_reach serve env_ok obs s0 g0 handler ?v" by (rule server_reach.arrive [OF 3(2)])
  from run_flow_reach [OF this, of "length (sv_handlings v)" inp "[]" "handler inp" ok ess xs cs a y'] 3(3) f
  have r: "server_reach serve env_ok obs s0 g0 handler
      \<lparr>sv_sys = y', sv_handlings = sv_handlings v @ [\<lparr>hd_input = inp, hd_calls = cs, hd_stage = Runs (Finish a)\<rparr>]\<rparr>"
    by simp
  show ?case by (rule 3(1) [OF f refl refl r 3(3) rest])
qed simp

text \<open>What a run leaves: the requests, the calls they made and the answers they got.\<close>

definition server_start :: "'s \<Rightarrow> 'g \<Rightarrow> ('i, 'q, 'e, 's, 'r, 'g, 'x, 'a) server" where
  "server_start s0 g0 = \<lparr>sv_sys = \<lparr>sys_state = s0, sys_tasks = [], sys_ghost = g0\<rparr>, sv_handlings = []\<rparr>"

definition handling_of :: "('i, 'q, 'r, 'x, 'a) handling \<Rightarrow> ('i \<times> (nat \<times> 'q \<times> 'r) list \<times> 'a) option" where
  "handling_of h = (case hd_stage h of Runs (Finish a) \<Rightarrow> Some (hd_input h, hd_calls h, a) | _ \<Rightarrow> None)"

lemma answered_handling:
  "answered v k inp cs a \<longleftrightarrow> k < length (sv_handlings v) \<and> handling_of (sv_handlings v ! k) = Some (inp, cs, a)"
  by (cases "sv_handlings v ! k") (auto simp: answered_def handling_of_def split: stage.splits flow.splits)

end
