(* ===== verification/Db_System.thy ===== *)
theory Db_System
  imports Db_Claims
begin

text \<open>
  The operations of \<open>Db_Claims\<close> as the requests of one system, in which any number of them
  run at the same time over the one store, together with inserts by the rest of the server.
  A record of what the steps did to the tables goes along: every document that was inserted,
  every document that was retired (spent or deleted), and every document that was rewritten.
\<close>

section \<open>Requests\<close>

datatype request =
  StoreCode string string string timestamp "json option"
| ConsumeCode string timestamp
| CodeDetails string
| CreateDevice string string string timestamp int
| DeviceByCode string
| DeviceByUserCode string
| DeviceById string
| AuthorizeDevice authorize_device_auth_params
| ConsumeDevice string
| PollDevice string int timestamp
| CreateOidc string "string option" string string timestamp string
| ConsumeOidc string timestamp
| CreatePar create_par_params
| GetPar string string timestamp
| ConsumePar par_ref timestamp
| ExtendPar string string int
| CreatePending create_pending_params
| GetPending string timestamp
| ConsumePending string timestamp
| NewDpopNonce int
| CheckDpopNonce string timestamp
| NewSignatureNonce int
| ConsumeSignatureNonce string timestamp
| StoreJti string int int
| StoreAssertionJti string string timestamp
| ConsumeChallenge string timestamp
| CreateKey create_authenticator_params
| CommitCounter string u32
| RenameKey string string
| DeleteKey string string
| Touch string
| Sweep string
| InsertOther string "(string \<times> string) list" "timestamp option" json
| FindOther string string string
| FindOneOther string string string
| GetOther string string
| KeyById string
| DeleteOther string string

datatype response =
  RUnit "db_error + unit"
| RText "db_error + string"
| RPair "db_error + string \<times> string"
| RFlag "db_error + bool"
| RCount "db_error + nat"
| RDetails "db_error + json option"
| RDevice "db_error + device_auth_request option"
| RPar "db_error + (string \<times> timestamp \<times> pushed_authorization_request_doc) option"
| RView "db_error + (string \<times> timestamp \<times> pending_oauth_auth_doc) option"
| RCounter "db_error + counter_commit"
| RKey "key_error + string \<times> nat"
| RClaim "claim_error + unit"
| RApproval "claim_error + stored_approval"
| ROidc "claim_error + oidc_state"
| RPending "claim_error + string \<times> timestamp \<times> pending_oauth_auth_doc"
| ROthers "db_error + (string \<times> json) list"
| ROther "db_error + (string \<times> json) option"
| RKeyDoc "db_error + (string \<times> authenticator_doc) option"

definition prog_map :: "('a \<Rightarrow> 'b) \<Rightarrow> 'a dbp \<Rightarrow> 'b dbp" where
  "prog_map f p = prog_bind p (\<lambda>r. Ret (f r))"

definition modelled_types :: "string list" where
  "modelled_types =
     [''authorization_code'', ''device_auth_request'', ''oidc_state'', ''pushed_authorization_request'',
      ''pending_oauth_auth'', ''authenticator'', ''dpop_nonce'', ''signature_nonce'', ''dpop_jti'',
      ''jwt_assertion_jti'', ''challenge_state'']"

text \<open>An insert by a module that is not modelled, of a document type of its own.\<close>

definition insert_other :: "store_cfg \<Rightarrow> document \<Rightarrow> unit dbr" where
  "insert_other cf d =
     (if doc_type d \<in> set modelled_types then Ret (Inl (OtherError ''modelled type''))
      else bind_ok (store_insert cf (raw_type (doc_type d)) d) (\<lambda>_. Ret (Inr ())))"

text \<open>Reads and deletes of such documents; a delete is of a row of the module's own type.\<close>

definition other_content :: "document \<Rightarrow> json" where
  "other_content d = (case d of OtherDocument _ _ _ c \<Rightarrow> c | _ \<Rightarrow> [])"

definition other_view :: "document stored \<Rightarrow> string \<times> json" where
  "other_view d = (st_id d, other_content (st_data d))"

definition find_other :: "store_cfg \<Rightarrow> string \<Rightarrow> string \<Rightarrow> string \<Rightarrow> ((string \<times> json) list) dbr" where
  "find_other cf ty field v =
     (if ty \<in> set modelled_types then Ret (Inl (OtherError ''modelled type''))
      else bind_ok (find_all cf (raw_type ty) field v) (\<lambda>docs.
        Ret (Inr (map other_view docs))))"

definition find_one_other :: "store_cfg \<Rightarrow> string \<Rightarrow> string \<Rightarrow> string \<Rightarrow> ((string \<times> json) option) dbr" where
  "find_one_other cf ty field v =
     (if ty \<in> set modelled_types then Ret (Inl (OtherError ''modelled type''))
      else bind_ok (find_one cf (raw_type ty) field v) (\<lambda>d. Ret (Inr (map_option other_view d))))"

definition get_other :: "string \<Rightarrow> string \<Rightarrow> ((string \<times> json) option) dbr" where
  "get_other ty did =
     (if ty \<in> set modelled_types then Ret (Inl (OtherError ''modelled type''))
      else bind_ok (store_get (raw_type ty) did) (\<lambda>d. Ret (Inr (map_option other_view d))))"

definition get_authenticator_by_id :: "string \<Rightarrow> ((string \<times> authenticator_doc) option) dbr" where
  "get_authenticator_by_id did =
     bind_ok (store_get authenticator_type did) (\<lambda>d. Ret (Inr (map_option (\<lambda>d. (st_id d, st_data d)) d)))"

definition delete_other :: "string \<Rightarrow> string \<Rightarrow> bool dbr" where
  "delete_other ty did =
     (if ty \<in> set modelled_types then Ret (Inl (OtherError ''modelled type''))
      else with_dsql_retry (db_transaction (\<lambda>e s.
        case select_id ty did s of None \<Rightarrow> Inr (False, s) | Some _ \<Rightarrow> Inr (delete_stmt did s))))"

definition serve :: "store_cfg \<Rightarrow> (string \<Rightarrow> string) \<Rightarrow> (string \<Rightarrow> bool) \<Rightarrow> request \<Rightarrow> response dbp" where
  "serve cf sha is_uuid q =
     (case q of
        StoreCode h c u t d \<Rightarrow> prog_map RUnit (store_authorization_code cf h c u t d)
      | ConsumeCode h now \<Rightarrow> prog_map RClaim (try_consume_authorization_code cf h now)
      | CodeDetails h \<Rightarrow> prog_map RDetails (get_authorization_code_details cf h)
      | CreateDevice h uc c t iv \<Rightarrow> prog_map RText (create_device_auth_request cf h uc c t iv)
      | DeviceByCode h \<Rightarrow> prog_map RDevice (get_device_auth_by_code_hash cf h)
      | DeviceByUserCode uc \<Rightarrow> prog_map RDevice (get_device_auth_by_user_code cf uc)
      | DeviceById x \<Rightarrow> prog_map RDevice (get_device_auth_by_id x)
      | AuthorizeDevice ps \<Rightarrow> prog_map RUnit (authorize_device_auth cf ps)
      | ConsumeDevice h \<Rightarrow> prog_map RApproval (try_consume_device_auth cf h)
      | PollDevice x iv now \<Rightarrow> prog_map RFlag (update_device_auth_poll_time cf x iv now)
      | CreateOidc st d n v t p \<Rightarrow> prog_map RText (create_oidc_state cf st d n v t p)
      | ConsumeOidc st now \<Rightarrow> prog_map ROidc (try_consume_oidc_state cf st now)
      | CreatePar ps \<Rightarrow> prog_map RPair (create_pushed_authorization_request cf ps)
      | GetPar uri c now \<Rightarrow> prog_map RPar (get_pushed_authorization_request cf uri c now)
      | ConsumePar par now \<Rightarrow> prog_map RClaim (par_consume cf par now)
      | ExtendPar uri c ttl \<Rightarrow> prog_map RUnit (extend_par_expiration cf uri c ttl)
      | CreatePending ps \<Rightarrow> prog_map RText (create_pending_oauth_authorization cf ps)
      | GetPending x now \<Rightarrow> prog_map RView (get_pending_oauth_authorization x now)
      | ConsumePending x now \<Rightarrow> prog_map RPending (consume_pending_oauth_authorization cf x now)
      | NewDpopNonce v \<Rightarrow> prog_map RText (generate_dpop_nonce cf sha v)
      | CheckDpopNonce n now \<Rightarrow> prog_map RClaim (validate_dpop_nonce sha n now)
      | NewSignatureNonce v \<Rightarrow> prog_map RText (generate_signature_nonce cf sha v)
      | ConsumeSignatureNonce n now \<Rightarrow> prog_map RClaim (validate_and_consume_signature_nonce cf sha n now)
      | StoreJti j sec v \<Rightarrow> prog_map RClaim (check_and_store_dpop_jti_at_second cf sha j sec v)
      | StoreAssertionJti j c t \<Rightarrow> prog_map RClaim (store_jwt_assertion_jti cf sha j c t)
      | ConsumeChallenge w t \<Rightarrow> prog_map RClaim (try_consume_challenge_state cf sha w t)
      | CreateKey ps \<Rightarrow> prog_map RText (create_authenticator cf ps)
      | CommitCounter x c \<Rightarrow> prog_map RCounter (commit_authenticator_counter cf x c)
      | RenameKey x n \<Rightarrow> prog_map RFlag (update_authenticator_name cf x n)
      | DeleteKey u k \<Rightarrow> prog_map RKey (delete_key cf is_uuid u k)
      | Touch x \<Rightarrow> prog_map RUnit (update_last_used_at x)
      | Sweep ty \<Rightarrow> prog_map RCount (delete_expired cf ty)
      | InsertOther ty es t c \<Rightarrow> prog_map RUnit (insert_other cf (OtherDocument ty es t c))
      | FindOther ty f v \<Rightarrow> prog_map ROthers (find_other cf ty f v)
      | FindOneOther ty f v \<Rightarrow> prog_map ROther (find_one_other cf ty f v)
      | GetOther ty x \<Rightarrow> prog_map ROther (get_other ty x)
      | KeyById x \<Rightarrow> prog_map RKeyDoc (get_authenticator_by_id x)
      | DeleteOther ty x \<Rightarrow> prog_map RFlag (delete_other ty x))"

section \<open>The record of a run\<close>

text \<open>Spent documents: their credential has been redeemed.\<close>

definition spent :: "document \<Rightarrow> bool" where
  "spent d =
     (case d of
        AuthorizationCode x \<Rightarrow> ac_consumed_at x \<noteq> None
      | DeviceAuthRequest x \<Rightarrow> da_status x = DConsumed
      | OidcState x \<Rightarrow> os_consumed_at x \<noteq> None
      | PushedAuthorizationRequest x \<Rightarrow> par_consumed_at x \<noteq> None
      | PendingOAuthAuth x \<Rightarrow> po_consumed_at x \<noteq> None
      | _ \<Rightarrow> False)"

text \<open>
  What no write changes: the type, the text a credential is found under, its owner, and the
  expiry of a record that claims an identifier by its insert.
\<close>

definition identity :: "document \<Rightarrow> string \<times> string \<times> string \<times> timestamp option" where
  "identity d =
     (doc_type d,
      case d of
        AuthorizationCode x \<Rightarrow> (ac_code_hash x, [], None)
      | DeviceAuthRequest x \<Rightarrow> (da_device_code_hash x, [], None)
      | OidcState x \<Rightarrow> (os_state x, [], None)
      | PushedAuthorizationRequest x \<Rightarrow> (par_request_uri x, par_client_id x, None)
      | Authenticator x \<Rightarrow> (au_credential_id x, au_user_id x, None)
      | DpopNonce n _ \<Rightarrow> (n, [], None)
      | SignatureNonce n _ \<Rightarrow> (n, [], None)
      | DpopJti j t \<Rightarrow> (j, [], Some t)
      | JwtAssertionJti j c t \<Rightarrow> (j, c, Some t)
      | ChallengeState t \<Rightarrow> ([], [], Some t)
      | _ \<Rightarrow> ([], [], None))"

record event =
  ev_task :: nat
  ev_req :: request
  ev_id :: string
  ev_doc :: document
  ev_new :: document
  ev_time :: timestamp

record ghost =
  g_time :: timestamp
  g_ids :: "string set"
  g_issued :: "event list"
  g_retired :: "event list"
  g_written :: "event list"

definition db_ids :: "db \<Rightarrow> string set" where
  "db_ids s = row_id ` set (db_rows s)"

definition issued_rows :: "db \<Rightarrow> db \<Rightarrow> row list" where
  "issued_rows s s' = filter (\<lambda>r. row_id r \<notin> db_ids s) (db_rows s')"

definition lives_on :: "db \<Rightarrow> row \<Rightarrow> bool" where
  "lives_on s' r \<longleftrightarrow> (\<exists>r' \<in> set (db_rows s'). row_id r' = row_id r \<and> \<not> spent (row_data r'))"

definition retired_rows :: "db \<Rightarrow> db \<Rightarrow> row list" where
  "retired_rows s s' = filter (\<lambda>r. \<not> spent (row_data r) \<and> \<not> lives_on s' r) (db_rows s)"

definition rewritten_rows :: "db \<Rightarrow> db \<Rightarrow> (row \<times> row) list" where
  "rewritten_rows s s' =
     filter (\<lambda>(r, r'). row_id r' = row_id r \<and> row_data r' \<noteq> row_data r)
       (List.product (db_rows s) (db_rows s'))"

definition observe :: "nat \<Rightarrow> request \<Rightarrow> db_env \<Rightarrow> db \<Rightarrow> db \<Rightarrow> ghost \<Rightarrow> ghost" where
  "observe i q e s s' g =
     (let ev = (\<lambda>x d d'. \<lparr>ev_task = i, ev_req = q, ev_id = x, ev_doc = d, ev_new = d', ev_time = e_now e\<rparr>) in
      \<lparr>g_time = e_now e,
       g_ids = g_ids g \<union> db_ids s',
       g_issued = g_issued g @ map (\<lambda>r. ev (row_id r) (row_data r) (row_data r)) (issued_rows s s'),
       g_retired = g_retired g @ map (\<lambda>r. ev (row_id r) (row_data r) (row_data r)) (retired_rows s s'),
       g_written = g_written g @ map (\<lambda>(r, r'). ev (row_id r) (row_data r) (row_data r')) (rewritten_rows s s')\<rparr>)"

text \<open>
  What the steps may rely on: the hash has no collisions, the clock stays in range and does not
  run backwards, a UUID is fresh, it is no hash and is indexed like no other text, and no row has been written
  so often that its version stands still.
\<close>

definition db_env_ok :: "store_cfg \<Rightarrow> (string \<Rightarrow> string) \<Rightarrow> db_env \<Rightarrow> db \<Rightarrow> ghost \<Rightarrow> bool" where
  "db_env_ok cf sha e s g \<longleftrightarrow>
     inj sha \<and> g_time g \<le> e_now e \<and> TIMESTAMP_MIN \<le> e_now e \<and> e_now e \<le> TIMESTAMP_MAX
     \<and> e_uuid e \<notin> g_ids g \<and> e_uuid e \<notin> range sha
     \<and> (\<forall>v. index_value_condition cf (e_uuid e) (sc_hmac cf v) \<longrightarrow> v = e_uuid e)
     \<and> (\<forall>r \<in> set (db_rows s). row_version r < 2 ^ 31 - 1)"

definition db_empty :: db where
  "db_empty = \<lparr>db_rows = [], db_indexes = []\<rparr>"

definition ghost_start :: ghost where
  "ghost_start = \<lparr>g_time = TIMESTAMP_MIN, g_ids = {}, g_issued = [], g_retired = [], g_written = []\<rparr>"

type_synonym db_sys = "(request, db_env, db, response, ghost) sys"

abbreviation db_reach :: "store_cfg \<Rightarrow> (string \<Rightarrow> string) \<Rightarrow> (string \<Rightarrow> bool) \<Rightarrow> db_sys \<Rightarrow> bool" where
  "db_reach cf sha is_uuid \<equiv>
     sys_reach (serve cf sha is_uuid) (db_env_ok cf sha) observe db_empty ghost_start"

end
