(* ===== verification/Db_Invariant.thy ===== *)
theory Db_Invariant
  imports Db_System
begin

text \<open>
  What holds of the tables and of the record of a run in every state the system of
  \<open>Db_System\<close> reaches, and what a step may change. A request is known by the rewrites it may
  make; every statement is then shown to stay within them.
\<close>

section \<open>The invariant\<close>

text \<open>The row id that fits a document: derived for hashed types, never a hash for the others.\<close>

definition id_fits :: "(string \<Rightarrow> string) \<Rightarrow> string \<Rightarrow> document \<Rightarrow> bool" where
  "id_fits sha x d =
     (case d of
        DpopNonce n _ \<Rightarrow> x = deterministic_dpop_nonce_id sha n
      | SignatureNonce n _ \<Rightarrow> x = deterministic_signature_nonce_id sha n
      | DpopJti j _ \<Rightarrow> x = deterministic_dpop_jti_id sha j
      | JwtAssertionJti j c _ \<Rightarrow> x = deterministic_jti_id sha j c \<and> CHR 0x00 \<notin> set j
      | ChallengeState _ \<Rightarrow> (\<exists>w. x = deterministic_challenge_state_id sha w)
      | OtherDocument ty _ _ _ \<Rightarrow> x \<notin> range sha \<and> ty \<notin> set modelled_types
      | _ \<Rightarrow> x \<notin> range sha)"

definition row_wf :: "(string \<Rightarrow> string) \<Rightarrow> row \<Rightarrow> bool" where
  "row_wf sha r \<longleftrightarrow>
     row_type r = doc_type (row_data r) \<and> row_expires r = doc_expires (row_data r)
     \<and> 1 \<le> row_version r \<and> id_fits sha (row_id r) (row_data r)"

text \<open>The index holds the entries of the documents, and nothing else.\<close>

definition index_of :: "store_cfg \<Rightarrow> string \<Rightarrow> document \<Rightarrow> index_row set" where
  "index_of cf x d =
     (\<lambda>(field, v). \<lparr>ix_doc = x, ix_field = field, ix_value = sc_hmac cf v\<rparr>) ` set (index_entries d)"

definition index_exact :: "store_cfg \<Rightarrow> db \<Rightarrow> bool" where
  "index_exact cf s \<longleftrightarrow>
     distinct (db_indexes s)
     \<and> set (db_indexes s) = (\<Union>r \<in> set (db_rows s). index_of cf (row_id r) (row_data r))"

definition db_wf :: "store_cfg \<Rightarrow> (string \<Rightarrow> string) \<Rightarrow> db \<Rightarrow> bool" where
  "db_wf cf sha s \<longleftrightarrow>
     distinct (map row_id (db_rows s)) \<and> (\<forall>r \<in> set (db_rows s). row_wf sha r) \<and> index_exact cf s"

definition user_keys :: "string \<Rightarrow> db \<Rightarrow> string set" where
  "user_keys u s =
     {x. \<exists>r \<in> set (db_rows s). row_id r = x \<and> (\<exists>d. row_data r = Authenticator d \<and> au_user_id d = u)}"

text \<open>Claims made by an insert: the row must stay until its expiry has passed.\<close>

definition insert_claim :: "document \<Rightarrow> bool" where
  "insert_claim d =
     (case d of DpopJti _ _ \<Rightarrow> True | JwtAssertionJti _ _ _ \<Rightarrow> True | ChallengeState _ \<Rightarrow> True | _ \<Rightarrow> False)"

abbreviation read_by :: "timestamp \<Rightarrow> timestamp \<Rightarrow> bool" where
  "read_by now t \<equiv> TIMESTAMP_MIN \<le> now \<and> now \<le> t"

definition expired_by :: "store_cfg \<Rightarrow> timestamp \<Rightarrow> document \<Rightarrow> bool" where
  "expired_by cf t d \<longleftrightarrow>
     (\<exists>now x. read_by now t \<and> doc_expires d = Some x \<and> sc_text cf x < timestamp_seconds cf now)"

definition approved_by :: "authorize_device_auth_params \<Rightarrow> device_auth_request_doc \<Rightarrow> bool" where
  "approved_by ps d \<longleftrightarrow>
     da_user_id d = Some (ap_user_id ps) \<and> da_user_email d = Some (ap_user_email ps)
     \<and> da_authenticator_id d = Some (ap_authenticator_id ps)
     \<and> da_hardware_verified d = hardware_verified (hardware_of_approval (ap_verification ps))
     \<and> da_authenticated_at d = authenticated_at (hardware_of_approval (ap_verification ps))"

definition same_approval :: "device_auth_request_doc \<Rightarrow> device_auth_request_doc \<Rightarrow> bool" where
  "same_approval d d' \<longleftrightarrow>
     da_user_id d' = da_user_id d \<and> da_user_email d' = da_user_email d
     \<and> da_authenticator_id d' = da_authenticator_id d
     \<and> da_hardware_verified d' = da_hardware_verified d \<and> da_authenticated_at d' = da_authenticated_at d"

text \<open>The rewrites a request may make of the document with the given id.\<close>

definition legal_write :: "request \<Rightarrow> string \<Rightarrow> document \<Rightarrow> document \<Rightarrow> bool" where
  "legal_write q x old new =
     (case old of
        AuthorizationCode d \<Rightarrow> (\<exists>d'. new = AuthorizationCode d' \<and>
          ac_code_hash d' = ac_code_hash d \<and> (ac_consumed_at d \<noteq> None \<longrightarrow> ac_consumed_at d' \<noteq> None))
      | OidcState d \<Rightarrow> (\<exists>d'. new = OidcState d' \<and>
          os_state d' = os_state d \<and> (os_consumed_at d \<noteq> None \<longrightarrow> os_consumed_at d' \<noteq> None))
      | PushedAuthorizationRequest d \<Rightarrow> (\<exists>d'. new = PushedAuthorizationRequest d' \<and>
          par_request_uri d' = par_request_uri d \<and> par_client_id d' = par_client_id d
          \<and> (par_consumed_at d \<noteq> None \<longrightarrow> par_consumed_at d' \<noteq> None))
      | PendingOAuthAuth d \<Rightarrow> (\<exists>d'. new = PendingOAuthAuth d' \<and>
          (po_consumed_at d \<noteq> None \<longrightarrow> po_consumed_at d' \<noteq> None))
      | DeviceAuthRequest d \<Rightarrow> (\<exists>d'. new = DeviceAuthRequest d' \<and>
          da_device_code_hash d' = da_device_code_hash d
          \<and> (da_status d = DConsumed \<longrightarrow> da_status d' = DConsumed)
          \<and> (da_status d' = DPending \<longrightarrow> da_status d = DPending)
          \<and> (da_status d' = DAuthorized \<longrightarrow>
               da_status d = DAuthorized \<and> same_approval d d'
               \<or> da_status d = DPending \<and> (\<exists>ps. q = AuthorizeDevice ps \<and> ap_id ps = x \<and> approved_by ps d')))
      | Authenticator d \<Rightarrow> (\<exists>d'. new = Authenticator d' \<and>
          au_credential_id d' = au_credential_id d \<and> au_user_id d' = au_user_id d
          \<and> (au_counter d' = au_counter d
             \<or> q = CommitCounter x (au_counter d') \<and> admits (au_counter d) (au_counter d')))
      | _ \<Rightarrow> False)"

lemma legal_write_identity: "legal_write q x d d' \<Longrightarrow> identity d' = identity d"
  by (cases d) (auto simp: legal_write_def identity_def)

lemma legal_write_spent: "legal_write q x d d' \<Longrightarrow> spent d \<Longrightarrow> spent d'"
  by (cases d) (auto simp: legal_write_def spent_def)

lemma legal_write_fits: "legal_write q x d d' \<Longrightarrow> id_fits sha y d' = id_fits sha y d"
  by (cases d) (auto simp: legal_write_def id_fits_def)

lemma legal_write_claim: "legal_write q x d d' \<Longrightarrow> \<not> insert_claim d \<and> \<not> insert_claim d'"
  by (cases d) (auto simp: legal_write_def insert_claim_def)

lemma legal_write_trans: "legal_write q x d d' \<Longrightarrow> legal_write q x d' d'' \<Longrightarrow> legal_write q x d d''"
  by (cases d) (auto simp: legal_write_def same_approval_def approved_by_def)

lemma identity_type: "identity d = identity d' \<Longrightarrow> doc_type d = doc_type d'"
  by (simp add: identity_def)

text \<open>The change one step of a request may make to the tables.\<close>

definition row_moves :: "(string \<Rightarrow> string) \<Rightarrow> request \<Rightarrow> row \<Rightarrow> row \<Rightarrow> bool" where
  "row_moves sha q r r' \<longleftrightarrow>
     row_version r \<le> row_version r'
     \<and> (row_data r' = row_data r
        \<or> legal_write q (row_id r) (row_data r) (row_data r') \<and> row_version r < row_version r')"

definition new_row_ok :: "row \<Rightarrow> bool" where
  "new_row_ok r \<longleftrightarrow>
     \<not> spent (row_data r) \<and> (\<forall>d. row_data r = DeviceAuthRequest d \<longrightarrow> da_status d = DPending)"

definition db_moves :: "store_cfg \<Rightarrow> (string \<Rightarrow> string) \<Rightarrow> request \<Rightarrow> db_env \<Rightarrow> db \<Rightarrow> db \<Rightarrow> bool" where
  "db_moves cf sha q e s s' \<longleftrightarrow>
     db_wf cf sha s'
     \<and> (\<forall>r' \<in> set (db_rows s'). row_id r' \<notin> db_ids s \<longrightarrow>
          new_row_ok r' \<and> (row_id r' = e_uuid e \<or> row_id r' \<in> range sha))
     \<and> (\<forall>r \<in> set (db_rows s). \<forall>r' \<in> set (db_rows s'). row_id r' = row_id r \<longrightarrow> row_moves sha q r r')
     \<and> (\<forall>r \<in> set (db_rows s). row_id r \<notin> db_ids s' \<longrightarrow> insert_claim (row_data r) \<longrightarrow>
          expired_by cf (e_now e) (row_data r))"

text \<open>A key of a user goes only together with a new version of the row with the user's id.\<close>

definition keys_kept :: "db \<Rightarrow> db \<Rightarrow> bool" where
  "keys_kept s s' \<longleftrightarrow>
     (\<forall>u. user_keys u s \<subseteq> user_keys u s'
        \<or> user_keys u s' \<noteq> {}
          \<and> (\<exists>r \<in> set (db_rows s). \<exists>r' \<in> set (db_rows s'). row_id r = u \<and> row_id r' = u
               \<and> row_version r < row_version r'))"

definition live_tags :: "db \<Rightarrow> (string \<times> string \<times> string \<times> string \<times> timestamp option) list" where
  "live_tags s =
     map (\<lambda>r. (row_id r, identity (row_data r))) (filter (\<lambda>r. \<not> spent (row_data r)) (db_rows s))"

definition event_tag :: "event \<Rightarrow> string \<times> string \<times> string \<times> string \<times> timestamp option" where
  "event_tag ev = (ev_id ev, identity (ev_doc ev))"

text \<open>Every inserted document is either still live, or has been retired exactly once.\<close>

definition inv_count :: "db \<Rightarrow> ghost \<Rightarrow> bool" where
  "inv_count s g \<longleftrightarrow>
     mset (map event_tag (g_issued g)) = mset (map event_tag (g_retired g)) + mset (live_tags s)"

definition inv_claims :: "store_cfg \<Rightarrow> (string \<Rightarrow> string) \<Rightarrow> ghost \<Rightarrow> bool" where
  "inv_claims cf sha g \<longleftrightarrow>
     (\<forall>ev \<in> set (g_retired g). id_fits sha (ev_id ev) (ev_doc ev)
        \<and> (insert_claim (ev_doc ev) \<longrightarrow> expired_by cf (ev_time ev) (ev_doc ev)))"

definition inv_device :: "db \<Rightarrow> ghost \<Rightarrow> bool" where
  "inv_device s g \<longleftrightarrow>
     (\<forall>r \<in> set (db_rows s). \<forall>d. row_data r = DeviceAuthRequest d \<longrightarrow> da_status d = DAuthorized \<longrightarrow>
        (\<exists>ev \<in> set (g_written g). \<exists>ps. ev_id ev = row_id r \<and> ev_req ev = AuthorizeDevice ps
           \<and> ap_id ps = row_id r \<and> approved_by ps d))"

definition counter_of :: "document \<Rightarrow> u32" where
  "counter_of d = (case d of Authenticator x \<Rightarrow> au_counter x | _ \<Rightarrow> 0)"

definition counter_event :: "event \<Rightarrow> bool" where
  "counter_event ev \<longleftrightarrow> counter_of (ev_new ev) \<noteq> counter_of (ev_doc ev)"

definition inv_counter :: "db \<Rightarrow> ghost \<Rightarrow> bool" where
  "inv_counter s g \<longleftrightarrow>
     distinct (map (\<lambda>ev. (ev_id ev, counter_of (ev_new ev))) (filter counter_event (g_written g)))
     \<and> (\<forall>ev \<in> set (g_written g). \<forall>r \<in> set (db_rows s). row_id r = ev_id ev \<longrightarrow> counter_event ev \<longrightarrow>
          counter_of (ev_new ev) \<le> counter_of (row_data r))"

definition inv_keys :: "db \<Rightarrow> ghost \<Rightarrow> bool" where
  "inv_keys s g \<longleftrightarrow>
     (\<forall>ev \<in> set (g_issued g). \<forall>d. ev_doc ev = Authenticator d \<longrightarrow> user_keys (au_user_id d) s \<noteq> {})"

definition inv_ids :: "store_cfg \<Rightarrow> (string \<Rightarrow> string) \<Rightarrow> db \<Rightarrow> ghost \<Rightarrow> bool" where
  "inv_ids cf sha s g \<longleftrightarrow>
     db_ids s \<subseteq> g_ids g
     \<and> (\<forall>x \<in> g_ids g. x \<notin> range sha \<longrightarrow> (\<forall>v. index_value_condition cf x (sc_hmac cf v) \<longrightarrow> v = x))
     \<and> (\<forall>ev \<in> set (g_written g). ev_id ev \<in> g_ids g \<and> (counter_event ev \<longrightarrow> ev_id ev \<notin> range sha))"

definition db_inv :: "store_cfg \<Rightarrow> (string \<Rightarrow> string) \<Rightarrow> db \<Rightarrow> ghost \<Rightarrow> bool" where
  "db_inv cf sha s g \<longleftrightarrow>
     db_wf cf sha s \<and> inv_ids cf sha s g \<and> inv_count s g \<and> inv_claims cf sha g \<and> inv_device s g
     \<and> inv_counter s g \<and> inv_keys s g"

section \<open>What the others may do\<close>

definition db_rely :: "(string \<Rightarrow> string) \<Rightarrow> db \<Rightarrow> ghost \<Rightarrow> db \<Rightarrow> ghost \<Rightarrow> bool" where
  "db_rely sha s g s' g' \<longleftrightarrow>
     g_ids g \<subseteq> g_ids g' \<and> g_time g \<le> g_time g'
     \<and> set (g_issued g) \<subseteq> set (g_issued g') \<and> set (g_retired g) \<subseteq> set (g_retired g')
     \<and> set (g_written g) \<subseteq> set (g_written g')
     \<and> (\<forall>r \<in> set (db_rows s). \<forall>r' \<in> set (db_rows s').
          row_id r' = row_id r \<longrightarrow> row_id r \<in> g_ids g \<longrightarrow> row_id r \<notin> range sha \<longrightarrow>
            identity (row_data r') = identity (row_data r) \<and> row_version r \<le> row_version r'
            \<and> (row_version r' = row_version r \<longrightarrow> row_data r' = row_data r))
     \<and> (\<forall>x \<in> g_ids g. x \<notin> range sha \<longrightarrow> x \<notin> db_ids s \<longrightarrow> x \<notin> db_ids s')
     \<and> (\<forall>u \<in> g_ids g. u \<notin> range sha \<longrightarrow>
          (\<forall>r \<in> set (db_rows s). \<forall>r' \<in> set (db_rows s'). row_id r = u \<longrightarrow> row_id r' = u \<longrightarrow>
             row_version r' = row_version r \<longrightarrow> user_keys u s \<subseteq> user_keys u s'))"

lemma db_idsD: "x \<in> db_ids s \<Longrightarrow> \<exists>r \<in> set (db_rows s). row_id r = x"
  by (auto simp: db_ids_def)

lemma db_idsI: "r \<in> set (db_rows s) \<Longrightarrow> row_id r \<in> db_ids s"
  by (auto simp: db_ids_def)

lemma db_rely_row:
  assumes "db_rely sha s g s' g'" and "r \<in> set (db_rows s)" and "r' \<in> set (db_rows s')"
    and "row_id r' = row_id r" and "row_id r \<in> g_ids g" and "row_id r \<notin> range sha"
  shows "identity (row_data r') = identity (row_data r)" and "row_version r \<le> row_version r'"
    and "row_version r' = row_version r \<Longrightarrow> row_data r' = row_data r"
  using assms by (simp_all add: db_rely_def)

lemma db_rely_present:
  assumes "db_rely sha s g s' g'" and "r' \<in> set (db_rows s')"
    and "row_id r' \<in> g_ids g" and "row_id r' \<notin> range sha"
  shows "\<exists>r \<in> set (db_rows s). row_id r = row_id r'"
proof (rule ccontr)
  assume "\<not> ?thesis"
  then have "row_id r' \<notin> db_ids s" by (auto simp: db_ids_def)
  then have "row_id r' \<notin> db_ids s'" using assms by (simp add: db_rely_def)
  then show False using assms(2) by (simp add: db_idsI)
qed

lemma db_rely_keys:
  assumes "db_rely sha s g s' g'" and "r \<in> set (db_rows s)" and "r' \<in> set (db_rows s')"
    and "row_id r' = row_id r" and "row_id r \<in> g_ids g" and "row_id r \<notin> range sha"
    and "row_version r' = row_version r"
  shows "user_keys (row_id r) s \<subseteq> user_keys (row_id r) s'"
  using assms by (simp add: db_rely_def)

lemma db_rely_ghost:
  assumes "db_rely sha s g s' g'"
  shows "g_ids g \<subseteq> g_ids g'" and "g_time g \<le> g_time g'" and "set (g_issued g) \<subseteq> set (g_issued g')"
    and "set (g_retired g) \<subseteq> set (g_retired g')" and "set (g_written g) \<subseteq> set (g_written g')"
  using assms by (simp_all add: db_rely_def)

lemma db_rely_refl: "db_wf cf sha s \<Longrightarrow> db_rely sha s g s g"
  by (auto simp: db_rely_def db_wf_def distinct_map inj_on_def)

lemma db_rely_trans:
  assumes a: "db_rely sha s g s' g'" and b: "db_rely sha s' g' s'' g''"
  shows "db_rely sha s g s'' g''"
  unfolding db_rely_def
proof (intro conjI ballI impI)
  note ga = db_rely_ghost [OF a] and gb = db_rely_ghost [OF b]
  show "g_ids g \<subseteq> g_ids g''" "g_time g \<le> g_time g''" "set (g_issued g) \<subseteq> set (g_issued g'')"
    "set (g_retired g) \<subseteq> set (g_retired g'')" "set (g_written g) \<subseteq> set (g_written g'')"
    using ga gb by auto
  show "x \<notin> db_ids s''" if "x \<in> g_ids g" "x \<notin> range sha" "x \<notin> db_ids s" for x
    using a b that ga(1) by (auto simp: db_rely_def)
  fix r r''
  assume r: "r \<in> set (db_rows s)" and r'': "r'' \<in> set (db_rows s'')"
  {
    assume i: "row_id r'' = row_id r" and x: "row_id r \<in> g_ids g" and n: "row_id r \<notin> range sha"
    have x': "row_id r'' \<in> g_ids g'" and n'': "row_id r'' \<notin> range sha" using i x n ga(1) by auto
    obtain r' where r': "r' \<in> set (db_rows s')" "row_id r' = row_id r''"
      using db_rely_present [OF b r'' x' n''] by blast
    note ra = db_rely_row [OF a r r'(1) _ x n] and rb = db_rely_row [OF b r'(1) r'']
    show "identity (row_data r'') = identity (row_data r)" "row_version r \<le> row_version r''"
      using ra(1,2) rb(1,2) r'(2) i x' n'' by auto
    show "row_data r'' = row_data r" if "row_version r'' = row_version r"
      using ra(2,3) rb(2,3) r'(2) i x' n'' that by auto
    assume v: "row_version r'' = row_version r"
    have "row_version r' = row_version r" "row_version r'' = row_version r'"
      using ra(2) rb(2) r'(2) i x' n'' v by auto
    then have "user_keys (row_id r) s \<subseteq> user_keys (row_id r) s'" "user_keys (row_id r) s' \<subseteq> user_keys (row_id r) s''"
      using db_rely_keys [OF a r r'(1)] db_rely_keys [OF b r'(1) r''] r'(2) i x n x' n'' by auto
    then have "user_keys (row_id r) s \<subseteq> user_keys (row_id r) s''" by blast
  }
  note keys = this
  show "user_keys u s \<subseteq> user_keys u s''"
    if "u \<in> g_ids g" "u \<notin> range sha" "row_id r = u" "row_id r'' = u" "row_version r'' = row_version r" for u
    using keys that by auto
qed

section \<open>Steps keep the invariant\<close>

lemma observe_simps [simp]:
  "g_time (observe i q e s s' g) = e_now e"
  "g_ids (observe i q e s s' g) = g_ids g \<union> db_ids s'"
  "g_issued (observe i q e s s' g) = g_issued g @
     map (\<lambda>r. \<lparr>ev_task = i, ev_req = q, ev_id = row_id r, ev_doc = row_data r, ev_new = row_data r, ev_time = e_now e\<rparr>)
       (issued_rows s s')"
  "g_retired (observe i q e s s' g) = g_retired g @
     map (\<lambda>r. \<lparr>ev_task = i, ev_req = q, ev_id = row_id r, ev_doc = row_data r, ev_new = row_data r, ev_time = e_now e\<rparr>)
       (retired_rows s s')"
  "g_written (observe i q e s s' g) = g_written g @
     map (\<lambda>(r, r'). \<lparr>ev_task = i, ev_req = q, ev_id = row_id r, ev_doc = row_data r, ev_new = row_data r', ev_time = e_now e\<rparr>)
       (rewritten_rows s s')"
  by (simp_all add: observe_def Let_def)

lemma row_moves_identity: "row_moves sha q r r' \<Longrightarrow> identity (row_data r') = identity (row_data r)"
  by (auto simp: row_moves_def legal_write_identity)

lemma row_moves_spent: "row_moves sha q r r' \<Longrightarrow> spent (row_data r) \<Longrightarrow> spent (row_data r')"
  by (auto simp: row_moves_def legal_write_spent)

lemma distinct_live_tags: "db_wf cf sha s \<Longrightarrow> distinct (live_tags s)"
  by (auto simp: live_tags_def db_wf_def distinct_map inj_on_def)

lemma mset_map_filter_split:
  "mset (map f (filter P xs)) =
     mset (map f (filter (\<lambda>x. P x \<and> Q x) xs)) + mset (map f (filter (\<lambda>x. P x \<and> \<not> Q x) xs))"
  by (induction xs) auto

lemma change_count:
  assumes wf: "db_wf cf sha s" and m: "db_moves cf sha q e s s'" and c: "inv_count s g"
  shows "inv_count s' (observe i q e s s' g)"
proof -
  let ?t = "\<lambda>r. (row_id r, identity (row_data r))"
  let ?stay = "filter (\<lambda>r. \<not> spent (row_data r) \<and> lives_on s' r) (db_rows s)"
  let ?kept = "filter (\<lambda>r. \<not> spent (row_data r) \<and> row_id r \<in> db_ids s) (db_rows s')"
  have wf': "db_wf cf sha s'" using m by (simp add: db_moves_def)
  have new: "filter (\<lambda>r. \<not> spent (row_data r) \<and> row_id r \<notin> db_ids s) (db_rows s') = issued_rows s s'"
    unfolding issued_rows_def by (rule filter_cong) (use m in \<open>auto simp: db_moves_def new_row_ok_def\<close>)
  have mv: "row_moves sha q r r'"
    if "r \<in> set (db_rows s)" "r' \<in> set (db_rows s')" "row_id r' = row_id r" for r r'
    using m that by (simp add: db_moves_def)
  have "set (map ?t ?stay) = set (map ?t ?kept)"
  proof (intro equalityI subsetI)
    fix x assume "x \<in> set (map ?t ?stay)"
    then obtain r where r: "r \<in> set (db_rows s)" "\<not> spent (row_data r)" "lives_on s' r" "x = ?t r" by auto
    then obtain r' where r': "r' \<in> set (db_rows s')" "row_id r' = row_id r" "\<not> spent (row_data r')"
      by (auto simp: lives_on_def)
    then have x: "x = ?t r'" using row_moves_identity [OF mv [OF r(1) r'(1,2)]] r(4) by simp
    have "r' \<in> set ?kept" using r r' by (auto simp: db_ids_def)
    then show "x \<in> set (map ?t ?kept)" unfolding x set_map by (rule imageI)
  next
    fix x assume "x \<in> set (map ?t ?kept)"
    then obtain r' where r': "r' \<in> set (db_rows s')" "\<not> spent (row_data r')" "row_id r' \<in> db_ids s" "x = ?t r'"
      by auto
    then obtain r where r: "r \<in> set (db_rows s)" "row_id r' = row_id r" by (auto simp: db_ids_def)
    note mvr = mv [OF r(1) r'(1) r(2)]
    have "\<not> spent (row_data r)" and x: "x = ?t r"
      using row_moves_spent [OF mvr] row_moves_identity [OF mvr] r' r by auto
    then have "r \<in> set ?stay" using r r' by (auto simp: lives_on_def)
    then show "x \<in> set (map ?t ?stay)" unfolding x set_map by (rule imageI)
  qed
  moreover have "distinct (map ?t ?stay)" "distinct (map ?t ?kept)"
    using wf wf' by (auto simp: db_wf_def distinct_map inj_on_def)
  ultimately have kept: "mset (map ?t ?stay) = mset (map ?t ?kept)"
    using set_eq_iff_mset_eq_distinct by blast
  have old: "mset (live_tags s) = mset (map ?t ?stay) + mset (map ?t (retired_rows s s'))"
    unfolding live_tags_def retired_rows_def by (rule mset_map_filter_split)
  have new': "mset (live_tags s') = mset (map ?t ?kept) + mset (map ?t (issued_rows s s'))"
    unfolding live_tags_def new [symmetric] by (rule mset_map_filter_split)
  have ev: "map event_tag (map (\<lambda>r. \<lparr>ev_task = i, ev_req = q, ev_id = row_id r, ev_doc = row_data r,
      ev_new = row_data r, ev_time = e_now e\<rparr>) rs) = map ?t rs" for rs
    by (simp add: event_tag_def)
  show ?thesis
    using c unfolding inv_count_def observe_simps map_append ev mset_append old new' kept
    by (simp only: ac_simps)
qed

lemma change_claims:
  assumes wf: "db_wf cf sha s" and m: "db_moves cf sha q e s s'" and c: "inv_claims cf sha g"
  shows "inv_claims cf sha (observe i q e s s' g)"
proof -
  have "expired_by cf (e_now e) (row_data r)"
    if r: "r \<in> set (retired_rows s s')" and ic: "insert_claim (row_data r)" for r
  proof -
    have rs: "r \<in> set (db_rows s)" and nl: "\<not> lives_on s' r" using r by (auto simp: retired_rows_def)
    have "row_id r \<notin> db_ids s'"
    proof
      assume "row_id r \<in> db_ids s'"
      then obtain r' where r': "r' \<in> set (db_rows s')" "row_id r' = row_id r" by (auto simp: db_ids_def)
      then have "row_moves sha q r r'" using m rs by (simp add: db_moves_def)
      then have "row_data r' = row_data r" using ic by (auto simp: row_moves_def dest: legal_write_claim)
      then have "\<not> spent (row_data r')" using ic by (auto simp: insert_claim_def spent_def split: document.splits)
      then show False using nl r' by (auto simp: lives_on_def)
    qed
    then show ?thesis using m rs ic by (simp add: db_moves_def)
  qed
  moreover have "id_fits sha (row_id r) (row_data r)" if "r \<in> set (retired_rows s s')" for r
    using wf that by (auto simp: retired_rows_def db_wf_def row_wf_def)
  ultimately show ?thesis using c by (auto simp: inv_claims_def)
qed

lemma rewritten_rowsE:
  assumes "(r, r') \<in> set (rewritten_rows s s')"
  obtains "r \<in> set (db_rows s)" "r' \<in> set (db_rows s')" "row_id r' = row_id r" "row_data r' \<noteq> row_data r"
  using assms by (auto simp: rewritten_rows_def)

lemma rewritten_rowsI:
  "\<lbrakk>r \<in> set (db_rows s); r' \<in> set (db_rows s'); row_id r' = row_id r; row_data r' \<noteq> row_data r\<rbrakk>
     \<Longrightarrow> (r, r') \<in> set (rewritten_rows s s')"
  by (auto simp: rewritten_rows_def)

lemma written_mono: "ev \<in> set (g_written g) \<Longrightarrow> ev \<in> set (g_written (observe i q e s s' g))"
  by simp

lemma written_new:
  assumes "r \<in> set (db_rows s)" and "r' \<in> set (db_rows s')" and "row_id r' = row_id r" and "row_data r' \<noteq> row_data r"
  shows "\<lparr>ev_task = i, ev_req = q, ev_id = row_id r, ev_doc = row_data r, ev_new = row_data r', ev_time = e_now e\<rparr>
    \<in> set (g_written (observe i q e s s' g))"
  using rewritten_rowsI [OF assms] by force

lemma change_device:
  assumes m: "db_moves cf sha q e s s'" and c: "inv_device s g"
  shows "inv_device s' (observe i q e s s' g)"
  unfolding inv_device_def
proof (intro ballI allI impI)
  fix r' d'
  assume r': "r' \<in> set (db_rows s')" and d': "row_data r' = DeviceAuthRequest d'" "da_status d' = DAuthorized"
  let ?goal = "\<lambda>r. \<exists>ev \<in> set (g_written (observe i q e s s' g)). \<exists>ps. ev_id ev = row_id r \<and> ev_req ev = AuthorizeDevice ps
           \<and> ap_id ps = row_id r \<and> approved_by ps d'"
  show "?goal r'"
  proof (cases "row_id r' \<in> db_ids s")
    case False
    with m r' d' show ?thesis by (auto simp: db_moves_def new_row_ok_def)
  next
    case True
    then obtain r where r: "r \<in> set (db_rows s)" "row_id r' = row_id r" by (auto simp: db_ids_def)
    then have mv: "row_moves sha q r r'" using m r' by (simp add: db_moves_def)
    have old: ?thesis if "row_data r = DeviceAuthRequest d" "da_status d = DAuthorized" "same_approval d d'" for d
    proof -
      obtain ev ps where "ev \<in> set (g_written g)" "ev_id ev = row_id r" "ev_req ev = AuthorizeDevice ps"
        "ap_id ps = row_id r" "approved_by ps d"
        using c r(1) \<open>row_data r = _\<close> \<open>da_status d = _\<close> unfolding inv_device_def by blast
      moreover have "approved_by ps d'"
        using \<open>approved_by ps d\<close> \<open>same_approval d d'\<close> by (auto simp: approved_by_def same_approval_def)
      moreover have "ev \<in> set (g_written (observe i q e s s' g))"
        using \<open>ev \<in> set (g_written g)\<close> by (rule written_mono)
      ultimately show ?thesis unfolding r(2) by blast
    qed
    show ?thesis
    proof (cases "row_data r' = row_data r")
      case True
      have "row_data r = DeviceAuthRequest d'" using True d'(1) by simp
      moreover have "same_approval d' d'" by (simp add: same_approval_def)
      ultimately show ?thesis using old d'(2) by blast
    next
      case False
      then have "legal_write q (row_id r) (row_data r) (DeviceAuthRequest d')"
        using mv d' by (auto simp: row_moves_def)
      then obtain d where d: "row_data r = DeviceAuthRequest d"
        and "da_status d = DAuthorized \<and> same_approval d d'
          \<or> da_status d = DPending \<and> (\<exists>ps. q = AuthorizeDevice ps \<and> ap_id ps = row_id r \<and> approved_by ps d')"
        using d'(2) by (auto simp: legal_write_def split: document.splits)
      moreover have ?thesis if q: "q = AuthorizeDevice ps" "ap_id ps = row_id r" "approved_by ps d'" for ps
      proof -
        let ?ev = "\<lparr>ev_task = i, ev_req = q, ev_id = row_id r, ev_doc = row_data r, ev_new = row_data r',
          ev_time = e_now e\<rparr>"
        have "?ev \<in> set (g_written (observe i q e s s' g))"
          using written_new [OF r(1) r' r(2) False] .
        then show ?thesis unfolding r(2) by (rule bexI [rotated]) (use q in simp)
      qed
      ultimately show ?thesis using old by blast
    qed
  qed
qed

lemma db_moves_row:
  assumes "db_moves cf sha q e s s'" and "r \<in> set (db_rows s)" and "r' \<in> set (db_rows s')" and "row_id r' = row_id r"
  shows "row_moves sha q r r'"
  using assms by (simp add: db_moves_def)

lemma db_moves_new:
  assumes "db_moves cf sha q e s s'" and "r' \<in> set (db_rows s')" and "row_id r' \<notin> db_ids s"
  shows "new_row_ok r'" and "row_id r' = e_uuid e \<or> row_id r' \<in> range sha"
  using assms by (simp_all add: db_moves_def)

lemma legal_write_counter:
  assumes "legal_write q x d d'" and "counter_of d' \<noteq> counter_of d"
  shows "counter_of d < counter_of d'" and "q = CommitCounter x (counter_of d')"
    and "\<exists>a. d = Authenticator a" and "admits (counter_of d) (counter_of d')"
  using assms by (cases d; auto simp: legal_write_def counter_of_def admits_def word_neq_0_conv)+

lemma row_moves_counter: "row_moves sha q r r' \<Longrightarrow> counter_of (row_data r) \<le> counter_of (row_data r')"
  by (metis legal_write_counter(1) order.order_iff_strict row_moves_def)

lemma rewritten_counter:
  assumes m: "db_moves cf sha q e s s'" and r: "(r, r') \<in> set (rewritten_rows s s')"
    and c: "counter_of (row_data r') \<noteq> counter_of (row_data r)"
  shows "counter_of (row_data r) < counter_of (row_data r')" and "\<exists>a. row_data r = Authenticator a"
proof -
  from r have "r \<in> set (db_rows s)" "r' \<in> set (db_rows s')" "row_id r' = row_id r" "row_data r' \<noteq> row_data r"
    by (auto elim: rewritten_rowsE)
  then have l: "legal_write q (row_id r) (row_data r) (row_data r')"
    using db_moves_row [OF m] by (auto simp: row_moves_def)
  show "counter_of (row_data r) < counter_of (row_data r')" "\<exists>a. row_data r = Authenticator a"
    using legal_write_counter(1,3) [OF l c] by auto
qed

lemma distinct_rewritten:
  assumes "db_wf cf sha s" and "db_wf cf sha s'"
  shows "distinct (map (row_id \<circ> fst) (rewritten_rows s s'))"
proof -
  have "distinct (List.product (db_rows s) (db_rows s'))"
    using assms by (simp add: db_wf_def distinct_map distinct_product)
  moreover have "inj_on (row_id \<circ> fst) (set (rewritten_rows s s'))"
    using assms by (auto simp: inj_on_def db_wf_def distinct_map elim!: rewritten_rowsE)
  ultimately show ?thesis by (simp add: distinct_map rewritten_rows_def)
qed

lemma change_counter:
  assumes wf: "db_wf cf sha s" and m: "db_moves cf sha q e s s'" and ok: "db_env_ok cf sha e s g"
    and ids: "inv_ids cf sha s g" and c: "inv_counter s g"
  shows "inv_counter s' (observe i q e s s' g)"
proof -
  let ?tag = "\<lambda>ev. (ev_id ev, counter_of (ev_new ev))"
  let ?ev = "\<lambda>(r, r'). \<lparr>ev_task = i, ev_req = q, ev_id = row_id r, ev_doc = row_data r, ev_new = row_data r', ev_time = e_now e\<rparr>"
  let ?rw = "filter (counter_event \<circ> ?ev) (rewritten_rows s s')"
  have wf': "db_wf cf sha s'" using m by (simp add: db_moves_def)
  have new: "filter counter_event (map ?ev (rewritten_rows s s')) = map ?ev ?rw"
    by (simp add: filter_map)
  have less: "counter_of (row_data r) < counter_of (row_data r')" if "(r, r') \<in> set ?rw" for r r'
    using that rewritten_counter(1) [OF m] by (auto simp: counter_event_def)
  have "distinct (map ?tag (map ?ev ?rw))"
  proof -
    have "distinct (map (row_id \<circ> fst) ?rw)"
      using distinct_rewritten [OF wf wf'] by (rule distinct_map_filter)
    moreover have "map fst (map ?tag (map ?ev ?rw)) = map (row_id \<circ> fst) ?rw"
      by (simp add: case_prod_beta comp_def)
    ultimately have "distinct (map fst (map ?tag (map ?ev ?rw)))" by (simp only:)
    then show ?thesis unfolding distinct_map [of fst] by (rule conjunct1)
  qed
  moreover have "set (map ?tag (filter counter_event (g_written g))) \<inter> set (map ?tag (map ?ev ?rw)) = {}"
  proof -
    have False if "ev \<in> set (g_written g)" "counter_event ev" "(r, r') \<in> set ?rw" "?tag ev = ?tag (?ev (r, r'))" for ev r r'
    proof -
      have "r \<in> set (db_rows s)" using that(3) by (auto elim: rewritten_rowsE)
      then have "counter_of (ev_new ev) \<le> counter_of (row_data r)"
        using c that by (auto simp: inv_counter_def)
      then show False using less [OF that(3)] that(4) by simp
    qed
    then show ?thesis by fastforce
  qed
  ultimately have 1: "distinct (map ?tag (filter counter_event (g_written (observe i q e s s' g))))"
    using c by (simp only: observe_simps filter_append new map_append distinct_append inv_counter_def)
  have 2: "counter_of (ev_new ev) \<le> counter_of (row_data r')"
    if ev: "ev \<in> set (g_written g)" "counter_event ev" and r': "r' \<in> set (db_rows s')" "row_id r' = ev_id ev" for ev r'
  proof (cases "row_id r' \<in> db_ids s")
    case True
    then obtain r where r: "r \<in> set (db_rows s)" "row_id r' = row_id r" by (auto simp: db_ids_def)
    have "counter_of (ev_new ev) \<le> counter_of (row_data r)" using c ev r r' by (simp add: inv_counter_def)
    also have "\<dots> \<le> counter_of (row_data r')" using row_moves_counter db_moves_row [OF m r(1) r'(1) r(2)] by blast
    finally show ?thesis .
  next
    case False
    then have "ev_id ev = e_uuid e \<or> ev_id ev \<in> range sha" using db_moves_new(2) [OF m r'(1)] r'(2) by simp
    then show ?thesis using ids ev ok by (auto simp: inv_ids_def db_env_ok_def)
  qed
  have 3: "counter_of (row_data r') \<le> counter_of (row_data t)"
    if "(r, r') \<in> set (rewritten_rows s s')" "t \<in> set (db_rows s')" "row_id t = row_id r" for r r' t
  proof -
    have "r' \<in> set (db_rows s')" "row_id r' = row_id r" using that(1) by (auto elim: rewritten_rowsE)
    then have "t = r'" using wf' that by (auto simp: db_wf_def distinct_map inj_on_def)
    then show ?thesis by simp
  qed
  show ?thesis
    unfolding inv_counter_def
  proof (intro conjI ballI impI)
    fix ev t
    assume "ev \<in> set (g_written (observe i q e s s' g))" and t: "t \<in> set (db_rows s')" "row_id t = ev_id ev" "counter_event ev"
    then consider "ev \<in> set (g_written g)" | r r' where "(r, r') \<in> set (rewritten_rows s s')" "ev = ?ev (r, r')"
      by auto
    then show "counter_of (ev_new ev) \<le> counter_of (row_data t)"
      by cases (use 2 3 t in auto)
  qed (rule 1)
qed

lemma change_keys:
  assumes k: "keys_kept s s'" and c: "inv_keys s g"
  shows "inv_keys s' (observe i q e s s' g)"
  unfolding inv_keys_def
proof (intro ballI allI impI)
  fix ev d
  assume "ev \<in> set (g_issued (observe i q e s s' g))" and d: "ev_doc ev = Authenticator d"
  then consider "ev \<in> set (g_issued g)" | r where "r \<in> set (db_rows s')" "row_data r = Authenticator d"
    by (auto simp: issued_rows_def)
  then show "user_keys (au_user_id d) s' \<noteq> {}"
  proof cases
    case 1
    then have "user_keys (au_user_id d) s \<noteq> {}" using c d by (simp add: inv_keys_def)
    then show ?thesis using k unfolding keys_kept_def by blast
  next
    case 2
    then show ?thesis by (auto simp: user_keys_def)
  qed
qed

lemma change_ids:
  assumes wf: "db_wf cf sha s" and m: "db_moves cf sha q e s s'" and ok: "db_env_ok cf sha e s g"
    and c: "inv_ids cf sha s g"
  shows "inv_ids cf sha s' (observe i q e s s' g)"
  unfolding inv_ids_def observe_simps
proof (intro conjI ballI impI allI)
  show "db_ids s' \<subseteq> g_ids g \<union> db_ids s'" by simp
next
  fix x v
  assume x: "x \<in> g_ids g \<union> db_ids s'" "x \<notin> range sha" and v: "index_value_condition cf x (sc_hmac cf v)"
  show "v = x"
  proof (cases "x \<in> g_ids g")
    case True
    then show ?thesis using c x v by (auto simp: inv_ids_def)
  next
    case False
    then obtain r where "r \<in> set (db_rows s')" "row_id r = x" using x by (auto simp: db_ids_def)
    moreover have "x \<notin> db_ids s" using False c by (auto simp: inv_ids_def)
    ultimately have "x = e_uuid e" using db_moves_new(2) [OF m] x by blast
    then show ?thesis using ok v by (simp add: db_env_ok_def)
  qed
next
  fix ev
  assume "ev \<in> set (g_written g @ map (\<lambda>(r, r'). \<lparr>ev_task = i, ev_req = q, ev_id = row_id r, ev_doc = row_data r,
    ev_new = row_data r', ev_time = e_now e\<rparr>) (rewritten_rows s s'))"
  then consider "ev \<in> set (g_written g)"
    | r r' where "(r, r') \<in> set (rewritten_rows s s')" "ev_id ev = row_id r" "ev_doc ev = row_data r" "ev_new ev = row_data r'"
    by auto
  note ev = this
  show "ev_id ev \<in> g_ids g \<union> db_ids s'"
    using ev
  proof cases
    case 2
    then have "ev_id ev \<in> db_ids s" by (auto elim!: rewritten_rowsE simp: db_ids_def)
    then show ?thesis using c by (auto simp: inv_ids_def)
  qed (use c in \<open>simp add: inv_ids_def\<close>)
  assume k: "counter_event ev"
  show "ev_id ev \<notin> range sha"
    using ev
  proof cases
    case 2
    then obtain a where "row_data r = Authenticator a"
      using rewritten_counter(2) [OF m] k by (auto simp: counter_event_def)
    moreover have "r \<in> set (db_rows s)" using 2 by (auto elim: rewritten_rowsE)
    ultimately show ?thesis using wf 2 by (auto simp: db_wf_def row_wf_def id_fits_def)
  qed (use c k in \<open>simp add: inv_ids_def\<close>)
qed

lemma change_rely:
  assumes wf: "db_wf cf sha s" and m: "db_moves cf sha q e s s'" and k: "keys_kept s s'"
    and ok: "db_env_ok cf sha e s g"
  shows "db_rely sha s g s' (observe i q e s s' g)"
  unfolding db_rely_def
proof (intro conjI ballI impI)
  show "g_ids g \<subseteq> g_ids (observe i q e s s' g)" "set (g_issued g) \<subseteq> set (g_issued (observe i q e s s' g))"
    "set (g_retired g) \<subseteq> set (g_retired (observe i q e s s' g))" "set (g_written g) \<subseteq> set (g_written (observe i q e s s' g))"
    "g_time g \<le> g_time (observe i q e s s' g)"
    using ok by (auto simp: db_env_ok_def)
next
  fix r r' assume "r \<in> set (db_rows s)" "r' \<in> set (db_rows s')" "row_id r' = row_id r"
  then have mv: "row_moves sha q r r'" using m by (rule db_moves_row [rotated])
  show "identity (row_data r') = identity (row_data r)" "row_version r \<le> row_version r'"
    "row_version r' = row_version r \<Longrightarrow> row_data r' = row_data r"
    using mv row_moves_identity [OF mv] by (auto simp: row_moves_def)
next
  fix x assume "x \<in> g_ids g" "x \<notin> range sha" "x \<notin> db_ids s"
  then show "x \<notin> db_ids s'"
    using db_moves_new(2) [OF m] ok by (fastforce simp: db_env_ok_def db_ids_def)
next
  fix u r r'
  assume r: "r \<in> set (db_rows s)" "r' \<in> set (db_rows s')" "row_id r = u" "row_id r' = u" "row_version r' = row_version r"
  have wf': "db_wf cf sha s'" using m by (simp add: db_moves_def)
  have "a = r" if "a \<in> set (db_rows s)" "row_id a = u" for a
    using wf that r by (auto simp: db_wf_def distinct_map inj_on_def)
  moreover have "a = r'" if "a \<in> set (db_rows s')" "row_id a = u" for a
    using wf' that r by (auto simp: db_wf_def distinct_map inj_on_def)
  ultimately show "user_keys u s \<subseteq> user_keys u s'"
    using k r(5) unfolding keys_kept_def by (metis order.strict_implies_not_eq)
qed

lemma change_inv:
  assumes "db_inv cf sha s g" and "db_env_ok cf sha e s g" and "db_moves cf sha q e s s'" and "keys_kept s s'"
  shows "db_rely sha s g s' (observe i q e s s' g)" and "db_inv cf sha s' (observe i q e s s' g)"
proof -
  have wf: "db_wf cf sha s" using assms(1) by (simp add: db_inv_def)
  show "db_rely sha s g s' (observe i q e s s' g)" using change_rely [OF wf] assms by blast
  show "db_inv cf sha s' (observe i q e s s' g)"
    using assms unfolding db_inv_def
    by (intro conjI change_ids [OF wf] change_count [OF wf] change_claims [OF wf] change_device change_counter [OF wf] change_keys)
      (auto simp: db_moves_def)
qed

lemma db_moves_refl: "db_wf cf sha s \<Longrightarrow> db_moves cf sha q e s s"
  by (auto simp: db_moves_def row_moves_def db_ids_def db_wf_def distinct_map inj_on_def)

lemma keys_kept_refl [simp]: "keys_kept s s"
  by (simp add: keys_kept_def)

end
