(* ===== verification/Db_Steps.thy ===== *)
theory Db_Steps
  imports Db_Invariant
begin

text \<open>
  The statements of the store as changes of the tables, and the rules by which a program of
  the store is shown to keep its contract while others run: one rule for a step, one for
  retries, one for a guarded update and one for the loop of a transition.
\<close>

section \<open>Statements\<close>

lemma insert_indexes_spec:
  assumes "insert_indexes cf did es ixs = Inr ixs'" and "distinct ixs"
  shows "distinct ixs'"
    and "set ixs' = set ixs \<union> (\<lambda>(field, v). \<lparr>ix_doc = did, ix_field = field, ix_value = sc_hmac cf v\<rparr>) ` set es"
  using assms by (induction cf did es ixs rule: insert_indexes.induct) (auto simp: Let_def split: if_splits)

lemma index_of_doc: "ix \<in> index_of cf x d \<Longrightarrow> ix_doc ix = x"
  by (auto simp: index_of_def)

lemma db_wf_row: "db_wf cf sha s \<Longrightarrow> r \<in> set (db_rows s) \<Longrightarrow> row_wf sha r"
  by (simp add: db_wf_def)

lemma db_wf_same:
  "\<lbrakk>db_wf cf sha s; r \<in> set (db_rows s); r' \<in> set (db_rows s); row_id r' = row_id r\<rbrakk> \<Longrightarrow> r' = r"
  by (auto simp: db_wf_def distinct_map inj_on_def)

lemma row_moves_refl [simp]: "row_moves sha q r r"
  by (simp add: row_moves_def)

text \<open>Deleting rows together with their entries.\<close>

definition without_rows :: "string set \<Rightarrow> db \<Rightarrow> db" where
  "without_rows ids s =
     s\<lparr>db_rows := filter (\<lambda>r. row_id r \<notin> ids) (db_rows s), db_indexes := without_indexes ids s\<rparr>"

lemma without_rows_ids [simp]: "db_ids (without_rows ids s) = db_ids s - ids"
  by (auto simp: without_rows_def db_ids_def)

lemma without_rows_row [simp]: "r \<in> set (db_rows (without_rows ids s)) \<longleftrightarrow> r \<in> set (db_rows s) \<and> row_id r \<notin> ids"
  by (auto simp: without_rows_def)

lemma without_rows_wf:
  assumes "db_wf cf sha s"
  shows "db_wf cf sha (without_rows ids s)"
proof -
  have "set (without_indexes ids s) = (\<Union>r \<in> {r \<in> set (db_rows s). row_id r \<notin> ids}. index_of cf (row_id r) (row_data r))"
    using assms index_of_doc unfolding without_indexes_def db_wf_def index_exact_def by fastforce
  then show ?thesis
    using assms by (auto simp: without_rows_def db_wf_def index_exact_def without_indexes_def distinct_map_filter)
qed

lemma without_rows_moves:
  assumes wf: "db_wf cf sha s"
    and "\<And>r. r \<in> set (db_rows s) \<Longrightarrow> row_id r \<in> ids \<Longrightarrow> insert_claim (row_data r) \<Longrightarrow> expired_by cf (e_now e) (row_data r)"
  shows "db_moves cf sha q e s (without_rows ids s)"
  unfolding db_moves_def
proof (intro conjI ballI impI)
  show "db_wf cf sha (without_rows ids s)" by (rule without_rows_wf [OF wf])
next
  fix r r' assume "r \<in> set (db_rows s)" "r' \<in> set (db_rows (without_rows ids s))" "row_id r' = row_id r"
  then have "r' = r" using db_wf_same [OF wf] by simp
  then show "row_moves sha q r r'" by simp
next
  fix r assume "r \<in> set (db_rows s)" "row_id r \<notin> db_ids (without_rows ids s)" "insert_claim (row_data r)"
  then show "expired_by cf (e_now e) (row_data r)" using assms(2) by (simp add: db_idsI)
qed (simp_all add: db_idsI)

text \<open>Overwriting one row together with its entries.\<close>

definition with_row :: "(row \<Rightarrow> row) \<Rightarrow> string \<Rightarrow> index_row list \<Rightarrow> db \<Rightarrow> db" where
  "with_row f did ixs s =
     s\<lparr>db_rows := map (\<lambda>r. if row_id r = did then f r else r) (db_rows s), db_indexes := ixs\<rparr>"

lemma with_row_ids:
  assumes "\<And>r. row_id (f r) = row_id r"
  shows "map row_id (db_rows (with_row f did ixs s)) = map row_id (db_rows s)"
  using assms by (simp add: with_row_def)

lemma with_row_rows:
  assumes wf: "db_wf cf sha s" and r: "r \<in> set (db_rows s)" "row_id r = did"
  shows "set (db_rows (with_row f did ixs s)) = insert (f r) (set (db_rows s) - {r})"
proof -
  let ?f = "\<lambda>r. if row_id r = did then f r else r"
  have same: "?f a = a" if "a \<in> set (db_rows s) - {r}" for a
    using db_wf_same [OF wf r(1)] that r(2) by auto
  have keep: "?f ` (set (db_rows s) - {r}) = set (db_rows s) - {r}"
    by (rule trans [OF image_cong [OF refl] image_ident]) (rule same)
  have "set (db_rows s) = insert r (set (db_rows s) - {r})" using r(1) by blast
  then have "?f ` set (db_rows s) = ?f ` insert r (set (db_rows s) - {r})"
    by (rule arg_cong)
  also have "\<dots> = insert (?f r) (?f ` (set (db_rows s) - {r}))" by (rule image_insert)
  also have "\<dots> = insert (f r) (set (db_rows s) - {r})" unfolding keep using r(2) by simp
  finally have "?f ` set (db_rows s) = insert (f r) (set (db_rows s) - {r})" .
  moreover have "set (db_rows (with_row f did ixs s)) = ?f ` set (db_rows s)"
    by (simp add: with_row_def)
  ultimately show ?thesis by (rule trans [rotated])
qed

lemma with_row_wf:
  assumes wf: "db_wf cf sha s" and r: "r \<in> set (db_rows s)" "row_id r = did"
    and f: "\<And>r. row_id (f r) = row_id r" "row_wf sha (f r)"
    and ixs: "distinct ixs" "set ixs = set (without_indexes {did} s) \<union> index_of cf did (row_data (f r))"
  shows "db_wf cf sha (with_row f did ixs s)"
proof -
  note rows = with_row_rows [OF wf r, of f ixs]
  have one: "a = r" if "a \<in> set (db_rows s)" "row_id a = did" for a
    using db_wf_same [OF wf r(1) that(1)] that r by simp
  have "set (db_indexes s) = (\<Union>a \<in> set (db_rows s). index_of cf (row_id a) (row_data a))"
    using wf by (simp add: db_wf_def index_exact_def)
  then have "set (without_indexes {did} s) = (\<Union>a \<in> set (db_rows s) - {r}. index_of cf (row_id a) (row_data a))"
    unfolding without_indexes_def using one r(2) by (auto dest: index_of_doc)
  then have "set ixs = (\<Union>a \<in> insert (f r) (set (db_rows s) - {r}). index_of cf (row_id a) (row_data a))"
    using ixs(2) f(1) r(2) by auto
  moreover have "\<forall>a \<in> insert (f r) (set (db_rows s) - {r}). row_wf sha a"
    using f(2) db_wf_row [OF wf] by blast
  moreover have "distinct (map row_id (db_rows (with_row f did ixs s)))"
    unfolding with_row_ids [OF f(1)] using wf by (simp add: db_wf_def)
  moreover have "db_indexes (with_row f did ixs s) = ixs" by (simp add: with_row_def)
  ultimately show ?thesis
    unfolding db_wf_def index_exact_def rows using ixs(1) by simp
qed

lemma with_row_moves:
  assumes wf: "db_wf cf sha s" and r: "r \<in> set (db_rows s)" "row_id r = did"
    and f: "\<And>r. row_id (f r) = row_id r" "row_wf sha (f r)" and mv: "row_moves sha q r (f r)"
    and ixs: "distinct ixs" "set ixs = set (without_indexes {did} s) \<union> index_of cf did (row_data (f r))"
  shows "db_moves cf sha q e s (with_row f did ixs s)"
proof -
  let ?s = "with_row f did ixs s"
  have wf': "db_wf cf sha ?s" by (rule with_row_wf [OF wf r f ixs])
  have ids: "db_ids ?s = db_ids s"
    unfolding db_ids_def using with_row_ids [OF f(1)] by (metis set_map)
  have "row_moves sha q a b" if a: "a \<in> set (db_rows s)" "b \<in> set (db_rows ?s)" "row_id b = row_id a" for a b
  proof (cases "b = f r")
    case True
    then have "a = r" using db_wf_same [OF wf r(1) a(1)] a(3) f(1) by simp
    then show ?thesis using mv True by simp
  next
    case False
    then have "b \<in> set (db_rows s)" using a(2) with_row_rows [OF wf r] by blast
    then have "b = a" using db_wf_same [OF wf a(1)] a(3) by blast
    then show ?thesis by simp
  qed
  moreover have "row_id b \<in> db_ids s" if "b \<in> set (db_rows ?s)" for b
    using db_idsI [OF that] ids by simp
  ultimately show ?thesis
    unfolding db_moves_def ids using wf' db_idsI by blast
qed

text \<open>Inserting a row.\<close>

lemma insert_stmt_moves:
  assumes wf: "db_wf cf sha s" and i: "insert_stmt cf now did d s = Inr s'" and fits: "id_fits sha did d"
    and ok: "\<not> spent d" "\<forall>x. d = DeviceAuthRequest x \<longrightarrow> da_status x = DPending"
    and new: "did = e_uuid e \<or> did \<in> range sha"
  shows "db_moves cf sha q e s s'" and "did \<notin> db_ids s"
    and "\<exists>r \<in> set (db_rows s'). row_id r = did \<and> row_data r = d" and "db_ids s \<subseteq> db_ids s'"
proof -
  from i have nid: "did \<notin> db_ids s" by (auto simp: insert_stmt_def db_ids_def split: if_splits)
  let ?r = "\<lparr>row_id = did, row_type = doc_type d, row_data = d, row_expires = doc_expires d,
    row_created = now, row_updated = now, row_version = 1, row_last_used = None\<rparr>"
  from i obtain ixs where ixs: "insert_indexes cf did (index_entries d) (db_indexes s) = Inr ixs"
    and s': "s' = s\<lparr>db_rows := db_rows s @ [?r], db_indexes := ixs\<rparr>"
    by (auto simp: insert_stmt_def split: if_splits sum.splits)
  have x: "index_exact cf s" using wf by (simp add: db_wf_def)
  have "distinct ixs" "set ixs = set (db_indexes s) \<union> index_of cf did d"
    using insert_indexes_spec [OF ixs] x by (simp_all add: index_exact_def index_of_def)
  then have "index_exact cf s'" using x unfolding index_exact_def s' by auto
  moreover have "distinct (map row_id (db_rows s'))" using wf nid by (auto simp: s' db_wf_def db_ids_def)
  moreover have "row_wf sha ?r" using fits by (simp add: row_wf_def)
  ultimately have wf': "db_wf cf sha s'" using wf by (auto simp: s' db_wf_def)
  have rows: "r' = ?r \<or> r' \<in> set (db_rows s)" if "r' \<in> set (db_rows s')" for r'
    using that by (auto simp: s')
  show "\<exists>r \<in> set (db_rows s'). row_id r = did \<and> row_data r = d" by (simp add: s')
  show sub: "db_ids s \<subseteq> db_ids s'" by (auto simp: s' db_ids_def)
  show "did \<notin> db_ids s" by (rule nid)
  show "db_moves cf sha q e s s'"
    unfolding db_moves_def
  proof (intro conjI ballI impI)
    show "db_wf cf sha s'" by (rule wf')
  next
    fix r' assume r': "r' \<in> set (db_rows s')" "row_id r' \<notin> db_ids s"
    then have "r' = ?r" using rows db_idsI by blast
    then show "new_row_ok r'" "row_id r' = e_uuid e \<or> row_id r' \<in> range sha"
      using ok new by (auto simp: new_row_ok_def)
  next
    fix r r' assume r: "r \<in> set (db_rows s)" "r' \<in> set (db_rows s')" "row_id r' = row_id r"
    then have "r' \<in> set (db_rows s)" using rows [OF r(2)] nid db_idsI [OF r(1)] by auto
    then have "r' = r" using db_wf_same [OF wf r(1)] r(3) by blast
    then show "row_moves sha q r r'" by simp
  next
    fix r assume "r \<in> set (db_rows s)" "row_id r \<notin> db_ids s'"
    then show "expired_by cf (e_now e) (row_data r)" using sub db_idsI by blast
  qed
qed

text \<open>The guarded update.\<close>

lemma cas_stmt_won:
  assumes wf: "db_wf cf sha s" and c: "cas_stmt cf now did v d s = Inr (True, s')"
  obtains r ixs where "r \<in> set (db_rows s)" "row_id r = did" "row_version r = v"
    "s' = with_row (write_row now (sat_i32 (v + 1)) d) did ixs s"
    "distinct ixs" "set ixs = set (without_indexes {did} s) \<union> index_of cf did d"
proof -
  from c obtain r where r: "r \<in> set (db_rows s)" "row_id r = did" "row_version r = v"
    by (auto simp: cas_stmt_def list_ex_iff split: if_splits)
  from c obtain ixs where ixs: "insert_indexes cf did (index_entries d) (without_indexes {did} s) = Inr ixs"
    and s': "s' = s\<lparr>db_rows := map (\<lambda>r. if row_id r = did \<and> row_version r = v
                                   then write_row now (sat_i32 (v + 1)) d r else r) (db_rows s),
               db_indexes := ixs\<rparr>"
    by (auto simp: cas_stmt_def split: if_splits sum.splits)
  have "(row_id a = did \<and> row_version a = v) = (row_id a = did)" if "a \<in> set (db_rows s)" for a
    using db_wf_same [OF wf r(1) that] r(2,3) by auto
  then have "s' = with_row (write_row now (sat_i32 (v + 1)) d) did ixs s"
    by (simp add: s' with_row_def cong: map_cong)
  moreover have "distinct (without_indexes {did} s)"
    using wf by (simp add: without_indexes_def db_wf_def index_exact_def)
  from insert_indexes_spec [OF ixs this]
  have "distinct ixs" "set ixs = set (without_indexes {did} s) \<union> index_of cf did d"
    by (simp_all add: index_of_def)
  ultimately show thesis using that r by blast
qed

lemma cas_stmt_lost: "cas_stmt cf now did v d s = Inr (False, s') \<Longrightarrow> s' = s"
  by (auto simp: cas_stmt_def split: if_splits sum.splits)

lemma sat_i32_next: "0 < v \<Longrightarrow> v < 2 ^ 31 - 1 \<Longrightarrow> sat_i32 (v + 1) = v + 1"
  by (simp add: sat_i32_def)

lemma with_row_id:
  assumes "\<And>r. row_id (f r) = row_id r"
  shows "db_ids (with_row f did ixs s) = db_ids s"
  unfolding db_ids_def using with_row_ids [OF assms] by (metis set_map)

lemma write_row_simps [simp]:
  "row_id (write_row now v d r) = row_id r" "row_data (write_row now v d r) = d"
  "row_version (write_row now v d r) = v" "row_expires (write_row now v d r) = doc_expires d"
  "row_type (write_row now v d r) = row_type r"
  by (simp_all add: write_row_def)

lemma cas_stmt_moves:
  assumes wf: "db_wf cf sha s" and c: "cas_stmt cf now did v d s = Inr (True, s')"
    and ver: "\<forall>r \<in> set (db_rows s). row_id r = did \<longrightarrow> row_version r = v \<longrightarrow> v < 2 ^ 31 - 1"
    and legal: "\<And>r. r \<in> set (db_rows s) \<Longrightarrow> row_id r = did \<Longrightarrow> row_version r = v \<Longrightarrow>
      d = row_data r \<or> legal_write q did (row_data r) d"
  shows "db_moves cf sha q e s s'" and "db_ids s' = db_ids s"
    and "\<exists>r \<in> set (db_rows s). row_id r = did \<and> row_version r = v
           \<and> (\<exists>r' \<in> set (db_rows s'). row_id r' = did \<and> row_data r' = d \<and> row_version r' = v + 1)"
proof -
  from cas_stmt_won [OF wf c] obtain r ixs where r: "r \<in> set (db_rows s)" "row_id r = did" "row_version r = v"
    and s': "s' = with_row (write_row now (sat_i32 (v + 1)) d) did ixs s"
    and ixs: "distinct ixs" "set ixs = set (without_indexes {did} s) \<union> index_of cf did d" .
  let ?f = "write_row now (sat_i32 (v + 1)) d"
  have rw: "row_wf sha r" using db_wf_row [OF wf r(1)] .
  have v: "sat_i32 (v + 1) = v + 1" using rw ver r by (intro sat_i32_next) (auto simp: row_wf_def)
  have l: "d = row_data r \<or> legal_write q did (row_data r) d" using legal r by blast
  then have "doc_type d = doc_type (row_data r)" "id_fits sha did d = id_fits sha did (row_data r)"
    by (auto dest: legal_write_identity identity_type legal_write_fits)
  then have rw': "row_wf sha (?f r)" using rw v r by (auto simp: row_wf_def)
  have mv: "row_moves sha q r (?f r)" using l v r by (auto simp: row_moves_def)
  show "db_moves cf sha q e s s'"
    unfolding s' by (rule with_row_moves [where f = ?f, OF wf r(1,2) _ rw' mv ixs(1)]) (use ixs(2) in simp_all)
  show "db_ids s' = db_ids s" unfolding s' by (rule with_row_id) simp
  have "?f r \<in> set (db_rows s')" unfolding s' with_row_rows [OF wf r(1,2)] by simp
  then show "\<exists>r \<in> set (db_rows s). row_id r = did \<and> row_version r = v
           \<and> (\<exists>r' \<in> set (db_rows s'). row_id r' = did \<and> row_data r' = d \<and> row_version r' = v + 1)"
    using r v by (intro bexI [of _ r] conjI bexI [of _ "?f r"]) auto
qed

text \<open>Rows that stay keep their keys.\<close>

lemma row_moves_key:
  assumes "row_moves sha q r r'" and "row_data r = Authenticator d"
  shows "\<exists>d'. row_data r' = Authenticator d' \<and> au_user_id d' = au_user_id d"
  using assms by (auto simp: row_moves_def legal_write_def)

lemma keys_kept_if_present:
  assumes m: "db_moves cf sha q e s s'"
    and stay: "\<And>r d. r \<in> set (db_rows s) \<Longrightarrow> row_data r = Authenticator d \<Longrightarrow> row_id r \<in> db_ids s'"
  shows "keys_kept s s'"
proof -
  have "user_keys u s \<subseteq> user_keys u s'" for u
  proof
    fix x assume "x \<in> user_keys u s"
    then obtain r d where r: "r \<in> set (db_rows s)" "row_id r = x" "row_data r = Authenticator d" "au_user_id d = u"
      by (auto simp: user_keys_def)
    then obtain r' where r': "r' \<in> set (db_rows s')" "row_id r' = row_id r" using stay db_idsD by blast
    from row_moves_key [OF db_moves_row [OF m r(1) r'] r(3)] r r'
    show "x \<in> user_keys u s'" by (auto simp: user_keys_def)
  qed
  then show ?thesis by (simp add: keys_kept_def)
qed

lemma row_moves_trans:
  assumes "row_moves sha q r r'" and "row_moves sha q r' r''" and "row_id r' = row_id r"
  shows "row_moves sha q r r''"
  using assms by (auto simp: row_moves_def intro: legal_write_trans)

lemma db_moves_trans:
  assumes a: "db_moves cf sha q e s s'" "db_ids s' \<subseteq> db_ids s" and b: "db_moves cf sha q e s' s''" "db_ids s'' \<subseteq> db_ids s'"
  shows "db_moves cf sha q e s s''"
  unfolding db_moves_def
proof (intro conjI ballI impI)
  show "db_wf cf sha s''" using b by (simp add: db_moves_def)
next
  fix r'' assume "r'' \<in> set (db_rows s'')" "row_id r'' \<notin> db_ids s"
  then have False using a(2) b(2) db_idsI by blast
  then show "new_row_ok r''" "row_id r'' = e_uuid e \<or> row_id r'' \<in> range sha" by simp_all
next
  fix r r'' assume r: "r \<in> set (db_rows s)" "r'' \<in> set (db_rows s'')" "row_id r'' = row_id r"
  have "row_id r'' \<in> db_ids s'" using b(2) db_idsI [OF r(2)] by blast
  then obtain r' where r': "r' \<in> set (db_rows s')" "row_id r' = row_id r''" using db_idsD by blast
  have i: "row_id r' = row_id r" using r'(2) r(3) by simp
  show "row_moves sha q r r''"
    by (rule row_moves_trans [OF db_moves_row [OF a(1) r(1) r'(1) i] db_moves_row [OF b(1) r'(1) r(2)] i])
      (use r'(2) in simp)
next
  fix r assume r: "r \<in> set (db_rows s)" "row_id r \<notin> db_ids s''" and ic: "insert_claim (row_data r)"
  show "expired_by cf (e_now e) (row_data r)"
  proof (cases "row_id r \<in> db_ids s'")
    case False
    then show ?thesis using a(1) r ic by (simp add: db_moves_def)
  next
    case True
    then obtain r' where r': "r' \<in> set (db_rows s')" "row_id r' = row_id r" using db_idsD by blast
    then have "row_data r' = row_data r"
      using db_moves_row [OF a(1) r(1) r'] ic legal_write_claim by (auto simp: row_moves_def)
    then show ?thesis using b(1) r r' ic by (auto simp: db_moves_def)
  qed
qed

text \<open>The other statements in terms of the two forms.\<close>

lemma delete_stmt_state: "snd (delete_stmt did s) = without_rows {did} s"
  by (simp add: delete_stmt_def without_rows_def)

lemma delete_if_not_expired_state:
  assumes wf: "db_wf cf sha s" and d: "delete_if_not_expired_stmt cf did now s = (won, s')"
  shows "won \<Longrightarrow> s' = without_rows {did} s" and "won \<Longrightarrow> \<exists>r \<in> set (db_rows s). row_id r = did \<and> expires_after cf now r"
    and "\<not> won \<Longrightarrow> s' = s"
proof -
  show "\<not> won \<Longrightarrow> s' = s" using d by (auto simp: delete_if_not_expired_stmt_def split: if_splits)
  assume won
  then obtain r where r: "r \<in> set (db_rows s)" "row_id r = did" "expires_after cf now r"
    and s': "s' = s\<lparr>db_rows := filter (\<lambda>r. \<not> (row_id r = did \<and> expires_after cf now r)) (db_rows s),
                    db_indexes := without_indexes {did} s\<rparr>"
    using d by (auto simp: delete_if_not_expired_stmt_def list_ex_iff split: if_splits)
  then show "\<exists>r \<in> set (db_rows s). row_id r = did \<and> expires_after cf now r" by blast
  have "(row_id a = did \<and> expires_after cf now a) = (row_id a = did)" if "a \<in> set (db_rows s)" for a
    using db_wf_same [OF wf r(1) that] r by auto
  then show "s' = without_rows {did} s"
    by (simp add: s' without_rows_def cong: filter_cong)
qed

lemma sweep_state:
  assumes wf: "db_wf cf sha s"
  shows "snd (sweep_stmt cf now ids s) =
    without_rows {x. x \<in> set ids \<and> (\<exists>r \<in> set (db_rows s). row_id r = x \<and> expires_before cf now r)} s"
proof -
  let ?gone = "{x. x \<in> set ids \<and> (\<exists>r \<in> set (db_rows s). row_id r = x \<and> expires_before cf now r)}"
  let ?rows = "filter (\<lambda>r. \<not> (row_id r \<in> set ids \<and> expires_before cf now r)) (db_rows s)"
  have p: "(\<not> (row_id a \<in> set ids \<and> expires_before cf now a)) = (row_id a \<notin> ?gone)" if "a \<in> set (db_rows s)" for a
    using db_wf_same [OF wf that] that by blast
  have rows: "?rows = filter (\<lambda>r. row_id r \<notin> ?gone) (db_rows s)"
    by (rule filter_cong [OF refl]) (rule p)
  have "(ix_doc ix \<notin> {x \<in> set ids. x \<notin> row_id ` set ?rows}) = (ix_doc ix \<notin> ?gone)" if ix: "ix \<in> set (db_indexes s)" for ix
  proof -
    obtain r where r: "r \<in> set (db_rows s)" "ix_doc ix = row_id r"
      using wf ix unfolding db_wf_def index_exact_def by (auto dest: index_of_doc)
    have "(row_id r \<in> row_id ` set ?rows) = (row_id r \<notin> ?gone)"
      unfolding rows using r(1) by auto
    moreover have "row_id r \<in> ?gone \<Longrightarrow> row_id r \<in> set ids" by blast
    ultimately show ?thesis unfolding r(2) by blast
  qed
  then have "without_indexes {x \<in> set ids. x \<notin> row_id ` set ?rows} s = without_indexes ?gone s"
    unfolding without_indexes_def by (rule filter_cong [OF refl])
  with rows show ?thesis
    by (simp only: sweep_stmt_def Let_def snd_conv without_rows_def)
qed

lemma sweep_moves:
  assumes wf: "db_wf cf sha s" and now: "read_by now (e_now e)"
  shows "db_moves cf sha q e s (snd (sweep_stmt cf now ids s))"
  unfolding sweep_state [OF wf]
proof (rule without_rows_moves [OF wf])
  fix r
  assume r: "r \<in> set (db_rows s)"
    and "row_id r \<in> {x. x \<in> set ids \<and> (\<exists>r \<in> set (db_rows s). row_id r = x \<and> expires_before cf now r)}"
  then have x: "expires_before cf now r" using db_wf_same [OF wf r] by blast
  have "row_expires r = doc_expires (row_data r)" using db_wf_row [OF wf r] by (simp add: row_wf_def)
  then show "expired_by cf (e_now e) (row_data r)"
    using x now by (auto simp: expires_before_def expired_by_def split: option.splits)
qed

lemma sweep_keys:
  assumes wf: "db_wf cf sha s" and now: "read_by now (e_now (e :: db_env))"
  shows "keys_kept s (snd (sweep_stmt cf now ids s))"
proof (rule keys_kept_if_present [OF sweep_moves [OF wf now]])
  fix r d assume r: "r \<in> set (db_rows s)" "row_data r = Authenticator d"
  then have "\<not> expires_before cf now r"
    using db_wf_row [OF wf r(1)] by (simp add: row_wf_def expires_before_def)
  then show "row_id r \<in> db_ids (snd (sweep_stmt cf now ids s))"
    unfolding sweep_state [OF wf] using r(1) db_wf_same [OF wf r(1)] db_idsI by auto
qed

lemma index_split:
  assumes wf: "db_wf cf sha s" and r: "r \<in> set (db_rows s)"
  shows "set (db_indexes s) = set (without_indexes {row_id r} s) \<union> index_of cf (row_id r) (row_data r)"
proof -
  have x: "set (db_indexes s) = (\<Union>r \<in> set (db_rows s). index_of cf (row_id r) (row_data r))"
    using wf by (simp add: db_wf_def index_exact_def)
  have "ix \<in> index_of cf (row_id r) (row_data r)" if ix: "ix \<in> set (db_indexes s)" "ix_doc ix = row_id r" for ix
  proof -
    obtain a where a: "a \<in> set (db_rows s)" "ix \<in> index_of cf (row_id a) (row_data a)"
      using ix(1) unfolding x by blast
    have "row_id a = row_id r" using index_of_doc [OF a(2)] ix(2) by simp
    then have "a = r" by (rule db_wf_same [OF wf r a(1)])
    then show ?thesis using a(2) by simp
  qed
  then have "set (db_indexes s) \<subseteq> set (without_indexes {row_id r} s) \<union> index_of cf (row_id r) (row_data r)"
    by (auto simp: without_indexes_def)
  moreover have "index_of cf (row_id r) (row_data r) \<subseteq> set (db_indexes s)" unfolding x using r by blast
  moreover have "set (without_indexes {row_id r} s) \<subseteq> set (db_indexes s)" by (simp add: without_indexes_def)
  ultimately show ?thesis by (intro equalityI Un_least)
qed

lemma touch_moves:
  assumes wf: "db_wf cf sha s"
    and s': "s' = s\<lparr>db_rows := map (\<lambda>r. if row_id r = did then r\<lparr>row_last_used := t\<rparr> else r) (db_rows s)\<rparr>"
  shows "db_moves cf sha q e s s'" and "db_ids s' = db_ids s"
proof -
  let ?f = "\<lambda>r. r\<lparr>row_last_used := t\<rparr>"
  have w: "s' = with_row ?f did (db_indexes s) s" by (simp add: s' with_row_def)
  show "db_ids s' = db_ids s" unfolding w by (rule with_row_id) simp
  show "db_moves cf sha q e s s'"
  proof (cases "did \<in> db_ids s")
    case True
    then obtain r where r: "r \<in> set (db_rows s)" "row_id r = did" using db_idsD by blast
    show ?thesis
      unfolding w
    proof (rule with_row_moves [where f = ?f, OF wf r])
      show "row_wf sha (?f r)" using db_wf_row [OF wf r(1)] by (simp add: row_wf_def)
      show "row_moves sha q r (?f r)" by (simp add: row_moves_def)
      show "distinct (db_indexes s)" using wf by (simp add: db_wf_def index_exact_def)
      show "set (db_indexes s) = set (without_indexes {did} s) \<union> index_of cf did (row_data (?f r))"
        using index_split [OF wf r(1)] r(2) by simp
    qed simp
  next
    case False
    then have "(if row_id r = did then ?f r else r) = r" if "r \<in> set (db_rows s)" for r
      using that db_idsI by auto
    then have "s' = s" unfolding s' by (simp cong: map_cong)
    then show ?thesis using db_moves_refl [OF wf] by simp
  qed
qed

section \<open>Reads\<close>

text \<open>A document is found under a field by a text that its own entry matches.\<close>

definition matches :: "store_cfg \<Rightarrow> string \<Rightarrow> string \<Rightarrow> document \<Rightarrow> bool" where
  "matches cf field v d \<longleftrightarrow>
     (\<exists>w. (field, w) \<in> set (index_entries d) \<and> index_value_condition cf v (sc_hmac cf w))"

lemma select_index_row:
  assumes wf: "db_wf cf sha s" and r: "r \<in> set (select_index cf ty field v s)"
  shows "r \<in> set (db_rows s)" and "row_type r = ty" and "matches cf field v (row_data r)"
proof -
  from r obtain ix where rs: "r \<in> set (db_rows s)" "row_type r = ty" and ix: "ix \<in> set (db_indexes s)" "ix_doc ix = row_id r"
    "ix_field ix = field" "index_value_condition cf v (ix_value ix)"
    by (auto simp: select_index_def)
  show "r \<in> set (db_rows s)" "row_type r = ty" by (rule rs)+
  obtain r' where r': "r' \<in> set (db_rows s)" "ix \<in> index_of cf (row_id r') (row_data r')"
    using wf ix(1) unfolding db_wf_def index_exact_def by blast
  then have "r' = r" using index_of_doc [OF r'(2)] ix(2) db_wf_same [OF wf rs(1)] by simp
  then show "matches cf field v (row_data r)"
    using r'(2) ix(3,4) by (auto simp: matches_def index_of_def)
qed

lemma newest_mem: "newest cf k rs = Some r \<Longrightarrow> r \<in> set rs"
proof -
  define top where "top = filter (\<lambda>r. list_all (\<lambda>r'. sc_text cf (row_created r') \<le> sc_text cf (row_created r)) rs) rs"
  assume "newest cf k rs = Some r"
  then have "top \<noteq> []" "r = top ! (k mod length top)"
    unfolding newest_def Let_def top_def [symmetric] by (auto split: if_splits)
  then have "r \<in> set top" by simp
  then show "r \<in> set rs" by (simp add: top_def)
qed

lemma select_id_row: "select_id ty did s = Some r \<Longrightarrow> r \<in> set (db_rows s) \<and> row_id r = did \<and> row_type r = ty"
  by (auto simp: select_id_def find_Some_iff)

text \<open>What is known of a document after it has been read, whatever happens meanwhile.\<close>

definition seen :: "(string \<Rightarrow> string) \<Rightarrow> 'd doctype \<Rightarrow> 'd stored \<Rightarrow> db \<Rightarrow> ghost \<Rightarrow> bool" where
  "seen sha T doc s g \<longleftrightarrow>
     st_id doc \<in> g_ids g \<and> st_id doc \<notin> range sha
     \<and> (\<forall>r \<in> set (db_rows s). row_id r = st_id doc \<longrightarrow>
          st_version doc \<le> row_version r
          \<and> identity (row_data r) = identity (dt_inj T (st_data doc))
          \<and> (row_version r = st_version doc \<longrightarrow> row_data r = dt_inj T (st_data doc)))"

definition db_stable :: "store_cfg \<Rightarrow> (string \<Rightarrow> string) \<Rightarrow> (db \<Rightarrow> ghost \<Rightarrow> bool) \<Rightarrow> bool" where
  "db_stable cf sha A \<longleftrightarrow>
     (\<forall>s g s' g'. db_inv cf sha s g \<longrightarrow> A s g \<longrightarrow> db_rely sha s g s' g' \<longrightarrow> db_inv cf sha s' g' \<longrightarrow> A s' g')"

lemma stableI:
  "(\<And>s g s' g'. db_inv cf sha s g \<Longrightarrow> A s g \<Longrightarrow> db_rely sha s g s' g' \<Longrightarrow> db_inv cf sha s' g' \<Longrightarrow> A s' g') \<Longrightarrow> db_stable cf sha A"
  by (auto simp: db_stable_def)

lemma stableD:
  "db_stable cf sha A \<Longrightarrow> db_inv cf sha s g \<Longrightarrow> A s g \<Longrightarrow> db_rely sha s g s' g' \<Longrightarrow> db_inv cf sha s' g' \<Longrightarrow> A s' g'"
  unfolding db_stable_def by blast

lemma stable_const [simp, intro]: "db_stable cf sha (\<lambda>s g. P)"
  by (simp add: db_stable_def)

lemma stable_conj [intro]: "db_stable cf sha A \<Longrightarrow> db_stable cf sha B \<Longrightarrow> db_stable cf sha (\<lambda>s g. A s g \<and> B s g)"
  unfolding db_stable_def by blast

lemma stable_imp [intro]: "db_stable cf sha B \<Longrightarrow> db_stable cf sha (\<lambda>s g. P \<longrightarrow> B s g)"
  unfolding db_stable_def by blast

lemma stable_ex [intro]: "(\<And>x. db_stable cf sha (A x)) \<Longrightarrow> db_stable cf sha (\<lambda>s g. \<exists>x. A x s g)"
  unfolding db_stable_def by blast

lemma db_stable_seen [intro]: "db_stable cf sha (seen sha T doc)"
proof (rule stableI)
  fix s g s' g'
  assume sn: "seen sha T doc s g" and rl: "db_rely sha s g s' g'"
  have id: "st_id doc \<in> g_ids g" "st_id doc \<notin> range sha" using sn by (auto simp: seen_def)
  show "seen sha T doc s' g'"
    unfolding seen_def
  proof (intro conjI ballI impI)
    show "st_id doc \<in> g_ids g'" using id db_rely_ghost(1) [OF rl] by blast
    show "st_id doc \<notin> range sha" by (rule id(2))
    fix r' assume r': "r' \<in> set (db_rows s')" "row_id r' = st_id doc"
    obtain r where r: "r \<in> set (db_rows s)" "row_id r = row_id r'"
      using db_rely_present [OF rl r'(1)] id r'(2) by auto
    note k = db_rely_row [OF rl r(1) r'(1) r(2) [symmetric]]
    have old: "st_version doc \<le> row_version r" "identity (row_data r) = identity (dt_inj T (st_data doc))"
      "row_version r = st_version doc \<Longrightarrow> row_data r = dt_inj T (st_data doc)"
      using sn r r' by (auto simp: seen_def)
    show "st_version doc \<le> row_version r'" using k(2) old(1) id r r' by simp
    show "identity (row_data r') = identity (dt_inj T (st_data doc))" using k(1) old(2) id r r' by simp
    show "row_data r' = dt_inj T (st_data doc)" if "row_version r' = st_version doc"
      using k(2,3) old(1,3) id r r' that by simp
  qed
qed

text \<open>Facts about the record of a run stay.\<close>

lemma stable_retired [intro]: "db_stable cf sha (\<lambda>s g. \<exists>ev \<in> set (g_retired g). Q ev)"
  by (rule stableI) (drule db_rely_ghost(4), blast)

lemma stable_issued [intro]: "db_stable cf sha (\<lambda>s g. \<exists>ev \<in> set (g_issued g). Q ev)"
  by (rule stableI) (drule db_rely_ghost(3), blast)

lemma stable_written [intro]: "db_stable cf sha (\<lambda>s g. \<exists>ev \<in> set (g_written g). Q ev)"
  by (rule stableI) (drule db_rely_ghost(5), blast)

lemma stable_time [intro]: "db_stable cf sha (\<lambda>s g. t \<le> g_time g)"
  by (rule stableI) (drule db_rely_ghost(2), simp)

section \<open>Programs\<close>

text \<open>A program of the store keeps its contract as task \<open>i\<close> serving the request \<open>q\<close>.\<close>

abbreviation keeps_db ::
    "store_cfg \<Rightarrow> (string \<Rightarrow> string) \<Rightarrow> nat \<Rightarrow> request \<Rightarrow> ('r \<Rightarrow> db \<Rightarrow> ghost \<Rightarrow> bool) \<Rightarrow> 'r dbp \<Rightarrow> db \<Rightarrow> ghost \<Rightarrow> bool" where
  "keeps_db cf sha i q \<equiv> keeps (db_env_ok cf sha) (observe i q) (db_inv cf sha) (db_rely sha)"

definition ok_post :: "('a \<Rightarrow> db \<Rightarrow> ghost \<Rightarrow> bool) \<Rightarrow> 'er + 'a \<Rightarrow> db \<Rightarrow> ghost \<Rightarrow> bool" where
  "ok_post Q r s g = (case r of Inl _ \<Rightarrow> True | Inr a \<Rightarrow> Q a s g)"

lemma ok_post_simps [simp]: "ok_post Q (Inl er) = (\<lambda>s g. True)" "ok_post Q (Inr a) = Q a"
  by (simp_all add: ok_post_def fun_eq_iff)

lemma inv_wf: "db_inv cf sha s g \<Longrightarrow> db_wf cf sha s"
  by (simp add: db_inv_def)

lemma inv_refl: "db_inv cf sha s g \<Longrightarrow> db_rely sha s g s g"
  by (rule db_rely_refl) (rule inv_wf)

lemma keeps_db_ret: "(\<And>s' g'. db_rely sha s g s' g' \<Longrightarrow> db_inv cf sha s' g' \<Longrightarrow> P r s' g') \<Longrightarrow> keeps_db cf sha i q P (Ret r) s g"
  by (rule keeps.ret)

lemma keeps_ret:
  assumes "db_inv cf sha s g" and "P r s g" and "db_stable cf sha (P r)"
  shows "keeps_db cf sha i q P (Ret r) s g"
  by (rule keeps_db_ret) (use assms stableD in blast)

lemma keeps_ret_True [intro]: "(\<And>s g. P r s g) \<Longrightarrow> keeps_db cf sha i q P (Ret r) s g"
  by (rule keeps_db_ret) simp

lemma keeps_ret_ok:
  assumes "db_inv cf sha s g" and "Q a s g" and "db_stable cf sha (Q a)"
  shows "keeps_db cf sha i q (ok_post Q) (Ret (Inr a)) s g"
  by (rule keeps_ret) (use assms in simp_all)

lemma keeps_ret_er [simp, intro]: "keeps_db cf sha i q (ok_post Q) (Ret (Inl er)) s g"
  by (rule keeps_ret_True) simp

lemma keeps_weaken:
  assumes "keeps_db cf sha i q P p s g" and "\<And>r s g. P r s g \<Longrightarrow> db_inv cf sha s g \<Longrightarrow> Q r s g"
  shows "keeps_db cf sha i q Q p s g"
  using assms(1)
proof (induction rule: keeps.induct)
  case (ret s g r)
  then show ?case using assms(2) by (blast intro: keeps.ret)
next
  case (act s g f)
  then show ?case by (blast intro: keeps.act)
qed

lemma keeps_carry:
  assumes "keeps_db cf sha i q P p s g" and "db_inv cf sha s g" and "A s g" and "db_stable cf sha A"
  shows "keeps_db cf sha i q (\<lambda>r s g. P r s g \<and> A s g) p s g"
  using assms(1-3)
proof (induction rule: keeps.induct)
  case (ret s g r)
  then show ?case using stableD [OF assms(4)] by (blast intro: keeps.ret)
next
  case (act s g f)
  show ?case
  proof (rule keeps.act)
    fix e s' g' p s''
    assume r: "db_rely sha s g s' g'" "db_inv cf sha s' g'" "db_env_ok cf sha e s' g'" "f e s' = (p, s'')"
    note h = act.IH [OF r]
    have "A s' g'" using stableD [OF assms(4) act.prems(1,2) r(1,2)] .
    then have "A s'' (observe i q e s' s'' g')" using stableD [OF assms(4) r(2)] h by blast
    with h show "db_rely sha s' g' s'' (observe i q e s' s'' g') \<and> db_inv cf sha s'' (observe i q e s' s'' g')
        \<and> keeps_db cf sha i q (\<lambda>r s g. P r s g \<and> A s g) p s'' (observe i q e s' s'' g')"
      by blast
  qed
qed

text \<open>One step that returns.\<close>

lemma keeps_step:
  assumes "db_inv cf sha s g" and "A s g" and st: "db_stable cf sha A"
    and step: "\<And>e s g p s'. A s g \<Longrightarrow> db_inv cf sha s g \<Longrightarrow> db_env_ok cf sha e s g \<Longrightarrow> f e s = (p, s') \<Longrightarrow>
      \<exists>r. p = Ret r \<and> db_moves cf sha q e s s' \<and> keys_kept s s' \<and> db_stable cf sha (P r) \<and> P r s' (observe i q e s s' g)"
  shows "keeps_db cf sha i q P (Act f) s g"
proof (rule keeps.act)
  fix e s' g' p s''
  assume r: "db_rely sha s g s' g'" "db_inv cf sha s' g'" "db_env_ok cf sha e s' g'" "f e s' = (p, s'')"
  have "A s' g'" using stableD [OF st assms(1,2) r(1,2)] .
  from step [OF this r(2-4)] obtain v where p: "p = Ret v"
    and m: "db_moves cf sha q e s' s''" "keys_kept s' s''" and P: "db_stable cf sha (P v)" "P v s'' (observe i q e s' s'' g')"
    by blast
  note ch = change_inv [OF r(2,3) m, of i]
  have "keeps_db cf sha i q P p s'' (observe i q e s' s'' g')"
    unfolding p by (rule keeps_ret [where P = P, OF ch(2) P(2,1)])
  with ch show "db_rely sha s' g' s'' (observe i q e s' s'' g') \<and> db_inv cf sha s'' (observe i q e s' s'' g')
      \<and> keeps_db cf sha i q P p s'' (observe i q e s' s'' g')"
    by blast
qed

lemma keeps_read:
  assumes "db_inv cf sha s g" and "A s g" and "db_stable cf sha A"
    and "\<And>e s g a. A s g \<Longrightarrow> db_inv cf sha s g \<Longrightarrow> db_env_ok cf sha e s g \<Longrightarrow> f e s = Inr a \<Longrightarrow> Q a s (observe i q e s s g)"
    and "\<And>a. db_stable cf sha (Q a)"
  shows "keeps_db cf sha i q (ok_post Q) (db_read f) s g"
  unfolding db_read_def
proof (rule keeps_step [OF assms(1-3)], goal_cases)
  case (1 e s g p s')
  let ?r = "case e_outcome e of Fine \<Rightarrow> f e s | Fails code \<Rightarrow> Inl (SqlState code) | CommitLost \<Rightarrow> Inl (SqlState '''')"
  have p: "p = Ret ?r" "s' = s" using 1(4) by auto
  have "ok_post Q ?r s (observe i q e s s g)"
    using assms(4) [OF 1(1-3)] by (cases "f e s") (auto split: db_outcome.splits)
  moreover have "db_stable cf sha (ok_post Q ?r)"
    using assms(5) by (cases ?r) simp_all
  ultimately show ?case using p db_moves_refl [OF inv_wf [OF 1(2)]] by auto
qed

lemma keeps_tx:
  assumes "db_inv cf sha s g" and "A s g" and "db_stable cf sha A"
    and tx: "\<And>e s g a s'. A s g \<Longrightarrow> db_inv cf sha s g \<Longrightarrow> db_env_ok cf sha e s g \<Longrightarrow> f e s = Inr (a, s') \<Longrightarrow>
      db_moves cf sha q e s s' \<and> keys_kept s s' \<and> Q a s' (observe i q e s s' g)"
    and "\<And>a. db_stable cf sha (Q a)"
  shows "keeps_db cf sha i q (ok_post Q) (db_transaction_with err f) s g"
  unfolding db_transaction_with_def
proof (rule keeps_step [OF assms(1-3)], goal_cases)
  case (1 e s g p s')
  have same: "db_moves cf sha q e s s" using db_moves_refl [OF inv_wf [OF 1(2)]] .
  consider (er) x where "p = Ret (Inl x)" "s' = s" | (lost) a x where "f e s = Inr (a, s')" "p = Ret (Inl x)"
    | (ok) a where "f e s = Inr (a, s')" "p = Ret (Inr a)"
    using 1(4) by (auto split: db_outcome.splits sum.splits prod.splits)
  then show ?case
  proof cases
    case er
    then show ?thesis using same by auto
  next
    case lost
    then show ?thesis using tx [OF 1(1-3) lost(1)] by auto
  next
    case ok
    then show ?thesis using tx [OF 1(1-3) ok(1)] assms(5) by auto
  qed
qed

lemma keeps_try:
  assumes "keeps_db cf sha i q (ok_post Q) p s g" and "db_inv cf sha s g"
    and "\<And>a s g. Q a s g \<Longrightarrow> db_inv cf sha s g \<Longrightarrow> keeps_db cf sha i q P (k a) s g"
    and "\<And>er s g. db_inv cf sha s g \<Longrightarrow> keeps_db cf sha i q P (h er) s g"
  shows "keeps_db cf sha i q P (prog_bind p (\<lambda>r. case r of Inl er \<Rightarrow> h er | Inr a \<Rightarrow> k a)) s g"
proof (rule keeps_bind [OF assms(1,2)])
  show "db_rely sha s g s g" if "db_inv cf sha s g" for s g using inv_refl that .
  show "keeps_db cf sha i q P (case r of Inl er \<Rightarrow> h er | Inr a \<Rightarrow> k a) s g"
    if "ok_post Q r s g" "db_inv cf sha s g" for r s g
    using that assms(3,4) by (cases r) simp_all
qed

lemma keeps_bind_ok:
  assumes "keeps_db cf sha i q (ok_post Q) p s g" and "db_inv cf sha s g"
    and "\<And>a s g. Q a s g \<Longrightarrow> db_inv cf sha s g \<Longrightarrow> keeps_db cf sha i q (ok_post P) (k a) s g"
  shows "keeps_db cf sha i q (ok_post P) (bind_ok p k) s g"
  unfolding bind_ok_def by (rule keeps_try [OF assms]) (simp_all add: keeps_ret_er)

lemma keeps_bind_claim:
  assumes "keeps_db cf sha i q (ok_post Q) p s g" and "db_inv cf sha s g"
    and "\<And>a s g. Q a s g \<Longrightarrow> db_inv cf sha s g \<Longrightarrow> keeps_db cf sha i q (ok_post P) (k a) s g"
  shows "keeps_db cf sha i q (ok_post P) (bind_claim p k) s g"
  unfolding bind_claim_def by (rule keeps_try [OF assms]) (simp_all add: keeps_ret_er)

lemma keeps_bind_key:
  assumes "keeps_db cf sha i q (ok_post Q) p s g" and "db_inv cf sha s g"
    and "\<And>a s g. Q a s g \<Longrightarrow> db_inv cf sha s g \<Longrightarrow> keeps_db cf sha i q (ok_post P) (k a) s g"
  shows "keeps_db cf sha i q (ok_post P) (bind_key p k) s g"
  unfolding bind_key_def by (rule keeps_try [OF assms]) (simp_all add: keeps_ret_er)

lemma keeps_retries:
  fixes body :: "(db_env, db, 'b + 'a) prog"
  assumes "db_inv cf sha s g" and "A s g" and st: "db_stable cf sha A" and Q: "\<And>a. db_stable cf sha (Q a)"
    and body: "\<And>s g. A s g \<Longrightarrow> db_inv cf sha s g \<Longrightarrow> keeps_db cf sha i q (ok_post Q) body s g"
  shows "keeps_db cf sha i q (ok_post Q) (with_retries retryable n body) s g"
  using assms(1,2)
proof (induction n arbitrary: s g)
  case 0
  then show ?case using body by simp
next
  case (Suc n)
  have k: "keeps_db cf sha i q (\<lambda>r s g. ok_post Q r s g \<and> A s g) body s g"
    by (rule keeps_carry [OF body [OF Suc.prems(2,1)] Suc.prems st])
  show ?case
    unfolding with_retries.simps
  proof (rule keeps_bind [OF k Suc.prems(1)])
    show "db_rely sha s g s g" if "db_inv cf sha s g" for s g using inv_refl that .
    fix r :: "'b + 'a" and s g
    assume "ok_post Q r s g \<and> A s g" and iv: "db_inv cf sha s g"
    then show "keeps_db cf sha i q (ok_post Q)
        (case r of Inl er \<Rightarrow> if retryable er then with_retries retryable n body else Ret (Inl er) | Inr v \<Rightarrow> Ret (Inr v)) s g"
      using Suc.IH [OF iv] Q by (cases r) (auto intro: keeps_ret_ok [OF iv])
  qed
qed

lemma keeps_tx_retry:
  assumes "db_inv cf sha s g" and "A s g" and "db_stable cf sha A"
    and "\<And>e s g a s'. A s g \<Longrightarrow> db_inv cf sha s g \<Longrightarrow> db_env_ok cf sha e s g \<Longrightarrow> f e s = Inr (a, s') \<Longrightarrow>
      db_moves cf sha q e s s' \<and> keys_kept s s' \<and> Q a s' (observe i q e s s' g)"
    and "\<And>a. db_stable cf sha (Q a)"
  shows "keeps_db cf sha i q (ok_post Q) (with_dsql_retry (db_transaction f)) s g"
  unfolding with_dsql_retry_def db_transaction_def
  by (rule keeps_retries [OF assms(1-3,5)], rule keeps_tx [OF _ _ assms(3)]) (use assms(4,5) in auto)

text \<open>Document types whose ids are no hashes.\<close>

definition plain_type :: "'d doctype \<Rightarrow> bool" where
  "plain_type T \<longleftrightarrow>
     (\<forall>d x. dt_proj T d = Some x \<longrightarrow> d = dt_inj T x)
     \<and> (\<forall>sha r. row_wf sha r \<longrightarrow> row_type r = dt_name T \<longrightarrow> row_id r \<notin> range sha)"

lemma row_wf_type: "row_wf sha r \<Longrightarrow> row_type r \<notin> set modelled_types \<Longrightarrow> row_id r \<notin> range sha"
  by (cases "row_data r") (auto simp: row_wf_def id_fits_def modelled_types_def)

lemma plain_types [simp]:
  "plain_type code_type" "plain_type device_type" "plain_type oidc_type" "plain_type par_type" "plain_type pending_type"
  "plain_type authenticator_type" "plain_type (raw_type ''user'')" "plain_type (raw_type ''session'')"
proof -
  have w: "row_id r \<notin> range sha"
    if "row_wf sha r" "row_type r \<in> {''authorization_code'', ''device_auth_request'', ''oidc_state'',
      ''pushed_authorization_request'', ''pending_oauth_auth'', ''authenticator''}" for sha r
    using that by (cases "row_data r") (auto simp: row_wf_def id_fits_def modelled_types_def)
  show "plain_type code_type" "plain_type device_type" "plain_type oidc_type" "plain_type par_type" "plain_type pending_type"
    "plain_type authenticator_type"
    unfolding plain_type_def code_type_def device_type_def oidc_type_def par_type_def pending_type_def authenticator_type_def
    using w by (auto split: document.splits)
  show "plain_type (raw_type ''user'')" "plain_type (raw_type ''session'')"
    using row_wf_type by (auto simp: plain_type_def raw_type_def modelled_types_def)
qed

lemma seen_row:
  assumes T: "plain_type T" and iv: "db_inv cf sha s g" and r: "r \<in> set (db_rows s)" "row_type r = dt_name T"
    and d: "decode_row T r = Inr doc"
  shows "seen sha T doc s (observe i q e s s g)" and "st_id doc = row_id r" and "dt_inj T (st_data doc) = row_data r"
proof -
  have wf: "db_wf cf sha s" by (rule inv_wf [OF iv])
  have n: "row_id r \<notin> range sha" using T db_wf_row [OF wf r(1)] r(2) unfolding plain_type_def by blast
  have p: "st_id doc = row_id r" "dt_inj T (st_data doc) = row_data r" "st_version doc = row_version r"
    using d T by (auto simp: decode_row_def plain_type_def split: option.splits)
  then show "st_id doc = row_id r" "dt_inj T (st_data doc) = row_data r" by simp_all
  have "a = r" if "a \<in> set (db_rows s)" "row_id a = row_id r" for a using db_wf_same [OF wf r(1)] that by blast
  then show "seen sha T doc s (observe i q e s s g)"
    using p n db_idsI [OF r(1)] by (auto simp: seen_def)
qed

lemma decode_first_some: "decode_first T ro = Inr (Some doc) \<Longrightarrow> \<exists>r. ro = Some r \<and> decode_row T r = Inr doc"
  by (auto simp: decode_first_def split: option.splits sum.splits)

lemma decode_rows_mem:
  assumes "decode_rows T rs = Inr docs" and "doc \<in> set docs"
  shows "\<exists>r \<in> set rs. decode_row T r = Inr doc"
  using assms by (induction rs arbitrary: docs) (fastforce split: sum.splits)+

definition found :: "(string \<Rightarrow> string) \<Rightarrow> 'd doctype \<Rightarrow> (document \<Rightarrow> string \<Rightarrow> bool) \<Rightarrow> 'd stored option \<Rightarrow> db \<Rightarrow> ghost \<Rightarrow> bool" where
  "found sha T R doc s g = (case doc of None \<Rightarrow> True | Some d \<Rightarrow> seen sha T d s g \<and> R (dt_inj T (st_data d)) (st_id d))"

lemma found_simps [simp]: "found sha T R None = (\<lambda>s g. True)"
  "found sha T R (Some d) = (\<lambda>s g. seen sha T d s g \<and> R (dt_inj T (st_data d)) (st_id d))"
  by (simp_all add: found_def fun_eq_iff)

lemma db_stable_found [intro]: "db_stable cf sha (found sha T R doc)"
  by (cases doc) auto

lemma found_read:
  assumes T: "plain_type T" and iv: "db_inv cf sha s g" and d: "decode_first T ro = Inr doc"
    and ro: "\<And>r. ro = Some r \<Longrightarrow> r \<in> set (db_rows s) \<and> row_type r = dt_name T \<and> R (row_data r) (row_id r)"
  shows "found sha T R doc s (observe i q e s s g)"
proof (cases doc)
  case (Some x)
  with d obtain r where r: "ro = Some r" "decode_row T r = Inr x" using decode_first_some by metis
  then show ?thesis using seen_row [OF T iv _ _ r(2)] ro [OF r(1)] Some by simp
qed simp

lemma keeps_find_one:
  assumes T: "plain_type T" and iv: "db_inv cf sha s g"
  shows "keeps_db cf sha i q (ok_post (found sha T (\<lambda>d _. matches cf field v d))) (find_one cf T field v) s g"
  unfolding find_one_def
proof (rule keeps_read [OF iv, of "\<lambda>_ _. True"], goal_cases)
  case (3 e s g a)
  show ?case
    by (rule found_read [OF T 3(2,4)]) (use newest_mem select_index_row [OF inv_wf [OF 3(2)]] in blast)
qed auto

lemma keeps_find_one_at:
  assumes T: "plain_type T" and iv: "db_inv cf sha s g"
  shows "keeps_db cf sha i q (ok_post (\<lambda>(doc, now) s g. found sha T (\<lambda>d _. matches cf field v d) doc s g \<and> now \<le> g_time g))
    (find_one_at cf T field v) s g"
  unfolding find_one_at_def
proof (rule keeps_read [OF iv, of "\<lambda>_ _. True"], goal_cases)
  case (3 e s g a)
  then obtain doc where a: "a = (doc, e_now e)"
    and d: "decode_first T (newest cf (e_pick e) (select_index cf (dt_name T) field v s)) = Inr doc"
    by (auto split: sum.splits)
  have "found sha T (\<lambda>d _. matches cf field v d) doc s (observe i q e s s g)"
    by (rule found_read [OF T 3(2) d]) (use newest_mem select_index_row [OF inv_wf [OF 3(2)]] in blast)
  then show ?case by (simp add: a)
qed (auto simp: case_prod_beta)

lemma keeps_get:
  assumes T: "plain_type T" and iv: "db_inv cf sha s g"
  shows "keeps_db cf sha i q (ok_post (found sha T (\<lambda>_ x. x = did))) (store_get T did) s g"
  unfolding store_get_def
proof (rule keeps_read [OF iv, of "\<lambda>_ _. True"], goal_cases)
  case (3 e s g a)
  show ?case by (rule found_read [OF T 3(2,4)]) (use select_id_row in blast)
qed auto

lemma keeps_get_at:
  assumes T: "plain_type T" and iv: "db_inv cf sha s g"
  shows "keeps_db cf sha i q (ok_post (\<lambda>(doc, now) s g. found sha T (\<lambda>_ x. x = did) doc s g \<and> now \<le> g_time g))
    (store_get_at T did) s g"
  unfolding store_get_at_def
proof (rule keeps_read [OF iv, of "\<lambda>_ _. True"], goal_cases)
  case (3 e s g a)
  then obtain doc where a: "a = (doc, e_now e)" and d: "decode_first T (select_id (dt_name T) did s) = Inr doc"
    by (auto split: sum.splits)
  have "found sha T (\<lambda>_ x. x = did) doc s (observe i q e s s g)"
    by (rule found_read [OF T 3(2) d]) (use select_id_row in blast)
  then show ?case by (simp add: a)
qed (auto simp: case_prod_beta)

section \<open>Guarded updates\<close>

text \<open>What a won update leaves in the record of the run.\<close>

definition replaced :: "nat \<Rightarrow> request \<Rightarrow> string \<Rightarrow> document \<Rightarrow> document \<Rightarrow> db_env \<Rightarrow> db \<Rightarrow> db \<Rightarrow> ghost \<Rightarrow> bool" where
  "replaced i q x d d' e s s' g \<longleftrightarrow>
     (\<exists>r \<in> set (db_rows s). \<exists>r' \<in> set (db_rows s').
        row_id r = x \<and> row_data r = d \<and> row_id r' = x \<and> row_data r' = d')"

lemma retired_new:
  "r \<in> set (retired_rows s s') \<Longrightarrow>
     \<lparr>ev_task = i, ev_req = q, ev_id = row_id r, ev_doc = row_data r, ev_new = row_data r, ev_time = e_now e\<rparr>
       \<in> set (g_retired (observe i q e s s' g))"
  by simp

lemma issued_new:
  "r \<in> set (db_rows s') \<Longrightarrow> row_id r \<notin> db_ids s \<Longrightarrow>
     \<lparr>ev_task = i, ev_req = q, ev_id = row_id r, ev_doc = row_data r, ev_new = row_data r, ev_time = e_now e\<rparr>
       \<in> set (g_issued (observe i q e s s' g))"
  by (simp add: issued_rows_def)

lemma replaced_retired:
  assumes "db_wf cf sha s'" and "replaced i q x d d' e s s' g" and "\<not> spent d" and "spent d'"
  shows "\<exists>ev \<in> set (g_retired (observe i q e s s' g)).
    ev_task ev = i \<and> ev_req ev = q \<and> ev_id ev = x \<and> ev_doc ev = d \<and> ev_time ev = e_now e"
proof -
  obtain r r' where r: "r \<in> set (db_rows s)" "row_id r = x" "row_data r = d"
    and r': "r' \<in> set (db_rows s')" "row_id r' = x" "row_data r' = d'"
    using assms(2) by (auto simp: replaced_def)
  have "\<not> lives_on s' r"
    unfolding lives_on_def using db_wf_same [OF assms(1) r'(1)] r(2) r'(2,3) assms(4) by metis
  then have "r \<in> set (retired_rows s s')" using r assms(3) by (simp add: retired_rows_def)
  from retired_new [OF this, of i q e g] show ?thesis by (rule bexI [rotated]) (use r in simp)
qed

lemma replaced_written:
  assumes "replaced i q x d d' e s s' g" and "d' \<noteq> d"
  shows "\<exists>ev \<in> set (g_written (observe i q e s s' g)).
    ev_task ev = i \<and> ev_req ev = q \<and> ev_id ev = x \<and> ev_doc ev = d \<and> ev_new ev = d' \<and> ev_time ev = e_now e"
proof -
  obtain r r' where r: "r \<in> set (db_rows s)" "row_id r = x" "row_data r = d"
    and r': "r' \<in> set (db_rows s')" "row_id r' = x" "row_data r' = d'"
    using assms(1) by (auto simp: replaced_def)
  have "row_id r' = row_id r" "row_data r' \<noteq> row_data r" using r r' assms(2) by auto
  from written_new [OF r(1) r'(1) this, of i q e g] show ?thesis
    by (rule bexI [rotated]) (use r r' in simp)
qed

lemma keeps_cas:
  assumes iv: "db_inv cf sha s g" and sn: "seen sha T doc s g" and A: "A s g" "db_stable cf sha A"
    and legal: "dt_inj T x = dt_inj T (st_data doc) \<or> legal_write q (st_id doc) (dt_inj T (st_data doc)) (dt_inj T x)"
    and W: "\<And>e s g s'. db_inv cf sha s g \<Longrightarrow> A s g \<Longrightarrow> db_env_ok cf sha e s g \<Longrightarrow> db_wf cf sha s' \<Longrightarrow>
      replaced i q (st_id doc) (dt_inj T (st_data doc)) (dt_inj T x) e s s' g \<Longrightarrow> W s' (observe i q e s s' g)"
    and st: "db_stable cf sha W"
  shows "keeps_db cf sha i q (ok_post (\<lambda>won s g. won \<longrightarrow> W s g)) (compare_and_update cf T (st_id doc) (st_version doc) x) s g"
  unfolding compare_and_update_def
proof (rule keeps_tx_retry [OF iv, of "\<lambda>s g. seen sha T doc s g \<and> A s g"], goal_cases)
  case (3 e s g won s')
  note 1 = conjunct1 [OF 3(1)] 3(2-4) and a = conjunct2 [OF 3(1)]
  have wf: "db_wf cf sha s" by (rule inv_wf [OF 1(2)])
  show ?case
  proof (cases won)
    case False
    then have "cas_stmt cf (e_now e) (st_id doc) (st_version doc) (dt_inj T x) s = Inr (False, s')"
      using 1(4) by simp
    then have "s' = s" by (rule cas_stmt_lost)
    then show ?thesis using False db_moves_refl [OF wf] by simp
  next
    case True
    have c: "cas_stmt cf (e_now e) (st_id doc) (st_version doc) (dt_inj T x) s = Inr (True, s')"
      using 1(4) True by simp
    have ver: "\<forall>r \<in> set (db_rows s). row_id r = st_id doc \<longrightarrow> row_version r = st_version doc \<longrightarrow>
        st_version doc < 2 ^ 31 - 1"
      using 1(3) by (auto simp: db_env_ok_def)
    have data: "row_data r = dt_inj T (st_data doc)"
      if "r \<in> set (db_rows s)" "row_id r = st_id doc" "row_version r = st_version doc" for r
      using 1(1) that by (simp add: seen_def)
    have l: "dt_inj T x = row_data r \<or> legal_write q (st_id doc) (row_data r) (dt_inj T x)"
      if "r \<in> set (db_rows s)" "row_id r = st_id doc" "row_version r = st_version doc" for r
      using data [OF that] legal by simp
    have m: "db_moves cf sha q e s s'" and ids: "db_ids s' = db_ids s"
      using cas_stmt_moves(1,2) [where q = q, OF wf c ver l] by blast+
    obtain r r' where r: "r \<in> set (db_rows s)" "row_id r = st_id doc" "row_version r = st_version doc"
      and r': "r' \<in> set (db_rows s')" "row_id r' = st_id doc" "row_data r' = dt_inj T x"
      using cas_stmt_moves(3) [where q = q, OF wf c ver l] by blast
    have "replaced i q (st_id doc) (dt_inj T (st_data doc)) (dt_inj T x) e s s' g"
      unfolding replaced_def using r r' data [OF r] by blast
    moreover have "db_wf cf sha s'" using m by (simp add: db_moves_def)
    ultimately have "W s' (observe i q e s s' g)" using W [OF 1(2) a 1(3)] by blast
    moreover have "keys_kept s s'" by (rule keys_kept_if_present [OF m]) (simp add: ids db_idsI)
    ultimately show ?thesis using m by blast
  qed
qed (use st sn A in auto)

lemma keeps_carry_ok:
  assumes "keeps_db cf sha i q (ok_post Q) p s g" and "db_inv cf sha s g" and "A s g" and "db_stable cf sha A"
  shows "keeps_db cf sha i q (ok_post (\<lambda>a s g. Q a s g \<and> A s g)) p s g"
  by (rule keeps_weaken [OF keeps_carry [OF assms]]) (simp add: ok_post_def split: sum.splits)

lemma keeps_transition_loop:
  assumes T: "plain_type T"
    and legal: "\<And>now d a d'. decide now d = Inr (a, d') \<Longrightarrow>
      dt_inj T d' = dt_inj T d \<or> legal_write q did (dt_inj T d) (dt_inj T d')"
    and W: "\<And>e s g s' now d a d'. db_inv cf sha s g \<Longrightarrow> A s g \<Longrightarrow> db_env_ok cf sha e s g \<Longrightarrow> db_wf cf sha s' \<Longrightarrow>
      decide now d = Inr (a, d') \<Longrightarrow> now \<le> e_now e \<Longrightarrow>
      replaced i q did (dt_inj T d) (dt_inj T d') e s s' g \<Longrightarrow> W a s' (observe i q e s s' g)"
    and st: "\<And>a. db_stable cf sha (W a)"
    and A: "db_stable cf sha A"
    and iv: "db_inv cf sha s g" "A s g"
  shows "keeps_db cf sha i q (ok_post (\<lambda>t s g. case t of Applied (a, _) \<Rightarrow> W a s g | _ \<Rightarrow> True))
    (transition_loop cf T did decide n) s g"
  using iv
proof (induction n arbitrary: s g)
  case 0
  then show ?case by simp
next
  case (Suc n)
  let ?P = "\<lambda>t s g. case t of Applied (a, _) \<Rightarrow> W a s g | _ \<Rightarrow> True"
  show ?case
    unfolding transition_loop.simps
  proof (rule keeps_bind_ok [OF keeps_carry_ok [OF keeps_get_at [OF T Suc.prems(1), of i q did] Suc.prems A] Suc.prems(1)], clarify)
    fix doc now s g
    assume f: "found sha T (\<lambda>_ x. x = did) doc s g" and now: "now \<le> g_time g" and a: "A s g" and iv: "db_inv cf sha s g"
    show "keeps_db cf sha i q (ok_post ?P)
       (case doc of None \<Rightarrow> Ret (Inr NotFound)
        | Some doc \<Rightarrow>
            case decide now (st_data doc) of Inl rejected \<Rightarrow> Ret (Inr (Rejected rejected))
            | Inr (applied, data) \<Rightarrow>
                bind_ok (compare_and_update cf T did (st_version doc) data) (\<lambda>won.
                  if won then Ret (Inr (Applied (applied, sat_i32 (st_version doc + 1))))
                  else transition_loop cf T did decide n)) s g"
    proof (cases doc)
      case None
      then show ?thesis by (auto intro!: keeps_ret_ok [OF iv])
    next
      case doc: (Some d)
      have sn: "seen sha T d s g" and x: "st_id d = did" using f doc by simp_all
      show ?thesis
      proof (cases "decide now (st_data d)")
        case (Inl rejected)
        then show ?thesis using doc by (auto intro!: keeps_ret_ok [OF iv])
      next
        case (Inr ad)
        obtain a data where ad: "ad = (a, data)" by (cases ad)
        note de = Inr [unfolded ad]
        have c: "keeps_db cf sha i q (ok_post (\<lambda>won s g. won \<longrightarrow> W a s g))
            (compare_and_update cf T (st_id d) (st_version d) data) s g"
        proof (rule keeps_cas [OF iv sn, of "\<lambda>s g. now \<le> g_time g \<and> A s g"])
          show "dt_inj T data = dt_inj T (st_data d) \<or> legal_write q (st_id d) (dt_inj T (st_data d)) (dt_inj T data)"
            using legal [OF de] x by simp
          fix e s g s'
          assume "db_inv cf sha s g" "now \<le> g_time g \<and> A s g" "db_env_ok cf sha e s g" "db_wf cf sha s'"
            "replaced i q (st_id d) (dt_inj T (st_data d)) (dt_inj T data) e s s' g"
          moreover have "now \<le> e_now e" using calculation(2,3) by (simp add: db_env_ok_def)
          ultimately show "W a s' (observe i q e s s' g)" using W [OF _ _ _ _ de] x by blast
        qed (use now a A st in auto)
        show ?thesis
          unfolding doc option.case Inr ad sum.case prod.case
        proof (rule keeps_bind_ok [OF keeps_carry_ok [OF c [unfolded x] iv a A] iv])
          fix won s g assume "(won \<longrightarrow> W a s g) \<and> A s g" and iv: "db_inv cf sha s g"
          then show "keeps_db cf sha i q (ok_post ?P)
             (if won then Ret (Inr (Applied (a, sat_i32 (st_version d + 1)))) else transition_loop cf T did decide n) s g"
            using Suc.IH [OF iv] by (auto intro!: keeps_ret_ok [OF iv] st)
        qed
      qed
    qed
  qed
qed

lemma keeps_transition:
  assumes "plain_type T"
    and "\<And>now d a d'. decide now d = Inr (a, d') \<Longrightarrow>
      dt_inj T d' = dt_inj T d \<or> legal_write q did (dt_inj T d) (dt_inj T d')"
    and "\<And>e s g s' now d a d'. db_inv cf sha s g \<Longrightarrow> A s g \<Longrightarrow> db_env_ok cf sha e s g \<Longrightarrow> db_wf cf sha s' \<Longrightarrow>
      decide now d = Inr (a, d') \<Longrightarrow> now \<le> e_now e \<Longrightarrow>
      replaced i q did (dt_inj T d) (dt_inj T d') e s s' g \<Longrightarrow> W a s' (observe i q e s s' g)"
    and st: "\<And>a. db_stable cf sha (W a)"
    and A: "db_stable cf sha A"
    and iv: "db_inv cf sha s g" "A s g"
  shows "keeps_db cf sha i q (ok_post (\<lambda>t s g. case t of Applied a \<Rightarrow> W a s g | _ \<Rightarrow> True))
    (store_transition cf T did decide) s g"
  unfolding store_transition_def transition_versioned_def
proof (rule keeps_bind_ok [OF keeps_transition_loop [OF assms(1-3) st A iv] iv(1)], assumption+)
  fix t s g
  assume "case t of Applied (a, _) \<Rightarrow> W a s g | _ \<Rightarrow> True" "db_inv cf sha s g"
  then show "keeps_db cf sha i q (ok_post (\<lambda>t s g. case t of Applied a \<Rightarrow> W a s g | _ \<Rightarrow> True))
     (Ret (Inr (case t of Applied (applied, _) \<Rightarrow> Applied applied | Rejected rejected \<Rightarrow> Rejected rejected | NotFound \<Rightarrow> NotFound))) s g"
    using st by (intro keeps_ret_ok) (auto split: transition.splits)
qed

lemma keeps_modify:
  assumes "plain_type T"
    and "\<And>d. dt_inj T (f d) = dt_inj T d \<or> legal_write q did (dt_inj T d) (dt_inj T (f d))"
    and iv: "db_inv cf sha s g"
  shows "keeps_db cf sha i q (ok_post (\<lambda>_ _ _. True)) (store_modify cf T did f) s g"
  unfolding store_modify_def
  by (rule keeps_bind_ok [OF keeps_transition [where W = "\<lambda>_ _ _. True" and A = "\<lambda>_ _. True", OF assms(1) _ _ _ _ iv] iv])
    (use assms(2) in \<open>auto intro!: keeps_ret_ok\<close>)

section \<open>Inserts, deletions, sweeps\<close>

definition issued_by :: "nat \<Rightarrow> request \<Rightarrow> string \<Rightarrow> document \<Rightarrow> ghost \<Rightarrow> bool" where
  "issued_by i q x d g \<longleftrightarrow> (\<exists>ev \<in> set (g_issued g). ev_task ev = i \<and> ev_req ev = q \<and> ev_id ev = x \<and> ev_doc ev = d)"

lemma stable_issued_by [intro]: "db_stable cf sha (\<lambda>s g. issued_by i q x d g)"
  unfolding issued_by_def by (rule stable_issued)

lemma insert_tx:
  assumes iv: "db_inv cf sha s g" and c: "insert_stmt cf now did d s = Inr s'"
    and "id_fits sha did d" "\<not> spent d" "\<forall>x. d = DeviceAuthRequest x \<longrightarrow> da_status x = DPending"
    and "did = e_uuid e \<or> did \<in> range sha"
  shows "db_moves cf sha q e s s'" and "keys_kept s s'" and "issued_by i q did d (observe i q e s s' g)"
proof -
  note m = insert_stmt_moves [OF inv_wf [OF iv] assms(2-6)]
  show "db_moves cf sha q e s s'" by (rule m(1))
  show "keys_kept s s'" by (rule keys_kept_if_present [OF m(1) [of q]]) (use m(4) db_idsI in blast)
  obtain r where r: "r \<in> set (db_rows s')" "row_id r = did" "row_data r = d" using m(3) by blast
  have "row_id r \<notin> db_ids s" using m(2) r(2) by simp
  from issued_new [OF r(1) this, of i q e g] show "issued_by i q did d (observe i q e s s' g)"
    unfolding issued_by_def by (rule bexI [rotated]) (use r in simp)
qed

lemma keeps_insert:
  assumes iv: "db_inv cf sha s g"
    and d: "\<And>y. y \<notin> range sha \<Longrightarrow> id_fits sha y (dt_inj T x)" "\<not> spent (dt_inj T x)"
      "\<forall>y. dt_inj T x = DeviceAuthRequest y \<longrightarrow> da_status y = DPending"
  shows "keeps_db cf sha i q (ok_post (\<lambda>st s g. issued_by i q (st_id st) (dt_inj T x) g)) (store_insert cf T x) s g"
  unfolding store_insert_def
proof (rule keeps_tx_retry [OF iv, of "\<lambda>_ _. True"], goal_cases)
  case (3 e s g a s')
  then have c: "insert_stmt cf (e_now e) (e_uuid e) (dt_inj T x) s = Inr s'" and a: "st_id a = e_uuid e"
    by (auto split: sum.splits)
  have "id_fits sha (e_uuid e) (dt_inj T x)" using d(1) 3(3) by (simp add: db_env_ok_def)
  from insert_tx [OF 3(2) c this d(2,3)] show ?case unfolding a by blast
qed auto

lemma keeps_insert_with_id:
  assumes iv: "db_inv cf sha s g" and did: "did \<in> range sha"
    and d: "id_fits sha did (dt_inj T x)" "\<not> spent (dt_inj T x)" "\<forall>y. dt_inj T x = DeviceAuthRequest y \<longrightarrow> da_status y = DPending"
  shows "keeps_db cf sha i q (ok_post (\<lambda>_ s g. issued_by i q did (dt_inj T x) g)) (insert_with_id cf T did x) s g"
  unfolding insert_with_id_def
proof (rule keeps_tx_retry [OF iv, of "\<lambda>_ _. True"], goal_cases)
  case (3 e s g a s')
  then have c: "insert_stmt cf (e_now e) did (dt_inj T x) s = Inr s'" by (auto split: sum.splits)
  from insert_tx [OF 3(2) c d disjI2 [OF did]] show ?case by blast
qed auto

lemma keeps_sweep_batches:
  assumes "db_inv cf sha s g" and "read_by now (g_time g)"
  shows "keeps_db cf sha i q (ok_post (\<lambda>_ _ _. True)) (sweep_batches cf now bs n) s g"
  using assms
proof (induction bs arbitrary: n s g)
  case Nil
  then show ?case by (auto intro!: keeps_ret_ok)
next
  case (Cons ids bs)
  have "keeps_db cf sha i q (ok_post (\<lambda>_ s g. read_by now (g_time g))) (db_transaction (\<lambda>e s. Inr (sweep_stmt cf now ids s))) s g"
    unfolding db_transaction_def
  proof (rule keeps_tx [where A = "\<lambda>_ g. read_by now (g_time g)", OF Cons.prems], goal_cases)
    case (2 e s g a s')
    then have n: "read_by now (e_now e)" by (simp add: db_env_ok_def)
    have s': "s' = snd (sweep_stmt cf now ids s)" using 2(4) by (simp add: prod_eq_iff)
    show ?case
      unfolding s' using sweep_moves [OF inv_wf [OF 2(2)] n] sweep_keys [OF inv_wf [OF 2(2)] n] n by simp
  qed auto
  then show ?case unfolding sweep_batches.simps by (rule keeps_bind_ok [OF _ Cons.prems(1)]) (rule Cons.IH)
qed

lemma keeps_clock:
  assumes "db_inv cf sha s g"
  shows "keeps_db cf sha i q (\<lambda>t s g. read_by t (g_time g)) (Act (\<lambda>e s. (Ret (e_now e), s))) s g"
  by (rule keeps_step [OF assms, of "\<lambda>_ _. True"]) (use db_moves_refl inv_wf in \<open>auto simp: db_env_ok_def\<close>)

lemma keeps_plain_bind:
  assumes "keeps_db cf sha i q P p s g" and "db_inv cf sha s g"
    and "\<And>r s g. P r s g \<Longrightarrow> db_inv cf sha s g \<Longrightarrow> keeps_db cf sha i q Q (k r) s g"
  shows "keeps_db cf sha i q Q (prog_bind p k) s g"
  by (rule keeps_bind [OF assms(1,2) inv_refl assms(3)])

lemma keeps_sweep:
  assumes iv: "db_inv cf sha s g"
  shows "keeps_db cf sha i q (ok_post (\<lambda>_ _ _. True)) (delete_expired cf ty) s g"
  unfolding delete_expired_def with_dsql_retry_def
proof (rule keeps_retries [OF iv, of "\<lambda>_ _. True"], goal_cases)
  case (4 s g)
  show ?case
  proof (rule keeps_plain_bind [OF keeps_clock [OF 4(2)] 4(2)])
    fix now s g assume now: "read_by now (g_time g)" and iv: "db_inv cf sha s g"
    show "keeps_db cf sha i q (ok_post (\<lambda>_ _ _. True)) (delete_expired_before cf ty now) s g"
      unfolding delete_expired_before_def
    proof (rule keeps_bind_ok [OF _ iv])
      show "keeps_db cf sha i q (ok_post (\<lambda>_ s g. read_by now (g_time g)))
          (db_read (\<lambda>e s. Inr (map row_id (filter (\<lambda>r. row_type r = ty \<and> expires_before cf now r) (db_rows s))))) s g"
        by (rule keeps_read [where A = "\<lambda>_ g. read_by now (g_time g)", OF iv now]) (auto simp: db_env_ok_def)
    qed (rule keeps_sweep_batches)
  qed
qed auto

lemma keeps_touch:
  assumes iv: "db_inv cf sha s g"
  shows "keeps_db cf sha i q (ok_post (\<lambda>_ _ _. True)) (update_last_used_at did) s g"
  unfolding update_last_used_at_def
proof (rule keeps_tx_retry [OF iv, of "\<lambda>_ _. True"], goal_cases)
  case (3 e s g a s')
  then have s': "s' = s\<lparr>db_rows := map (\<lambda>r. if row_id r = did then r\<lparr>row_last_used := Some (e_now e)\<rparr> else r) (db_rows s)\<rparr>"
    by simp
  note m = touch_moves [OF inv_wf [OF 3(2)] s']
  show ?case using m(1) keys_kept_if_present [OF m(1)] m(2) db_idsI by simp
qed auto

end
