(* ===== verification/Db_Single_Use.thy ===== *)
theory Db_Single_Use
  imports Db_Steps
begin

text \<open>
  Every operation of \<open>Db_Claims\<close> keeps its contract while all the others run, and what
  follows for every interleaving: a credential is redeemed at most as often as it was issued,
  an identifier is claimed again only after its record expired, a signature counter is used
  once, and the last key of a user stays.
\<close>

section \<open>What the answers say\<close>

datatype credential =
  CodeHash string
| DeviceCode string
| SignInState string
| RequestUri string
| PendingId string
| NonceText string

definition presented :: "request \<Rightarrow> credential option" where
  "presented q =
     (case q of
        ConsumeCode h _ \<Rightarrow> Some (CodeHash h)
      | ConsumeDevice h \<Rightarrow> Some (DeviceCode h)
      | ConsumeOidc st _ \<Rightarrow> Some (SignInState st)
      | ConsumePar par _ \<Rightarrow> Some (RequestUri (pf_request_uri par))
      | ConsumePending x _ \<Rightarrow> Some (PendingId x)
      | ConsumeSignatureNonce n _ \<Rightarrow> Some (NonceText n)
      | _ \<Rightarrow> None)"

text \<open>The documents a credential names: by its index entry, its id, or its text.\<close>

definition names :: "store_cfg \<Rightarrow> credential \<Rightarrow> string \<Rightarrow> string \<times> string \<times> string \<times> timestamp option \<Rightarrow> bool" where
  "names cf c x ident =
     (case ident of (ty, key, owner, expiry) \<Rightarrow>
       (case c of
          CodeHash h \<Rightarrow> ty = ''authorization_code'' \<and> index_value_condition cf h (sc_hmac cf key)
        | DeviceCode h \<Rightarrow> ty = ''device_auth_request'' \<and> index_value_condition cf h (sc_hmac cf key)
        | SignInState st \<Rightarrow> ty = ''oidc_state'' \<and> index_value_condition cf st (sc_hmac cf key)
        | RequestUri u \<Rightarrow> ty = ''pushed_authorization_request'' \<and> index_value_condition cf u (sc_hmac cf key)
        | PendingId y \<Rightarrow> ty = ''pending_oauth_auth'' \<and> x = y
        | NonceText n \<Rightarrow> ty = ''signature_nonce'' \<and> key = n))"

definition accepted :: "response \<Rightarrow> bool" where
  "accepted r =
     (case r of
        RClaim (Inr _) \<Rightarrow> True | RApproval (Inr _) \<Rightarrow> True | ROidc (Inr _) \<Rightarrow> True | RPending (Inr _) \<Rightarrow> True
      | _ \<Rightarrow> False)"

text \<open>What an accepted answer says of the document that was redeemed for it.\<close>

definition answers :: "store_cfg \<Rightarrow> request \<Rightarrow> response \<Rightarrow> timestamp \<Rightarrow> document \<Rightarrow> bool" where
  "answers cf q r t doc =
     (case q of
        ConsumeCode _ now \<Rightarrow>
          (\<exists>d. doc = AuthorizationCode d \<and> ac_consumed_at d = None \<and> now < ac_expires_at d)
      | ConsumeDevice _ \<Rightarrow>
          (\<exists>d a. doc = DeviceAuthRequest d \<and> da_status d = DAuthorized \<and> r = RApproval (Inr a)
             \<and> state_from_stored d = StAuthorized a \<and> (\<exists>now \<le> t. now < da_expires_at d))
      | ConsumeOidc _ now \<Rightarrow>
          (\<exists>d o'. doc = OidcState d \<and> os_consumed_at d = None \<and> now < os_expires_at d \<and> r = ROidc (Inr o')
             \<and> oi_state o' = os_state d \<and> oi_nonce o' = os_nonce d \<and> oi_code_verifier o' = os_code_verifier d
             \<and> oi_provider_id o' = os_provider_id d \<and> oi_device_auth_id o' = stored_device_auth_id (os_device_auth_id d))
      | ConsumePar par now \<Rightarrow>
          (\<exists>d. doc = PushedAuthorizationRequest d \<and> par_consumed_at d = None \<and> par_client_id d = pf_client_id par
             \<and> (pf_mode par = EnforceExpiry \<longrightarrow> now < par_expires_at d))
      | ConsumePending x now \<Rightarrow>
          (\<exists>d c. doc = PendingOAuthAuth d \<and> po_consumed_at d = None \<and> now < po_expires_at d
             \<and> r = RPending (Inr (x, c, d\<lparr>po_consumed_at := Some now\<rparr>)))
      | ConsumeSignatureNonce n now \<Rightarrow>
          (\<exists>exp. doc = SignatureNonce n exp \<and> timestamp_seconds cf now < sc_text cf exp)
      | _ \<Rightarrow> True)"

definition redeemed :: "store_cfg \<Rightarrow> nat \<Rightarrow> request \<Rightarrow> response \<Rightarrow> ghost \<Rightarrow> bool" where
  "redeemed cf i q r g \<longleftrightarrow>
     (\<exists>ev \<in> set (g_retired g). ev_task ev = i \<and> ev_req ev = q \<and> answers cf q r (ev_time ev) (ev_doc ev)
        \<and> (\<forall>c. presented q = Some c \<longrightarrow> names cf c (ev_id ev) (identity (ev_doc ev))))"

text \<open>Claims by insert: the id that a request claims.\<close>

definition claimed_id :: "(string \<Rightarrow> string) \<Rightarrow> request \<Rightarrow> string option" where
  "claimed_id sha q =
     (case q of
        StoreJti j _ _ \<Rightarrow> Some (deterministic_dpop_jti_id sha j)
      | StoreAssertionJti j c _ \<Rightarrow> Some (deterministic_jti_id sha j c)
      | ConsumeChallenge w _ \<Rightarrow> Some (deterministic_challenge_state_id sha w)
      | _ \<Rightarrow> None)"

definition claim_expiry :: "request \<Rightarrow> timestamp option" where
  "claim_expiry q =
     (case q of
        StoreJti j sec v \<Rightarrow> Option.bind (from_second sec) (\<lambda>t. checked_add_secs t v)
      | StoreAssertionJti j c t \<Rightarrow> Some t
      | ConsumeChallenge w t \<Rightarrow> Some t
      | _ \<Rightarrow> None)"

definition claimed :: "(string \<Rightarrow> string) \<Rightarrow> nat \<Rightarrow> request \<Rightarrow> ghost \<Rightarrow> bool" where
  "claimed sha i q g \<longleftrightarrow>
     (\<exists>ev \<in> set (g_issued g). ev_task ev = i \<and> ev_req ev = q \<and> claimed_id sha q = Some (ev_id ev)
        \<and> insert_claim (ev_doc ev) \<and> doc_expires (ev_doc ev) = claim_expiry q)"

definition counted :: "nat \<Rightarrow> request \<Rightarrow> string \<Rightarrow> u32 \<Rightarrow> ghost \<Rightarrow> bool" where
  "counted i q x c g \<longleftrightarrow>
     (\<exists>ev \<in> set (g_written g). ev_task ev = i \<and> ev_req ev = q \<and> ev_id ev = x \<and> counter_event ev \<and> counter_of (ev_new ev) = c)"

definition approved :: "stored_approval \<Rightarrow> ghost \<Rightarrow> bool" where
  "approved a g \<longleftrightarrow>
     (\<exists>ev \<in> set (g_written g). \<exists>ps. ev_req ev = AuthorizeDevice ps \<and> ap_id ps = ev_id ev
        \<and> sa_user_id a = ap_user_id ps \<and> sa_user_email a = ap_user_email ps
        \<and> sa_authenticator_id a = ap_authenticator_id ps
        \<and> sa_verification a = hardware_of_approval (ap_verification ps))"

definition db_post ::
    "store_cfg \<Rightarrow> (string \<Rightarrow> string) \<Rightarrow> nat \<Rightarrow> request \<Rightarrow> response \<Rightarrow> db \<Rightarrow> ghost \<Rightarrow> bool" where
  "db_post cf sha i q r s g \<longleftrightarrow>
     (presented q \<noteq> None \<longrightarrow> accepted r \<longrightarrow> redeemed cf i q r g)
     \<and> (claimed_id sha q \<noteq> None \<longrightarrow> accepted r \<longrightarrow> claimed sha i q g)
     \<and> (\<forall>x c. q = CommitCounter x c \<longrightarrow> r = RCounter (Inr Committed) \<longrightarrow> c \<noteq> 0 \<longrightarrow> counted i q x c g)
     \<and> (\<forall>a. r = RApproval (Inr a) \<longrightarrow> approved a g)"

lemmas stable_ghost_intros [intro] = stable_retired stable_issued stable_written

lemma stable_redeemed [intro]: "db_stable cf sha (\<lambda>s g. redeemed cf i q r g)"
  unfolding redeemed_def by (rule stable_retired)

lemma stable_claimed [intro]: "db_stable cf sha (\<lambda>s g. claimed sha i q g)"
  unfolding claimed_def by (rule stable_issued)

lemma stable_counted [intro]: "db_stable cf sha (\<lambda>s g. counted i q x c g)"
  unfolding counted_def by (rule stable_written)

lemma stable_approved [intro]: "db_stable cf sha (\<lambda>s g. approved a g)"
  unfolding approved_def by (rule stable_written)

section \<open>Every operation keeps the contract\<close>

lemma redeemed_replaced:
  assumes "db_wf cf sha s'" and "replaced i q x d d' e s s' g" and "\<not> spent d" and "spent d'"
    and "answers cf q r (e_now e) d" and "\<And>c. presented q = Some c \<Longrightarrow> names cf c x (identity d)"
  shows "redeemed cf i q r (observe i q e s s' g)"
  unfolding redeemed_def
  by (rule bexE [OF replaced_retired [OF assms(1-4)]]) (rule bexI, use assms(5,6) in auto)

lemma keeps_claim_cas:
  assumes iv: "db_inv cf sha s g" and sn: "seen sha T doc s g"
    and legal: "legal_write q (st_id doc) (dt_inj T (st_data doc)) (dt_inj T x)"
    and sp: "\<not> spent (dt_inj T (st_data doc))" "spent (dt_inj T x)"
    and an: "\<And>t. answers cf q (R (Inr v)) t (dt_inj T (st_data doc))"
    and nm: "\<And>c. presented q = Some c \<Longrightarrow> names cf c (st_id doc) (identity (dt_inj T (st_data doc)))"
  shows "keeps_db cf sha i q (ok_post (\<lambda>v s g. redeemed cf i q (R (Inr v)) g))
    (bind_claim (compare_and_update cf T (st_id doc) (st_version doc) x)
       (\<lambda>won. Ret (if won then Inr v else Inl AlreadyConsumed))) s g"
proof (rule keeps_bind_claim [OF _ iv])
  show "keeps_db cf sha i q (ok_post (\<lambda>won s g. won \<longrightarrow> redeemed cf i q (R (Inr v)) g))
      (compare_and_update cf T (st_id doc) (st_version doc) x) s g"
  proof (rule keeps_cas [OF iv sn, of "\<lambda>_ _. True"])
    fix e s g s'
    assume "db_wf cf sha s'" "replaced i q (st_id doc) (dt_inj T (st_data doc)) (dt_inj T x) e s s' g"
    then show "redeemed cf i q (R (Inr v)) (observe i q e s s' g)"
      using redeemed_replaced sp an nm by blast
  qed (use legal in auto)
  fix won s g assume "won \<longrightarrow> redeemed cf i q (R (Inr v)) g" "db_inv cf sha s g"
  then show "keeps_db cf sha i q (ok_post (\<lambda>v s g. redeemed cf i q (R (Inr v)) g)) (Ret (if won then Inr v else Inl AlreadyConsumed)) s g"
    by (auto intro!: keeps_ret_ok)
qed

lemma keeps_insert_then:
  assumes iv: "db_inv cf sha s g"
    and d: "\<And>y. y \<notin> range sha \<Longrightarrow> id_fits sha y (dt_inj T x)" "\<not> spent (dt_inj T x)"
      "\<forall>y. dt_inj T x = DeviceAuthRequest y \<longrightarrow> da_status y = DPending"
  shows "keeps_db cf sha i q (ok_post (\<lambda>_ _ _. True)) (bind_ok (store_insert cf T x) (\<lambda>st. Ret (Inr (f st)))) s g"
  by (rule keeps_bind_ok [OF keeps_insert [OF iv d] iv]) (auto intro!: keeps_ret_ok)

lemma dt_inj_simps [simp]:
  "dt_inj code_type d1 = AuthorizationCode d1" "dt_inj device_type d2 = DeviceAuthRequest d2"
  "dt_inj oidc_type d3 = OidcState d3" "dt_inj par_type d4 = PushedAuthorizationRequest d4"
  "dt_inj pending_type d5 = PendingOAuthAuth d5" "dt_inj authenticator_type d6 = Authenticator d6"
  "dt_inj dpop_nonce_type (n, t) = DpopNonce n t" "dt_inj sig_nonce_type (n, t) = SignatureNonce n t"
  "dt_inj dpop_jti_type (n, t) = DpopJti n t" "dt_inj assertion_jti_type (n, c, t) = JwtAssertionJti n c t"
  "dt_inj challenge_type t = ChallengeState t" "dt_inj (raw_type ty) d = d"
  by (simp_all add: code_type_def device_type_def oidc_type_def par_type_def pending_type_def authenticator_type_def
      dpop_nonce_type_def sig_nonce_type_def dpop_jti_type_def assertion_jti_type_def challenge_type_def raw_type_def)

lemmas redeem_simps = legal_write_def spent_def answers_def presented_def names_def identity_def matches_def not_le

abbreviation quiet :: "'a \<Rightarrow> db \<Rightarrow> ghost \<Rightarrow> bool" where
  "quiet \<equiv> \<lambda>_ _ _. True"

lemma keeps_store_code:
  assumes iv: "db_inv cf sha s g"
  shows "keeps_db cf sha i q (ok_post quiet) (store_authorization_code cf h c u t d) s g"
  unfolding store_authorization_code_def
  by (rule keeps_insert_then [OF iv]) (simp_all add: id_fits_def spent_def)

lemma keeps_consume_code:
  assumes iv: "db_inv cf sha s g" and q: "q = ConsumeCode h now"
  shows "keeps_db cf sha i q (ok_post (\<lambda>v s g. redeemed cf i q (RClaim (Inr v)) g)) (try_consume_authorization_code cf h now) s g"
  unfolding try_consume_authorization_code_def
proof (rule keeps_bind_claim [OF keeps_find_one [OF plain_types(1) iv] iv], goal_cases)
  case (1 doc s g)
  show ?case
  proof (cases doc)
    case (Some d)
    have d: "seen sha code_type d s g" "matches cf ''code_hash'' h (AuthorizationCode (st_data d))"
      using 1(1) Some by simp_all
    show ?thesis
    proof (cases "ac_consumed_at (st_data d) \<noteq> None \<or> ac_expires_at (st_data d) \<le> now")
      case False
      show ?thesis
        unfolding Some option.case if_not_P [OF False]
        by (rule keeps_claim_cas [where R = RClaim, OF 1(2) d(1)]) (use d(2) False q in \<open>auto simp: redeem_simps\<close>)
    qed (simp add: Some)
  qed auto
qed

lemma keeps_code_details:
  assumes iv: "db_inv cf sha s g"
  shows "keeps_db cf sha i q (ok_post quiet) (get_authorization_code_details cf h) s g"
  unfolding get_authorization_code_details_def
  by (rule keeps_bind_ok [OF keeps_find_one [OF plain_types(1) iv] iv]) (auto intro!: keeps_ret_ok)

lemma keeps_create_device:
  assumes iv: "db_inv cf sha s g"
  shows "keeps_db cf sha i q (ok_post quiet) (create_device_auth_request cf h uc c t iv') s g"
  unfolding create_device_auth_request_def
  by (rule keeps_insert_then [OF iv]) (auto simp: id_fits_def spent_def)

lemma keeps_device_reads:
  assumes iv: "db_inv cf sha s g"
  shows "keeps_db cf sha i q (ok_post quiet) (get_device_auth_by_code_hash cf h) s g"
    and "keeps_db cf sha i q (ok_post quiet) (get_device_auth_by_user_code cf uc) s g"
    and "keeps_db cf sha i q (ok_post quiet) (get_device_auth_by_id x) s g"
proof -
  show "keeps_db cf sha i q (ok_post quiet) (get_device_auth_by_code_hash cf h) s g"
    unfolding get_device_auth_by_code_hash_def
    by (rule keeps_bind_ok [OF keeps_find_one [OF plain_types(2) iv] iv]) (auto intro!: keeps_ret_ok)
  show "keeps_db cf sha i q (ok_post quiet) (get_device_auth_by_user_code cf uc) s g"
    unfolding get_device_auth_by_user_code_def
    by (rule keeps_bind_ok [OF keeps_find_one [OF plain_types(2) iv] iv]) (auto intro!: keeps_ret_ok)
  show "keeps_db cf sha i q (ok_post quiet) (get_device_auth_by_id x) s g"
    unfolding get_device_auth_by_id_def
    by (rule keeps_bind_ok [OF keeps_get [OF plain_types(2) iv] iv]) (auto intro!: keeps_ret_ok)
qed

lemma decide_authorize_legal:
  assumes "decide_authorize ps now d = Inr (a, d')"
  shows "legal_write (AuthorizeDevice ps) (ap_id ps) (DeviceAuthRequest d) (DeviceAuthRequest d')"
  using assms by (auto simp: decide_authorize_def Let_def legal_write_def approved_by_def split: if_splits)

lemma keeps_authorize:
  assumes iv: "db_inv cf sha s g" and q: "q = AuthorizeDevice ps"
  shows "keeps_db cf sha i q (ok_post quiet) (authorize_device_auth cf ps) s g"
proof (cases "ap_id ps = []")
  case True
  then show ?thesis by (simp add: authorize_device_auth_def)
next
  case False
  have k: "keeps_db cf sha i q (ok_post (\<lambda>t s g. case t of Applied a \<Rightarrow> True | _ \<Rightarrow> True))
      (store_transition cf device_type (ap_id ps) (decide_authorize ps)) s g"
    by (rule keeps_transition [where W = quiet and A = "\<lambda>_ _. True", OF plain_types(2) _ _ _ _ iv]) (use decide_authorize_legal q in auto)
  have "keeps_db cf sha i q (ok_post quiet)
      (case r of Inl er \<Rightarrow> Ret (Inl (OtherError ''concurrently modified after retries''))
       | Inr (Applied u) \<Rightarrow> Ret (Inr ())
       | Inr (Rejected status) \<Rightarrow> Ret (Inl (OtherError ''already has status''))
       | Inr NotFound \<Rightarrow> Ret (Inl (OtherError ''no device auth request found''))) s g"
    if "db_inv cf sha s g" for r s g
    using that by (auto intro!: keeps_ret_ok split: sum.splits transition.splits)
  then show ?thesis
    unfolding authorize_device_auth_def if_not_P [OF False] by (rule keeps_plain_bind [OF k iv])
qed

lemma state_from_stored_authorized:
  assumes "state_from_stored d = StAuthorized a"
  shows "da_status d = DAuthorized" and "approved_by ps d \<Longrightarrow>
    sa_user_id a = ap_user_id ps \<and> sa_user_email a = ap_user_email ps \<and> sa_authenticator_id a = ap_authenticator_id ps
    \<and> sa_verification a = hardware_of_approval (ap_verification ps)"
proof -
  show "da_status d = DAuthorized"
    using assms by (auto simp: state_from_stored_def split: device_auth_status.splits option.splits)
  then show "approved_by ps d \<Longrightarrow> sa_user_id a = ap_user_id ps \<and> sa_user_email a = ap_user_email ps
      \<and> sa_authenticator_id a = ap_authenticator_id ps \<and> sa_verification a = hardware_of_approval (ap_verification ps)"
    using assms by (cases "ap_verification ps")
      (auto simp: state_from_stored_def approved_by_def hardware_verified_def authenticated_at_def)
qed

lemma decide_consume_device_some:
  assumes "decide_consume_device now d = Inr (a, d')"
  shows "state_from_stored d = StAuthorized a" and "now < da_expires_at d" and "d' = d\<lparr>da_status := DConsumed, da_consumed_at := Some now\<rparr>"
  using assms by (auto simp: decide_consume_device_def split: device_auth_state.splits if_splits)

lemma approved_row:
  assumes iv: "db_inv cf sha s g" and r: "r \<in> set (db_rows s)" "row_data r = DeviceAuthRequest d"
    and st: "state_from_stored d = StAuthorized a" and sub: "set (g_written g) \<subseteq> set (g_written g')"
  shows "approved a g'"
proof -
  have "inv_device s g" using iv by (simp add: db_inv_def)
  then obtain ev ps where ev: "ev \<in> set (g_written g)" "ev_id ev = row_id r" "ev_req ev = AuthorizeDevice ps" "ap_id ps = row_id r"
    and ap: "approved_by ps d"
    using r state_from_stored_authorized(1) [OF st] unfolding inv_device_def by blast
  show ?thesis
    unfolding approved_def
    by (rule bexI [of _ ev], rule exI [of _ ps]) (use ev sub state_from_stored_authorized(2) [OF st ap] in auto)
qed

lemma keeps_consume_device:
  assumes iv: "db_inv cf sha s g" and q: "q = ConsumeDevice h"
  shows "keeps_db cf sha i q (ok_post (\<lambda>a s g. redeemed cf i q (RApproval (Inr a)) g \<and> approved a g)) (try_consume_device_auth cf h) s g"
  unfolding try_consume_device_auth_def
proof (rule keeps_bind_claim [OF keeps_find_one_at [OF plain_types(2) iv] iv], clarify)
  let ?W = "\<lambda>a s g. redeemed cf i q (RApproval (Inr a)) g \<and> approved a g"
  fix doc now s g
  assume f: "found sha device_type (\<lambda>d _. matches cf ''device_code_hash'' h d) doc s g" and iv: "db_inv cf sha s g"
  have main: "keeps_db cf sha i q (ok_post ?W)
      (bind_claim (store_transition cf device_type (st_id d) decide_consume_device) (\<lambda>t.
         Ret (case t of Applied approval \<Rightarrow> Inr approval | Rejected _ \<Rightarrow> Inl AlreadyConsumed | NotFound \<Rightarrow> Inl AlreadyConsumed))) s g"
    if doc: "doc = Some d" for d
  proof (rule keeps_bind_claim [OF keeps_transition [where A = "seen sha device_type d" and W = ?W] iv], goal_cases)
    case (2 now x a x')
    then show ?case by (auto dest!: decide_consume_device_some simp: legal_write_def state_from_stored_authorized)
  next
    case (3 e s g s' now x a x')
    note x = decide_consume_device_some [OF 3(5)] and sa = state_from_stored_authorized(1)
    obtain r where r: "r \<in> set (db_rows s)" "row_id r = st_id d" "row_data r = DeviceAuthRequest x"
      using 3(7) by (auto simp: replaced_def)
    have "identity (DeviceAuthRequest x) = identity (DeviceAuthRequest (st_data d))"
      using 3(2) r by (force simp: seen_def)
    moreover have "matches cf ''device_code_hash'' h (DeviceAuthRequest (st_data d))" using f doc by simp
    ultimately have "names cf (DeviceCode h) (st_id d) (identity (DeviceAuthRequest x))"
      by (auto simp: names_def identity_def matches_def entry_if_def split: option.splits)
    moreover have "answers cf q (RApproval (Inr a)) (e_now e) (DeviceAuthRequest x)"
      using x(1,2) sa [OF x(1)] 3(6) q by (auto simp: answers_def)
    moreover have "\<not> spent (DeviceAuthRequest x)" "spent (DeviceAuthRequest x')"
      using sa [OF x(1)] x(3) by (simp_all add: spent_def)
    ultimately have "redeemed cf i q (RApproval (Inr a)) (observe i q e s s' g)"
      using redeemed_replaced [OF 3(4,7)] q by (simp add: presented_def)
    moreover have "approved a (observe i q e s s' g)" by (rule approved_row [OF 3(1) r(1,3) x(1)]) simp
    ultimately show ?case by simp
  qed (use f doc iv in \<open>auto intro!: keeps_ret_ok split: transition.splits\<close>)
  show "keeps_db cf sha i q (ok_post ?W)
      (case doc of None \<Rightarrow> Ret (Inl AlreadyConsumed)
       | Some doc \<Rightarrow>
           if (case state_from_stored (st_data doc) of StAuthorized _ \<Rightarrow> False | _ \<Rightarrow> True) \<or> da_expires_at (st_data doc) \<le> now
           then Ret (Inl AlreadyConsumed)
           else bind_claim (store_transition cf device_type (st_id doc) decide_consume_device) (\<lambda>t.
             Ret (case t of Applied approval \<Rightarrow> Inr approval | Rejected _ \<Rightarrow> Inl AlreadyConsumed | NotFound \<Rightarrow> Inl AlreadyConsumed))) s g"
    using main by (cases doc) auto
qed

lemma keeps_poll:
  assumes iv: "db_inv cf sha s g"
  shows "keeps_db cf sha i q (ok_post quiet) (update_device_auth_poll_time cf x iv' now) s g"
  unfolding update_device_auth_poll_time_def
proof (rule keeps_bind_ok [OF keeps_get [OF plain_types(2) iv] iv], goal_cases)
  case (1 doc s g)
  have "keeps_db cf sha i q (ok_post quiet)
      (bind_ok (compare_and_update cf device_type x (st_version d) ((st_data d)\<lparr>da_last_poll_at := Some now\<rparr>)) (\<lambda>_. Ret (Inr True))) s g"
    if "doc = Some d" for d
  proof (rule keeps_bind_ok [OF _ 1(2)])
    have d: "seen sha device_type d s g" "st_id d = x" using 1(1) that by simp_all
    show "keeps_db cf sha i q (ok_post (\<lambda>won s g. won \<longrightarrow> True))
        (compare_and_update cf device_type x (st_version d) ((st_data d)\<lparr>da_last_poll_at := Some now\<rparr>)) s g"
      unfolding d(2) [symmetric]
      by (rule keeps_cas [OF 1(2) d(1), of "\<lambda>_ _. True"]) (auto simp: legal_write_def same_approval_def)
  qed (auto intro!: keeps_ret_ok)
  then show ?case using 1(2) by (cases doc) (auto intro!: keeps_ret_ok)
qed

lemma keeps_create_oidc:
  assumes iv: "db_inv cf sha s g"
  shows "keeps_db cf sha i q (ok_post quiet) (create_oidc_state cf st d n v t p) s g"
  unfolding create_oidc_state_def
  by (rule keeps_insert_then [OF iv]) (simp_all add: id_fits_def spent_def)

lemma keeps_consume_oidc:
  assumes iv: "db_inv cf sha s g" and q: "q = ConsumeOidc st now"
  shows "keeps_db cf sha i q (ok_post (\<lambda>v s g. redeemed cf i q (ROidc (Inr v)) g)) (try_consume_oidc_state cf st now) s g"
  unfolding try_consume_oidc_state_def Let_def
proof (rule keeps_bind_claim [OF keeps_find_one [OF plain_types(3) iv] iv], goal_cases)
  case (1 doc s g)
  show ?case
  proof (cases doc)
    case (Some d)
    have d: "seen sha oidc_type d s g" "matches cf ''state'' st (OidcState (st_data d))"
      using 1(1) Some by simp_all
    show ?thesis
    proof (cases "os_consumed_at (st_data d) \<noteq> None \<or> os_expires_at (st_data d) \<le> now")
      case False
      show ?thesis
        unfolding Some option.case if_not_P [OF False]
        by (rule keeps_claim_cas [where R = ROidc, OF 1(2) d(1)]) (use d(2) False q in \<open>auto simp: redeem_simps\<close>)
    qed (simp add: Some)
  qed auto
qed

lemma keeps_create_par:
  assumes iv: "db_inv cf sha s g"
  shows "keeps_db cf sha i q (ok_post quiet) (create_pushed_authorization_request cf ps) s g"
  unfolding create_pushed_authorization_request_def
proof (rule keeps_plain_bind [OF _ iv])
  show "keeps_db cf sha i q quiet (Act (\<lambda>e s. (Ret (generate_request_uri (e_random e), e_now e), s))) s g"
    by (rule keeps_step [OF iv, of "\<lambda>_ _. True"]) (use db_moves_refl inv_wf in auto)
  fix r :: "string \<times> timestamp" and s g assume iv: "db_inv cf sha s g"
  show "keeps_db cf sha i q (ok_post quiet)
     (case r of (request_uri, now) \<Rightarrow>
       case checked_add_secs now PAR_EXPIRES_IN of
         None \<Rightarrow> Ret (Inl (OtherError ''Time calculation overflow computing PAR expiration''))
       | Some expires_at \<Rightarrow>
           bind_ok (store_insert cf par_type (par_doc ps request_uri expires_at))
             (\<lambda>result. Ret (Inr (st_id result, request_uri)))) s g"
    by (auto split: prod.splits option.splits simp: id_fits_def spent_def par_doc_def intro!: keeps_insert_then [OF iv])
qed

lemma keeps_get_par:
  assumes iv: "db_inv cf sha s g"
  shows "keeps_db cf sha i q (ok_post quiet) (get_pushed_authorization_request cf u c now) s g"
  unfolding get_pushed_authorization_request_def
  by (rule keeps_bind_ok [OF keeps_find_one [OF plain_types(4) iv] iv]) (auto intro!: keeps_ret_ok)

lemma keeps_consume_par:
  assumes iv: "db_inv cf sha s g" and q: "q = ConsumePar par now"
  shows "keeps_db cf sha i q (ok_post (\<lambda>v s g. redeemed cf i q (RClaim (Inr v)) g)) (par_consume cf par now) s g"
  unfolding par_consume_def
proof (rule keeps_bind_claim [OF keeps_find_one [OF plain_types(4) iv] iv], goal_cases)
  case (1 doc s g)
  show ?case
  proof (cases doc)
    case (Some d)
    have d: "seen sha par_type d s g" "matches cf ''request_uri'' (pf_request_uri par) (PushedAuthorizationRequest (st_data d))"
      using 1(1) Some by simp_all
    let ?no = "par_client_id (st_data d) \<noteq> pf_client_id par \<or> par_consumed_at (st_data d) \<noteq> None"
    let ?late = "pf_mode par = EnforceExpiry \<and> par_expires_at (st_data d) \<le> now"
    consider ?no | "\<not> ?no" ?late | (ok) "\<not> ?no" "\<not> ?late" by blast
    then show ?thesis
    proof cases
      case ok
      show ?thesis
        unfolding Some option.case if_not_P [OF ok(1)] if_not_P [OF ok(2)]
        by (rule keeps_claim_cas [where R = RClaim, OF 1(2) d(1)]) (use d(2) ok q in \<open>auto simp: redeem_simps\<close>)
    qed (simp_all add: Some)
  qed auto
qed

lemma keeps_extend_par:
  assumes iv: "db_inv cf sha s g"
  shows "keeps_db cf sha i q (ok_post quiet) (extend_par_expiration cf u c ttl) s g"
  unfolding extend_par_expiration_def
proof (rule keeps_bind_ok [OF keeps_find_one_at [OF plain_types(4) iv] iv], clarify)
  fix doc now s g
  assume f: "found sha par_type (\<lambda>d _. matches cf ''request_uri'' u d) doc s g" and iv: "db_inv cf sha s g"
  have "keeps_db cf sha i q (ok_post quiet)
      (bind_ok (compare_and_update cf par_type (st_id d) (st_version d) ((st_data d)\<lparr>par_expires_at := t\<rparr>)) (\<lambda>_. Ret (Inr ()))) s g"
    if "doc = Some d" for d t
  proof (rule keeps_bind_ok [OF _ iv])
    have d: "seen sha par_type d s g" using f that by simp
    show "keeps_db cf sha i q (ok_post (\<lambda>won s g. won \<longrightarrow> True))
        (compare_and_update cf par_type (st_id d) (st_version d) ((st_data d)\<lparr>par_expires_at := t\<rparr>)) s g"
      by (rule keeps_cas [OF iv d(1), of "\<lambda>_ _. True"]) (auto simp: legal_write_def)
  qed (auto intro!: keeps_ret_ok)
  then show "keeps_db cf sha i q (ok_post quiet)
     (case doc of None \<Rightarrow> Ret (Inr ())
      | Some doc \<Rightarrow>
           if par_client_id (st_data doc) \<noteq> c \<or> par_consumed_at (st_data doc) \<noteq> None then Ret (Inr ())
           else (case checked_add_secs now ttl of
              None \<Rightarrow> Ret (Inl (OtherError ''Time calculation overflow extending PAR expiration''))
            | Some new_expires_at \<Rightarrow>
                bind_ok (compare_and_update cf par_type (st_id doc) (st_version doc)
                    ((st_data doc)\<lparr>par_expires_at := new_expires_at\<rparr>)) (\<lambda>_. Ret (Inr ())))) s g"
    using iv by (cases doc) (auto intro!: keeps_ret_ok split: option.splits)
qed

lemma keeps_create_pending:
  assumes iv: "db_inv cf sha s g"
  shows "keeps_db cf sha i q (ok_post quiet) (create_pending_oauth_authorization cf ps) s g"
  unfolding create_pending_oauth_authorization_def
proof (rule keeps_plain_bind [OF keeps_clock [OF iv] iv])
  fix now s g assume iv: "db_inv cf sha s g"
  show "keeps_db cf sha i q (ok_post quiet)
     (case checked_add_secs now (10 * 60) of
         None \<Rightarrow> Ret (Inl (OtherError ''Time calculation overflow computing expiration''))
       | Some expires_at \<Rightarrow>
           bind_ok (store_insert cf pending_type (pending_doc ps expires_at)) (\<lambda>result. Ret (Inr (st_id result)))) s g"
    by (auto split: option.splits simp: id_fits_def spent_def pending_doc_def intro!: keeps_insert_then [OF iv])
qed

lemma keeps_get_pending:
  assumes iv: "db_inv cf sha s g"
  shows "keeps_db cf sha i q (ok_post quiet) (get_pending_oauth_authorization x now) s g"
  unfolding get_pending_oauth_authorization_def
  by (rule keeps_bind_ok [OF keeps_get [OF plain_types(5) iv] iv]) (auto intro!: keeps_ret_ok)

lemma keeps_consume_pending:
  assumes iv: "db_inv cf sha s g" and q: "q = ConsumePending x now"
  shows "keeps_db cf sha i q (ok_post (\<lambda>v s g. redeemed cf i q (RPending (Inr v)) g)) (consume_pending_oauth_authorization cf x now) s g"
  unfolding consume_pending_oauth_authorization_def Let_def
proof (rule keeps_bind_claim [OF keeps_get [OF plain_types(5) iv] iv], goal_cases)
  case (1 doc s g)
  show ?case
  proof (cases doc)
    case (Some d)
    have d: "seen sha pending_type d s g" "st_id d = x" using 1(1) Some by simp_all
    show ?thesis
    proof (cases "po_consumed_at (st_data d) \<noteq> None \<or> po_expires_at (st_data d) \<le> now")
      case False
      have "keeps_db cf sha i q (ok_post (\<lambda>v s g. redeemed cf i q (RPending (Inr v)) g))
          (bind_claim (compare_and_update cf pending_type (st_id d) (st_version d) ((st_data d)\<lparr>po_consumed_at := Some now\<rparr>))
             (\<lambda>won. Ret (if won then Inr (x, st_created d, (st_data d)\<lparr>po_consumed_at := Some now\<rparr>) else Inl AlreadyConsumed))) s g"
        by (rule keeps_claim_cas [where R = RPending, OF 1(2) d(1)]) (use d(2) False q in \<open>auto simp: redeem_simps\<close>)
      then show ?thesis unfolding Some option.case if_not_P [OF False] d(2) .
    qed (simp add: Some)
  qed auto
qed

lemma keeps_new_nonce:
  assumes iv: "db_inv cf sha s g"
  shows "keeps_db cf sha i q (ok_post quiet) (new_nonce v) s g"
  unfolding new_nonce_def
proof (rule keeps_step [OF iv, of "\<lambda>_ _. True"], goal_cases)
  case (3 e s g p s')
  then show ?case using db_moves_refl [OF inv_wf [OF 3(2)]] by (auto split: option.splits)
qed auto

lemma keeps_generate_nonce:
  assumes iv: "db_inv cf sha s g"
  shows "keeps_db cf sha i q (ok_post quiet) (generate_dpop_nonce cf sha v) s g"
    and "keeps_db cf sha i q (ok_post quiet) (generate_signature_nonce cf sha v) s g"
proof -
  have ids: "deterministic_dpop_nonce_id sha n \<in> range sha" "deterministic_signature_nonce_id sha n \<in> range sha" for n
    by (simp_all add: deterministic_dpop_nonce_id_def deterministic_signature_nonce_id_def deterministic_nonce_id_def)
  show "keeps_db cf sha i q (ok_post quiet) (generate_dpop_nonce cf sha v) s g"
    unfolding generate_dpop_nonce_def
  proof (rule keeps_bind_ok [OF keeps_new_nonce [OF iv] iv], clarify)
    fix n t s g assume iv: "db_inv cf sha s g"
    show "keeps_db cf sha i q (ok_post quiet)
        (bind_ok (insert_with_id cf dpop_nonce_type (deterministic_dpop_nonce_id sha n) (n, t)) (\<lambda>_. Ret (Inr n))) s g"
      by (rule keeps_bind_ok [OF keeps_insert_with_id [OF iv ids(1)] iv])
        (auto intro!: keeps_ret_ok simp: id_fits_def spent_def)
  qed
  show "keeps_db cf sha i q (ok_post quiet) (generate_signature_nonce cf sha v) s g"
    unfolding generate_signature_nonce_def
  proof (rule keeps_bind_ok [OF keeps_new_nonce [OF iv] iv], clarify)
    fix n t s g assume iv: "db_inv cf sha s g"
    show "keeps_db cf sha i q (ok_post quiet)
        (bind_ok (insert_with_id cf sig_nonce_type (deterministic_signature_nonce_id sha n) (n, t)) (\<lambda>_. Ret (Inr n))) s g"
      by (rule keeps_bind_ok [OF keeps_insert_with_id [OF iv ids(2)] iv])
        (auto intro!: keeps_ret_ok simp: id_fits_def spent_def)
  qed
qed

lemma keeps_check_nonce:
  assumes iv: "db_inv cf sha s g"
  shows "keeps_db cf sha i q (ok_post quiet) (validate_dpop_nonce sha n now) s g"
  unfolding validate_dpop_nonce_def
proof (rule keeps_bind_claim [OF _ iv])
  show "keeps_db cf sha i q (ok_post quiet) (store_get dpop_nonce_type (deterministic_dpop_nonce_id sha n)) s g"
    unfolding store_get_def by (rule keeps_read [OF iv, of "\<lambda>_ _. True"]) auto
qed (rule keeps_ret, auto simp: ok_post_def split: sum.splits option.splits if_splits)

text \<open>Derived ids of different kinds differ, and a kind's ids differ with its text.\<close>

lemma nonce_row:
  assumes "inj sha" and "row_wf sha r" and "row_id r = deterministic_signature_nonce_id sha n"
  shows "\<exists>t. row_data r = SignatureNonce n t"
proof -
  have "id_fits sha (row_id r) (row_data r)" using assms(2) by (simp add: row_wf_def)
  moreover have "row_id r \<in> range sha"
    using assms(3) by (simp add: deterministic_signature_nonce_id_def deterministic_nonce_id_def)
  ultimately show ?thesis
    using assms(1,3)
    by (cases "row_data r")
      (auto simp: id_fits_def deterministic_signature_nonce_id_def deterministic_dpop_nonce_id_def deterministic_nonce_id_def
        deterministic_dpop_jti_id_def deterministic_jti_id_def deterministic_challenge_state_id_def dest!: injD)
qed

lemma keeps_consume_nonce:
  assumes iv: "db_inv cf sha s g" and q: "q = ConsumeSignatureNonce n now"
  shows "keeps_db cf sha i q (ok_post (\<lambda>v s g. redeemed cf i q (RClaim (Inr v)) g)) (validate_and_consume_signature_nonce cf sha n now) s g"
  unfolding validate_and_consume_signature_nonce_def
proof (rule keeps_bind_claim [OF _ iv])
  let ?x = "deterministic_signature_nonce_id sha n"
  let ?W = "\<lambda>won s g. won \<longrightarrow> redeemed cf i q (RClaim (Inr ())) g"
  show "keeps_db cf sha i q (ok_post ?W) (delete_if_not_expired cf ?x now) s g"
    unfolding delete_if_not_expired_def
  proof (rule keeps_tx_retry [OF iv, of "\<lambda>_ _. True"], goal_cases)
    case (3 e s g won s')
    have wf: "db_wf cf sha s" by (rule inv_wf [OF 3(2)])
    have d: "delete_if_not_expired_stmt cf ?x now s = (won, s')" using 3(4) by simp
    note st = delete_if_not_expired_state [OF wf d]
    show ?case
    proof (cases won)
      case False
      then show ?thesis using st(3) db_moves_refl [OF wf] by simp
    next
      case True
      then have s': "s' = without_rows {?x} s" using st(1) by simp
      obtain r where r: "r \<in> set (db_rows s)" "row_id r = ?x" "expires_after cf now r" using st(2) True by blast
      have "inj sha" using 3(3) by (simp add: db_env_ok_def)
      then obtain t where t: "row_data r = SignatureNonce n t" using nonce_row [OF _ db_wf_row [OF wf r(1)] r(2)] by blast
      have one: "a = r" if "a \<in> set (db_rows s)" "row_id a = ?x" for a using db_wf_same [OF wf r(1)] that r(2) by simp
      have m: "db_moves cf sha q e s s'"
        unfolding s' by (rule without_rows_moves [OF wf]) (use one t in \<open>auto simp: insert_claim_def\<close>)
      have k: "keys_kept s s'"
        by (rule keys_kept_if_present [OF m]) (use one t db_idsI in \<open>force simp: s'\<close>)
      have "\<not> lives_on s' r" by (auto simp: lives_on_def s' r(2))
      then have "r \<in> set (retired_rows s s')" using r(1) t by (simp add: retired_rows_def spent_def)
      note ev = retired_new [OF this, of i q e g]
      have "row_expires r = Some t" using db_wf_row [OF wf r(1)] t by (simp add: row_wf_def)
      then have "timestamp_seconds cf now < sc_text cf t" using r(3) by (simp add: expires_after_def)
      then have "redeemed cf i q (RClaim (Inr ())) (observe i q e s s' g)"
        unfolding redeemed_def
        by (intro bexI [OF _ ev]) (simp add: q t answers_def presented_def names_def identity_def)
      then show ?thesis using m k by simp
    qed
  qed auto
  fix won s g assume "?W won s g" "db_inv cf sha s g"
  then show "keeps_db cf sha i q (ok_post (\<lambda>v s g. redeemed cf i q (RClaim (Inr v)) g)) (Ret (if won then Inr () else Inl AlreadyConsumed)) s g"
    by (cases won) (auto intro!: keeps_ret_ok)
qed

lemma keeps_claim_by_insert:
  assumes iv: "db_inv cf sha s g" and did: "did \<in> range sha" and d: "id_fits sha did (dt_inj T x)" "insert_claim (dt_inj T x)"
    and c: "claimed_id sha q = Some did" "doc_expires (dt_inj T x) = claim_expiry q"
  shows "keeps_db cf sha i q (ok_post (\<lambda>_ s g. claimed sha i q g)) (claim_by_insert cf T did x) s g"
  unfolding claim_by_insert_def
proof (rule keeps_plain_bind [OF keeps_insert_with_id [OF iv did d(1)] iv])
  show "\<not> spent (dt_inj T x)" "\<forall>y. dt_inj T x = DeviceAuthRequest y \<longrightarrow> da_status y = DPending"
    using d(2) by (auto simp: insert_claim_def spent_def split: document.splits)
  fix r :: "db_error + 'a stored" and s g
  assume r: "ok_post (\<lambda>_ s g. issued_by i q did (dt_inj T x) g) r s g" and iv: "db_inv cf sha s g"
  have "claimed sha i q g" if "r = Inr a" for a
    using r that c d(2) by (auto simp: issued_by_def claimed_def)
  then show "keeps_db cf sha i q (ok_post (\<lambda>_ s g. claimed sha i q g))
     (Ret (case r of Inl er \<Rightarrow> if is_unique_violation er then Inl AlreadyConsumed else Inl (Database er) | Inr _ \<Rightarrow> Inr ())) s g"
    by (cases r) (auto intro!: keeps_ret_ok [OF iv])
qed

lemma keeps_store_jti:
  assumes iv: "db_inv cf sha s g" and q: "q = StoreJti j sec v"
  shows "keeps_db cf sha i q (ok_post (\<lambda>_ s g. claimed sha i q g)) (check_and_store_dpop_jti_at_second cf sha j sec v) s g"
proof (cases "Option.bind (from_second sec) (\<lambda>t. checked_add_secs t v)")
  case None
  then show ?thesis by (simp add: check_and_store_dpop_jti_at_second_def)
next
  case (Some t)
  have "keeps_db cf sha i q (ok_post (\<lambda>_ s g. claimed sha i q g))
      (claim_by_insert cf dpop_jti_type (deterministic_dpop_jti_id sha j) (j, t)) s g"
    by (rule keeps_claim_by_insert [OF iv])
      (use Some q in \<open>auto simp: deterministic_dpop_jti_id_def id_fits_def insert_claim_def claimed_id_def claim_expiry_def\<close>)
  then show ?thesis by (simp add: check_and_store_dpop_jti_at_second_def store_dpop_jti_with_expiry_def Some)
qed

lemma keeps_store_assertion:
  assumes iv: "db_inv cf sha s g" and q: "q = StoreAssertionJti j c t"
  shows "keeps_db cf sha i q (ok_post (\<lambda>_ s g. claimed sha i q g)) (store_jwt_assertion_jti cf sha j c t) s g"
proof -
  have "keeps_db cf sha i q (ok_post (\<lambda>_ s g. claimed sha i q g))
      (claim_by_insert cf assertion_jti_type (deterministic_jti_id sha j c) (j, c, t)) s g" if "CHR 0x00 \<notin> set j"
    by (rule keeps_claim_by_insert [OF iv])
      (use that q in \<open>auto simp: deterministic_jti_id_def id_fits_def insert_claim_def claimed_id_def claim_expiry_def\<close>)
  then show ?thesis by (simp add: store_jwt_assertion_jti_def)
qed

lemma keeps_consume_challenge:
  assumes iv: "db_inv cf sha s g" and q: "q = ConsumeChallenge w t"
  shows "keeps_db cf sha i q (ok_post (\<lambda>_ s g. claimed sha i q g)) (try_consume_challenge_state cf sha w t) s g"
  unfolding try_consume_challenge_state_def
  by (rule keeps_claim_by_insert [OF iv])
    (use q in \<open>auto simp: deterministic_challenge_state_id_def id_fits_def insert_claim_def claimed_id_def claim_expiry_def\<close>)

lemma keeps_create_key:
  assumes iv: "db_inv cf sha s g"
  shows "keeps_db cf sha i q (ok_post quiet) (create_authenticator cf ps) s g"
  unfolding create_authenticator_def
  by (rule keeps_insert_then [OF iv]) (simp_all add: id_fits_def spent_def)

lemma keeps_commit_counter:
  assumes iv: "db_inv cf sha s g" and q: "q = CommitCounter x c"
  shows "keeps_db cf sha i q (ok_post (\<lambda>r s g. r = Committed \<longrightarrow> c \<noteq> 0 \<longrightarrow> counted i q x c g)) (commit_authenticator_counter cf x c) s g"
  unfolding commit_authenticator_counter_def
proof (rule keeps_bind_ok [OF keeps_transition [where A = "\<lambda>_ _. True" and W = "\<lambda>_ s g. c \<noteq> 0 \<longrightarrow> counted i q x c g"] iv], goal_cases)
  case (2 now d a d')
  then show ?case using q by (auto simp: decide_counter_def legal_write_def split: if_splits)
next
  case (3 e s g s' now d a d')
  have d: "admits (au_counter d) c" "d' = d\<lparr>au_counter := c\<rparr>" using 3(5) by (auto simp: decide_counter_def split: if_splits)
  show ?case
  proof
    assume "c \<noteq> 0"
    then have n: "au_counter d \<noteq> c" using d(1) by (auto simp: admits_def)
    have "au_counter d' = c" using d(2) by simp
    then have "Authenticator d' \<noteq> Authenticator d" using n by auto
    moreover have "replaced i q x (Authenticator d) (Authenticator d') e s s' g" using 3(7) by simp
    ultimately obtain ev where ev: "ev \<in> set (g_written (observe i q e s s' g))"
      "ev_task ev = i \<and> ev_req ev = q \<and> ev_id ev = x \<and> ev_doc ev = Authenticator d \<and> ev_new ev = Authenticator d' \<and> ev_time ev = e_now e"
      using replaced_written by blast
    show "counted i q x c (observe i q e s s' g)"
      unfolding counted_def
      by (rule bexI [OF _ ev(1)]) (use ev(2) n \<open>au_counter d' = c\<close> in \<open>simp add: counter_event_def counter_of_def\<close>)
  qed
qed (use iv in \<open>auto intro!: keeps_ret_ok stable_imp stable_counted split: transition.splits\<close>)

lemma keeps_rename:
  assumes iv: "db_inv cf sha s g"
  shows "keeps_db cf sha i q (ok_post quiet) (update_authenticator_name cf x n) s g"
  unfolding update_authenticator_name_def
  by (rule keeps_modify [OF plain_types(6) _ iv]) (simp add: legal_write_def)

lemma keeps_insert_other:
  assumes iv: "db_inv cf sha s g"
  shows "keeps_db cf sha i q (ok_post quiet) (insert_other cf (OtherDocument ty es t c)) s g"
  unfolding insert_other_def
  by (auto intro!: keeps_insert_then [OF iv] simp: id_fits_def spent_def)

section \<open>Deleting a key\<close>

text \<open>A guarded write that is legal as long as its guard holds.\<close>

definition writable :: "request \<Rightarrow> db \<Rightarrow> string \<times> int \<times> document \<Rightarrow> bool" where
  "writable q s w = (case w of (did, v, d) \<Rightarrow>
     \<forall>r \<in> set (db_rows s). row_id r = did \<longrightarrow>
       v \<le> row_version r
       \<and> (row_version r = v \<longrightarrow> v < 2 ^ 31 - 1 \<and> (d = row_data r \<or> legal_write q did (row_data r) d)))"

lemma writable_moves:
  assumes w: "writable q s w" and m: "db_moves cf sha q e s s'" and ids: "db_ids s' \<subseteq> db_ids s"
  shows "writable q s' w"
proof (cases w)
  case (fields did v d)
  show ?thesis
    unfolding fields writable_def prod.case
  proof (intro ballI impI)
    fix r' assume r': "r' \<in> set (db_rows s')" "row_id r' = did"
    have "row_id r' \<in> db_ids s" using ids db_idsI [OF r'(1)] by blast
    from db_idsD [OF this] obtain r where r: "r \<in> set (db_rows s)" "row_id r' = row_id r" by auto
    have mv: "row_moves sha q r r'" by (rule db_moves_row [OF m r(1) r'(1) r(2)])
    have old: "v \<le> row_version r" "row_version r = v \<longrightarrow> v < 2 ^ 31 - 1 \<and> (d = row_data r \<or> legal_write q did (row_data r) d)"
      using w r r'(2) unfolding fields writable_def prod.case by metis+
    have "row_version r \<le> row_version r'" "row_version r' = row_version r \<Longrightarrow> row_data r' = row_data r"
      using mv by (auto simp: row_moves_def)
    with old show "v \<le> row_version r' \<and> (row_version r' = v \<longrightarrow> v < 2 ^ 31 - 1 \<and> (d = row_data r' \<or> legal_write q did (row_data r') d))"
      by (metis order_antisym order_trans)
  qed
qed

lemma writable_cas:
  assumes wf: "db_wf cf sha s" and w: "writable q s (did, v, d)" and c: "cas_stmt cf now did v d s = Inr (True, s')"
  shows "db_moves cf sha q e s s'" and "db_ids s' = db_ids s"
proof -
  have ver: "\<forall>r \<in> set (db_rows s). row_id r = did \<longrightarrow> row_version r = v \<longrightarrow> v < 2 ^ 31 - 1"
    using w by (auto simp: writable_def)
  have l: "d = row_data r \<or> legal_write q did (row_data r) d"
    if "r \<in> set (db_rows s)" "row_id r = did" "row_version r = v" for r
    using w that by (auto simp: writable_def)
  show "db_moves cf sha q e s s'" "db_ids s' = db_ids s"
    using cas_stmt_moves(1,2) [where q = q, OF wf c ver l] by blast+
qed

lemma guarded_writes_moves:
  assumes "db_wf cf sha s" and "guarded_writes cf now ws s = Inr s'" and "list_all (writable q s) ws"
  shows "db_moves cf sha q e s s' \<and> db_ids s' = db_ids s"
  using assms
proof (induction ws arbitrary: s)
  case Nil
  then show ?case using db_moves_refl by auto
next
  case (Cons w ws)
  obtain did v d where w: "w = (did, v, d)" by (cases w)
  from Cons.prems(2) obtain s1 where c: "cas_stmt cf now did v d s = Inr (True, s1)" and g: "guarded_writes cf now ws s1 = Inr s'"
    unfolding w guarded_writes.simps by (auto split: sum.splits prod.splits bool.splits)
  note m = writable_cas [OF Cons.prems(1) _ c, of q]
  have m: "db_moves cf sha q e s s1" "db_ids s1 = db_ids s" using m Cons.prems(3) w by auto
  have "db_wf cf sha s1" using m(1) by (simp add: db_moves_def)
  moreover have "list_all (writable q s1) ws"
    using Cons.prems(3) writable_moves [OF _ m(1)] m(2) by (auto simp: list_all_iff)
  ultimately have "db_moves cf sha q e s1 s' \<and> db_ids s' = db_ids s1" using Cons.IH g by blast
  then show ?case using db_moves_trans [OF m(1)] m(2) by auto
qed

lemma write_batches_moves:
  assumes "db_wf cf sha s" and "write_batches cf now bs s = Inr s'" and "list_all (list_all (writable q s)) bs"
  shows "db_moves cf sha q e s s' \<and> db_ids s' = db_ids s"
  using assms
proof (induction bs arbitrary: s)
  case Nil
  then show ?case using db_moves_refl by auto
next
  case (Cons b bs)
  from Cons.prems(2) obtain s1 where c: "guarded_writes cf now b s = Inr s1" and g: "write_batches cf now bs s1 = Inr s'"
    by (auto split: sum.splits list.splits)
  have m: "db_moves cf sha q e s s1" "db_ids s1 = db_ids s"
    using guarded_writes_moves [OF Cons.prems(1) c] Cons.prems(3) by auto
  have "db_wf cf sha s1" using m(1) by (simp add: db_moves_def)
  moreover have "list_all (list_all (writable q s1)) bs"
    using Cons.prems(3) writable_moves [OF _ m(1)] m(2) by (auto simp: list_all_iff)
  ultimately have "db_moves cf sha q e s1 s' \<and> db_ids s' = db_ids s1" using Cons.IH g by blast
  then show ?case using db_moves_trans [OF m(1)] m(2) by auto
qed

lemma chunks_mem: "b \<in> set (chunks n xs) \<Longrightarrow> x \<in> set b \<Longrightarrow> x \<in> set xs"
  by (induction n xs rule: chunks.induct) (subst (asm) chunks.simps, auto split: if_splits dest: in_set_takeD in_set_dropD)

lemma detach_legal: "legal_write q x (DeviceAuthRequest d) (DeviceAuthRequest (detach_authenticator_from_device_auth d))"
  by (auto simp: legal_write_def detach_authenticator_from_device_auth_def Let_def)

lemma detach_moves:
  assumes iv: "db_inv cf sha s g" and ok: "db_env_ok cf sha e s g"
    and docs: "\<forall>doc \<in> set docs. seen sha device_type doc s g"
    and u: "update_by_index_stmt cf device_type detach_authenticator_from_device_auth docs now s = Inr s'"
  shows "db_moves cf sha q e s s'" and "db_ids s' = db_ids s"
proof -
  have "writable q s (st_id doc, st_version doc, DeviceAuthRequest (detach_authenticator_from_device_auth (st_data doc)))"
    if "doc \<in> set docs" for doc
    using docs that ok detach_legal unfolding writable_def by (auto simp: seen_def db_env_ok_def)
  then have "list_all (list_all (writable q s)) (chunks UPDATE_BY_INDEX_BATCH
      (map (\<lambda>d. (st_id d, st_version d, dt_inj device_type (detach_authenticator_from_device_auth (st_data d)))) docs))"
    by (auto simp: list_all_iff dest!: chunks_mem)
  from write_batches_moves [OF inv_wf [OF iv] u [unfolded update_by_index_stmt_def] this]
  show "db_moves cf sha q e s s'" "db_ids s' = db_ids s" by blast+
qed

lemma insert_claim_hashed: "row_wf sha r \<Longrightarrow> insert_claim (row_data r) \<Longrightarrow> row_id r \<in> range sha"
  by (cases "row_data r")
    (auto simp: row_wf_def id_fits_def insert_claim_def deterministic_dpop_jti_id_def deterministic_jti_id_def
      deterministic_challenge_state_id_def)

lemma plain_delete_moves:
  assumes wf: "db_wf cf sha s" and "\<forall>x \<in> ids. x \<notin> range sha"
  shows "db_moves cf sha q e s (without_rows ids s)"
  by (rule without_rows_moves [OF wf]) (use assms insert_claim_hashed db_wf_row [OF wf] in blast)

lemma keeps_find_other:
  assumes iv: "db_inv cf sha s g"
  shows "keeps_db cf sha i q (ok_post quiet) (find_other cf ty f v) s g"
    and "keeps_db cf sha i q (ok_post quiet) (find_one_other cf ty f v) s g"
    and "keeps_db cf sha i q (ok_post quiet) (get_other ty x) s g"
    and "keeps_db cf sha i q (ok_post quiet) (get_authenticator_by_id x) s g"
  unfolding find_other_def find_one_other_def get_other_def get_authenticator_by_id_def find_all_def find_one_def store_get_def
  by (auto intro!: keeps_bind_ok [OF _ iv] keeps_read [where A = "\<lambda>_ _. True", OF iv] keeps_ret_ok)

lemma keeps_delete_other:
  assumes iv: "db_inv cf sha s g"
  shows "keeps_db cf sha i q (ok_post quiet) (delete_other ty x) s g"
proof (cases "ty \<in> set modelled_types")
  case False
  have "keeps_db cf sha i q (ok_post quiet) (with_dsql_retry (db_transaction (\<lambda>e s.
      case select_id ty x s of None \<Rightarrow> Inr (False, s) | Some _ \<Rightarrow> Inr (delete_stmt x s)))) s g"
  proof (rule keeps_tx_retry [where A = "\<lambda>_ _. True", OF iv], goal_cases)
    case (3 e s g a s')
    have wf: "db_wf cf sha s" by (rule inv_wf [OF 3(2)])
    show ?case
    proof (cases "select_id ty x s")
      case None
      then show ?thesis using 3(4) db_moves_refl [OF wf] by (simp add: keys_kept_def)
    next
      case (Some r)
      then have r: "r \<in> set (db_rows s)" "row_id r = x" "row_type r = ty"
        by (auto simp: select_id_def find_Some_iff)
      have s': "s' = without_rows {x} s" using 3(4) Some delete_stmt_state [of x s] by simp
      have "x \<notin> range sha" using row_wf_type [OF db_wf_row [OF wf r(1)]] r False by simp
      then have "db_moves cf sha q e s s'" unfolding s' by (intro plain_delete_moves [OF wf]) simp
      moreover have "user_keys u s \<subseteq> user_keys u s'" for u
      proof
        fix k assume "k \<in> user_keys u s"
        then obtain r' d where r': "r' \<in> set (db_rows s)" "row_id r' = k" "row_data r' = Authenticator d" "au_user_id d = u"
          by (auto simp: user_keys_def)
        have "row_type r' = ''authenticator''" using db_wf_row [OF wf r'(1)] r'(3) by (simp add: row_wf_def)
        then have "r' \<noteq> r" using r(3) False by (auto simp: modelled_types_def)
        then have "k \<noteq> x" using db_wf_same [OF wf r'(1) r(1)] r'(2) r(2) by auto
        then have "r' \<in> set (db_rows s')" using r'(1,2) by (simp add: s')
        then show "k \<in> user_keys u s'" unfolding user_keys_def using r'(2-4) by blast
      qed
      ultimately show ?thesis by (simp add: keys_kept_def)
    qed
  qed auto
  then show ?thesis using False by (simp add: delete_other_def)
qed (auto simp: delete_other_def intro!: keeps_ret_ok iv)

text \<open>The sessions that go with a key: no keys themselves, and under no derived id.\<close>

lemma session_delete:
  assumes wf: "db_wf cf sha s" and d: "delete_by_index_stmt cf (raw_type ''session'') field v s = Inr (n, s')"
  obtains ids where "s' = without_rows ids s" "\<forall>x \<in> ids. x \<notin> range sha"
    "\<forall>x \<in> ids. \<forall>r \<in> set (db_rows s). row_id r = x \<longrightarrow> row_type r = ''session''"
proof -
  from d obtain docs where docs: "decode_rows (raw_type ''session'') (select_index cf ''session'' field v s) = Inr docs"
    and s': "s' = without_rows (st_id ` set docs) s"
    by (auto simp: delete_by_index_stmt_def without_rows_def raw_type_def Let_def split: sum.splits)
  have "\<exists>r \<in> set (db_rows s). row_id r = x \<and> row_type r = ''session''" if x: "x \<in> st_id ` set docs" for x
  proof -
    obtain doc where doc: "doc \<in> set docs" "x = st_id doc" using x by blast
    obtain r where r: "r \<in> set (select_index cf ''session'' field v s)" "decode_row (raw_type ''session'') r = Inr doc"
      using decode_rows_mem [OF docs doc(1)] by blast
    have "st_id doc = row_id r" using r(2) by (auto simp: decode_row_def raw_type_def)
    then show ?thesis using select_index_row(1,2) [OF wf r(1)] doc(2) by auto
  qed
  note row = this
  have "x \<notin> range sha" if x: "x \<in> st_id ` set docs" for x
  proof -
    obtain r where r: "r \<in> set (db_rows s)" "row_id r = x" "row_type r = ''session''" using row [OF x] by blast
    then have "row_type r \<notin> set modelled_types" by (simp add: modelled_types_def)
    then show ?thesis using row_wf_type [OF db_wf_row [OF wf r(1)]] r(2) by simp
  qed
  moreover have "row_type r = ''session''" if "x \<in> st_id ` set docs" "r \<in> set (db_rows s)" "row_id r = x" for x r
    using row [OF that(1)] db_wf_same [OF wf that(2)] that(3) by auto
  ultimately show thesis using s' by (intro that) blast+
qed

text \<open>The whole cascade: only the key itself and sessions are removed.\<close>

lemma cascade_moves:
  assumes iv: "db_inv cf sha s g" and ok: "db_env_ok cf sha e s g"
    and docs: "\<forall>doc \<in> set docs. seen sha device_type doc s g" and kid: "kid \<notin> range sha"
    and c: "delete_authenticator_stmts cf kid docs now s = Inr s'"
  shows "db_moves cf sha q e s s'" and "db_ids s' \<subseteq> db_ids s"
    and "\<And>r d. r \<in> set (db_rows s) \<Longrightarrow> row_data r = Authenticator d \<Longrightarrow> row_id r \<noteq> kid \<Longrightarrow> row_id r \<in> db_ids s'"
proof -
  from c obtain s1 n s2 where u: "update_by_index_stmt cf device_type detach_authenticator_from_device_auth docs now s = Inr s1"
    and d: "delete_by_index_stmt cf (raw_type ''session'') ''authenticator_id'' kid s1 = Inr (n, s2)"
    and s': "s' = without_rows {kid} s2"
    by (auto simp: delete_authenticator_stmts_def delete_stmt_state split: sum.splits)
  have m1: "db_moves cf sha q e s s1" "db_ids s1 = db_ids s" using detach_moves [OF iv ok docs u] by blast+
  have wf1: "db_wf cf sha s1" using m1(1) by (simp add: db_moves_def)
  obtain ids where s2: "s2 = without_rows ids s1" and ids: "\<forall>x \<in> ids. x \<notin> range sha"
    "\<forall>x \<in> ids. \<forall>r \<in> set (db_rows s1). row_id r = x \<longrightarrow> row_type r = ''session''"
    using session_delete [OF wf1 d] by blast
  have m2: "db_moves cf sha q e s1 s2" unfolding s2 by (rule plain_delete_moves [OF wf1 ids(1)])
  have wf2: "db_wf cf sha s2" using m2 by (simp add: db_moves_def)
  have m3: "db_moves cf sha q e s2 s'" unfolding s' by (rule plain_delete_moves [OF wf2]) (use kid in simp)
  have i: "db_ids s' = db_ids s - ids - {kid}" "db_ids s2 \<subseteq> db_ids s1" "db_ids s' \<subseteq> db_ids s2"
    using m1(2) by (auto simp: s' s2)
  have m12: "db_moves cf sha q e s s2" by (rule db_moves_trans [OF m1(1) _ m2 i(2)]) (use m1(2) in simp)
  show "db_moves cf sha q e s s'" by (rule db_moves_trans [OF m12 _ m3 i(3)]) (use i(2) m1(2) in simp)
  show "db_ids s' \<subseteq> db_ids s" using i(1) by blast
  fix r d assume r: "r \<in> set (db_rows s)" "row_data r = Authenticator d" "row_id r \<noteq> kid"
  have "row_id r \<notin> ids"
  proof
    assume x: "row_id r \<in> ids"
    obtain r1 where r1: "r1 \<in> set (db_rows s1)" "row_id r1 = row_id r"
      using db_idsI [OF r(1)] m1(2) db_idsD by metis
    from row_moves_key [OF db_moves_row [OF m1(1) r(1) r1] r(2)] obtain d' where d': "row_data r1 = Authenticator d'" by blast
    have "row_type r1 = ''authenticator''" using db_wf_row [OF wf1 r1(1)] d' by (simp add: row_wf_def)
    moreover have "row_type r1 = ''session''" using ids(2) x r1 by blast
    ultimately show False by simp
  qed
  then show "row_id r \<in> db_ids s'" using i(1) r(3) db_idsI [OF r(1)] by blast
qed

text \<open>What an attempt knows after it counted: another key is there while the user's row stands.\<close>

definition spare_key :: "(string \<Rightarrow> string) \<Rightarrow> document stored \<Rightarrow> string \<Rightarrow> db \<Rightarrow> ghost \<Rightarrow> bool" where
  "spare_key sha u kid s g \<longleftrightarrow>
     seen sha (raw_type ''user'') u s g
     \<and> (\<forall>r \<in> set (db_rows s). row_id r = st_id u \<longrightarrow> row_version r = st_version u \<longrightarrow>
          (\<exists>x \<in> user_keys (st_id u) s. x \<noteq> kid))"

lemma stable_spare_key [intro]: "db_stable cf sha (spare_key sha u kid)"
proof (rule stableI)
  fix s g s' g'
  assume iv: "db_inv cf sha s g" "db_inv cf sha s' g'" and k: "spare_key sha u kid s g" and rl: "db_rely sha s g s' g'"
  have sn: "seen sha (raw_type ''user'') u s g" using k by (simp add: spare_key_def)
  then have sn': "seen sha (raw_type ''user'') u s' g'" using stableD [OF db_stable_seen] iv rl by blast
  have id: "st_id u \<in> g_ids g" "st_id u \<notin> range sha" using sn by (auto simp: seen_def)
  have "\<exists>x \<in> user_keys (st_id u) s'. x \<noteq> kid"
    if r': "r' \<in> set (db_rows s')" "row_id r' = st_id u" "row_version r' = st_version u" for r'
  proof -
    obtain r where r: "r \<in> set (db_rows s)" "row_id r = row_id r'"
      using db_rely_present [OF rl r'(1)] id r'(2) by auto
    have x: "row_id r \<in> g_ids g" "row_id r \<notin> range sha" "row_id r' = row_id r" using id r r' by simp_all
    have "row_version r \<le> row_version r'" by (rule db_rely_row(2) [OF rl r(1) r'(1) x(3,1,2)])
    moreover have "st_version u \<le> row_version r" using sn r r'(2) by (auto simp: seen_def)
    ultimately have v: "row_version r = st_version u" "row_version r' = row_version r" using r'(3) by simp_all
    have "user_keys (row_id r) s \<subseteq> user_keys (row_id r) s'"
      by (rule db_rely_keys [OF rl r(1) r'(1) x(3,1,2) v(2)])
    moreover have "\<exists>y \<in> user_keys (st_id u) s. y \<noteq> kid" using k r(1) r(2) r'(2) v(1) by (auto simp: spare_key_def)
    ultimately show ?thesis using r(2) r'(2) by auto
  qed
  then show "spare_key sha u kid s' g'" using sn' by (simp add: spare_key_def)
qed

lemma user_keys_moves:
  assumes m: "db_moves cf sha q e s s'" and x: "x \<in> user_keys u s" "x \<in> db_ids s'"
  shows "x \<in> user_keys u s'"
proof -
  obtain r d where r: "r \<in> set (db_rows s)" "row_id r = x" "row_data r = Authenticator d" "au_user_id d = u"
    using x(1) by (auto simp: user_keys_def)
  obtain r' where r': "r' \<in> set (db_rows s')" "row_id r' = row_id r" using db_idsD [OF x(2)] r(2) by auto
  from row_moves_key [OF db_moves_row [OF m r(1) r'] r(3)] show ?thesis
    unfolding user_keys_def using r r' by auto
qed

lemma delete_key_tx:
  assumes iv: "db_inv cf sha s g" and ok: "db_env_ok cf sha e s g"
    and k: "spare_key sha u kid s g" and a: "seen sha authenticator_type a s g" "st_id a = kid" "au_user_id (st_data a) = st_id u"
    and docs: "\<forall>doc \<in> set docs. seen sha device_type doc s g"
    and c: "delete_authenticator_stmts cf kid docs now s = Inr s1"
    and w: "cas_stmt cf now (st_id u) (st_version u) (st_data u) s1 = Inr (True, s2)"
  shows "db_moves cf sha q e s s2" and "keys_kept s s2"
proof -
  have kid: "kid \<notin> range sha" using a(1,2) by (auto simp: seen_def)
  have m1: "db_moves cf sha q e s s1" and i1: "db_ids s1 \<subseteq> db_ids s"
    using cascade_moves(1,2) [OF iv ok docs kid c] by blast+
  note stay = cascade_moves(3) [OF iv ok docs kid c]
  have wf1: "db_wf cf sha s1" using m1 by (simp add: db_moves_def)
  have sn: "seen sha (raw_type ''user'') u s g" using k by (simp add: spare_key_def)
  have wr: "writable q s (st_id u, st_version u, st_data u)"
    using sn ok by (auto simp: writable_def seen_def db_env_ok_def)
  have wr1: "writable q s1 (st_id u, st_version u, st_data u)" by (rule writable_moves [OF wr m1 i1])
  have m2: "db_moves cf sha q e s1 s2" and i2: "db_ids s2 = db_ids s1"
    using writable_cas [OF wf1 wr1 w] by blast+
  show m: "db_moves cf sha q e s s2" by (rule db_moves_trans [OF m1 i1 m2]) (simp add: i2)
  obtain r1 where r1: "r1 \<in> set (db_rows s1)" "row_id r1 = st_id u" "row_version r1 = st_version u"
    using cas_stmt_won [OF wf1 w] by metis
  obtain r where r: "r \<in> set (db_rows s)" "row_id r = row_id r1"
    using db_idsI [OF r1(1)] i1 db_idsD by (metis subsetD)
  have "row_version r \<le> st_version u"
    using db_moves_row [OF m1 r(1) r1(1)] r(2) r1(3) by (auto simp: row_moves_def)
  moreover have "st_version u \<le> row_version r" using sn r r1(2) by (auto simp: seen_def)
  ultimately have v: "row_version r = st_version u" by simp
  then obtain y where y: "y \<in> user_keys (st_id u) s" "y \<noteq> kid" using k r r1(2) by (auto simp: spare_key_def)
  have rest: "x \<in> user_keys u' s2" if "x \<in> user_keys u' s" "x \<noteq> kid" for x u'
  proof -
    have "x \<in> db_ids s2" unfolding i2 using that stay by (auto simp: user_keys_def)
    then show ?thesis using user_keys_moves [OF m that(1)] by blast
  qed
  have own: "u' = st_id u" if "kid \<in> user_keys u' s" for u'
    using that a by (auto simp: user_keys_def seen_def identity_def)
  obtain r2 where r2: "r2 \<in> set (db_rows s2)" "row_id r2 = st_id u" "row_version r2 = st_version u + 1"
  proof -
    have ver: "\<forall>r \<in> set (db_rows s1). row_id r = st_id u \<longrightarrow> row_version r = st_version u \<longrightarrow> st_version u < 2 ^ 31 - 1"
      using wr1 by (auto simp: writable_def)
    have l: "st_data u = row_data r \<or> legal_write q (st_id u) (row_data r) (st_data u)"
      if "r \<in> set (db_rows s1)" "row_id r = st_id u" "row_version r = st_version u" for r
      using wr1 that by (auto simp: writable_def)
    show thesis using cas_stmt_moves(3) [where q = q, OF wf1 w ver l] that by blast
  qed
  show "keys_kept s s2"
    unfolding keys_kept_def
  proof
    fix u'
    show "user_keys u' s \<subseteq> user_keys u' s2 \<or>
       user_keys u' s2 \<noteq> {} \<and> (\<exists>r \<in> set (db_rows s). \<exists>r' \<in> set (db_rows s2). row_id r = u' \<and> row_id r' = u' \<and> row_version r < row_version r')"
    proof (cases "kid \<in> user_keys u' s")
      case False
      then show ?thesis using rest by blast
    next
      case True
      then have "u' = st_id u" by (rule own)
      moreover have "user_keys (st_id u) s2 \<noteq> {}" using rest [OF y] by blast
      moreover have "\<exists>r \<in> set (db_rows s). \<exists>r' \<in> set (db_rows s2). row_id r = st_id u \<and> row_id r' = st_id u \<and> row_version r < row_version r'"
        by (rule bexI [OF _ r(1)], rule bexI [OF _ r2(1)]) (use r(2) r1(2) r2 v in simp)
      ultimately show ?thesis by blast
    qed
  qed
qed

text \<open>The count of a user's keys: no row is counted twice.\<close>

lemma distinct_copies:
  assumes "distinct rs" and "\<And>r. r \<in> set rs \<Longrightarrow> length (F r) \<le> 1"
  shows "distinct (concat (map (\<lambda>r. map (\<lambda>_. r) (F r)) rs))"
  using assms
proof (induction rs)
  case (Cons r rs)
  have "distinct (map (\<lambda>_. r) (F r))" using Cons.prems(2) [of r] by (cases "F r") auto
  then show ?case using Cons by auto
qed simp

lemma authenticator_row:
  assumes "row_wf sha r" and "row_type r = ''authenticator''"
  shows "\<exists>d. row_data r = Authenticator d"
  using assms by (cases "row_data r") (auto simp: row_wf_def id_fits_def modelled_types_def)

lemma key_rows:
  assumes iv: "db_inv cf sha s g" and u: "u \<in> g_ids g" "u \<notin> range sha"
    and r: "r \<in> set (select_index cf ''authenticator'' ''user_id'' u s)"
  shows "row_id r \<in> user_keys u s"
proof -
  have wf: "db_wf cf sha s" by (rule inv_wf [OF iv])
  note sel = select_index_row [OF wf r]
  obtain d where d: "row_data r = Authenticator d"
    using authenticator_row [OF db_wf_row [OF wf sel(1)] sel(2)] by blast
  then have "index_value_condition cf u (sc_hmac cf (au_user_id d))" using sel(3) by (simp add: matches_def)
  moreover have "inv_ids cf sha s g" using iv by (simp add: db_inv_def)
  ultimately have "au_user_id d = u" using u unfolding inv_ids_def by blast
  then show ?thesis using sel(1) d by (auto simp: user_keys_def)
qed

lemma distinct_const:
  assumes "distinct xs" and "\<And>x y. x \<in> set xs \<Longrightarrow> y \<in> set xs \<Longrightarrow> x = y"
  shows "length xs \<le> 1"
proof (rule ccontr)
  assume "\<not> length xs \<le> 1"
  then have n: "0 < length xs" "1 < length xs" by auto
  then have "xs ! 0 = xs ! 1" using assms(2) nth_mem by blast
  then show False using nth_eq_iff_index_eq [OF assms(1) n] by simp
qed

lemma key_rows_distinct:
  assumes iv: "db_inv cf sha s g" and u: "u \<in> g_ids g" "u \<notin> range sha"
  shows "distinct (select_index cf ''authenticator'' ''user_id'' u s)"
  unfolding select_index_def
proof (rule distinct_copies)
  have wf: "db_wf cf sha s" by (rule inv_wf [OF iv])
  show "distinct (filter (\<lambda>r. row_type r = ''authenticator'') (db_rows s))"
    using wf by (simp add: db_wf_def distinct_map)
  fix r assume "r \<in> set (filter (\<lambda>r. row_type r = ''authenticator'') (db_rows s))"
  then have r: "r \<in> set (db_rows s)" "row_type r = ''authenticator''" by auto
  obtain d where d: "row_data r = Authenticator d"
    using authenticator_row [OF db_wf_row [OF wf r(1)] r(2)] by blast
  let ?ixs = "filter (\<lambda>ix. ix_doc ix = row_id r \<and> ix_field ix = ''user_id'' \<and> index_value_condition cf u (ix_value ix)) (db_indexes s)"
  have e: "ix = \<lparr>ix_doc = row_id r, ix_field = ''user_id'', ix_value = sc_hmac cf (au_user_id d)\<rparr>" if ix: "ix \<in> set ?ixs" for ix
  proof -
    have "ix \<in> set (db_indexes s)" "ix_doc ix = row_id r" "ix_field ix = ''user_id''" using ix by simp_all
    moreover have "ix \<notin> set (without_indexes {row_id r} s)" using calculation(2) by (simp add: without_indexes_def)
    ultimately have "ix \<in> index_of cf (row_id r) (row_data r)" using index_split [OF wf r(1)] by blast
    then show ?thesis using \<open>ix_field ix = _\<close> d by (auto simp: index_of_def)
  qed
  have "distinct ?ixs" using wf by (simp add: db_wf_def index_exact_def)
  then show "length ?ixs \<le> 1" by (rule distinct_const) (rule trans [OF e sym [OF e]])
qed

lemma spare_key_counted:
  assumes iv: "db_inv cf sha s g" and sn: "seen sha (raw_type ''user'') u s g"
    and n: "\<not> length (select_index cf ''authenticator'' ''user_id'' (st_id u) s) \<le> 1"
  shows "spare_key sha u kid s g"
proof -
  have u: "st_id u \<in> g_ids g" "st_id u \<notin> range sha" using sn by (auto simp: seen_def)
  let ?l = "select_index cf ''authenticator'' ''user_id'' (st_id u) s"
  have "\<exists>r \<in> set ?l. row_id r \<noteq> kid"
  proof (rule ccontr)
    assume "\<not> ?thesis"
    then have "x = y" if "x \<in> set ?l" "y \<in> set ?l" for x y
      using that select_index_row(1) [OF inv_wf [OF iv]] db_wf_same [OF inv_wf [OF iv]] by metis
    then show False using distinct_const [OF key_rows_distinct [OF iv u]] n by blast
  qed
  then show ?thesis using key_rows [OF iv u] sn by (auto simp: spare_key_def)
qed

lemma keeps_count:
  assumes "db_inv cf sha s g" and "A s g" and "db_stable cf sha A"
    and "\<And>s g. A s g \<Longrightarrow> db_inv cf sha s g \<Longrightarrow> P (length (select_index cf ty field v s)) s g"
    and "\<And>n. db_stable cf sha (P n)"
  shows "keeps_db cf sha i q (ok_post P) (store_count cf ty field v) s g"
  unfolding store_count_def
proof (rule keeps_read [OF assms(1-3)], goal_cases)
  case (1 e s g a)
  have m: "db_moves cf sha q e s s" by (rule db_moves_refl [OF inv_wf [OF 1(2)]])
  note ch = change_inv [OF 1(2,3) m keys_kept_refl, of i]
  have "A s (observe i q e s s g)" by (rule stableD [OF assms(3) 1(2,1) ch])
  then show ?case using assms(4) ch(2) 1(4) by auto
qed (rule assms(5))

lemma keeps_find_all_tx:
  assumes T: "plain_type T" and iv: "db_inv cf sha s g"
  shows "keeps_db cf sha i q (ok_post (\<lambda>docs s g. \<forall>doc \<in> set docs. seen sha T doc s g)) (find_all_tx cf T field v) s g"
  unfolding find_all_tx_def
proof (rule keeps_read [OF iv, of "\<lambda>_ _. True"], goal_cases)
  case (3 e s g docs)
  show ?case
  proof
    fix doc assume "doc \<in> set docs"
    then obtain r where r: "r \<in> set (select_index cf (dt_name T) field v s)" "decode_row T r = Inr doc"
      using decode_rows_mem [OF 3(4)] by blast
    then show "seen sha T doc s (observe i q e s s g)"
      using seen_row(1) [OF T 3(2) _ _ r(2)] select_index_row(1,2) [OF inv_wf [OF 3(2)] r(1)] by blast
  qed
next
  case (4 docs)
  show ?case using db_stable_seen unfolding db_stable_def by blast
qed auto

lemma keeps_delete_key_once:
  assumes iv: "db_inv cf sha s g"
  shows "keeps_db cf sha i q (ok_post quiet) (delete_key_once cf uid kid) s g"
  unfolding delete_key_once_def
proof (rule keeps_bind_key [OF keeps_get [OF plain_types(7) iv] iv], goal_cases)
  case (1 ud s g)
  show ?case
  proof (cases ud)
    case (Some u)
    let ?U = "seen sha (raw_type ''user'') u"
    have u: "?U s g" "st_id u = uid" using 1(1) Some by simp_all
    show ?thesis
      unfolding Some option.case
    proof (rule keeps_bind_key [OF keeps_carry_ok [OF keeps_get [OF plain_types(6) 1(2)] 1(2) u(1) db_stable_seen] 1(2)], goal_cases)
      case (1 ad s g)
      show ?case
      proof (cases "ad \<noteq> None \<and> au_user_id (st_data (the ad)) = uid")
        case False
        then show ?thesis by (cases ad) auto
      next
        case True
        then obtain a where a: "ad = Some a" "au_user_id (st_data a) = uid" by auto
        let ?A = "\<lambda>s g. seen sha authenticator_type a s g \<and> ?U s g"
        let ?B = "\<lambda>s g. seen sha authenticator_type a s g \<and> spare_key sha u kid s g"
        have aa: "?A s g" "st_id a = kid" using 1(1) a by simp_all
        have ne: "\<not> au_user_id (st_data a) \<noteq> uid" using a by simp
        have sA: "db_stable cf sha ?A" and sB: "db_stable cf sha ?B" by auto
        show ?thesis
          unfolding a(1) option.case if_not_P [OF ne]
        proof (rule keeps_bind_key [OF keeps_count [where A = ?A and P = "\<lambda>n s g. \<not> n \<le> 1 \<longrightarrow> ?B s g", OF 1(2) aa(1) sA] 1(2)], goal_cases)
          case (1 s g)
          then show ?case using spare_key_counted u(2) by blast
        next
          case (2 n)
          show ?case using sB by (rule stable_imp)
        next
          case (3 n s g)
          show ?case
          proof (cases "n \<le> 1")
            case False
            then have b: "?B s g" using 3(1) by blast
            show ?thesis
              unfolding if_not_P [OF False]
            proof (rule keeps_bind_key [OF keeps_count [where A = ?B and P = "\<lambda>_. ?B", OF 3(2) b sB _ sB] 3(2)], simp)
              fix sessions s g assume b: "?B s g" and iv: "db_inv cf sha s g"
              show "keeps_db cf sha i q (ok_post quiet)
                (bind_key (find_all_tx cf device_type ''authenticator_id'' kid) (\<lambda>docs.
                       bind_key (db_read (\<lambda>e s.
                           case delete_authenticator_stmts cf kid docs (e_now e) s of
                             Inl er \<Rightarrow> Inl er
                           | Inr s' \<Rightarrow> Inr (length (select_index cf ''authenticator'' ''user_id'' uid s'))))
                         (\<lambda>count_after.
                           if count_after < 1 then Ret (Inl LastKey)
                           else db_transaction_with from_db_contention (\<lambda>e s.
                             case delete_authenticator_stmts cf kid docs (e_now e) s of
                               Inl er \<Rightarrow> Inl (from_db_contention er)
                             | Inr s1 \<Rightarrow>
                                 (case cas_stmt cf (e_now e) uid (st_version u) (st_data u) s1 of
                                    Inl er \<Rightarrow> Inl (from_db_contention er)
                                  | Inr (False, _) \<Rightarrow> Inl KeyOccConflict
                                  | Inr (True, s2) \<Rightarrow> Inr ((au_name (st_data a), sessions), s2)))))) s g"
              proof (rule keeps_bind_key [OF keeps_carry_ok [OF keeps_find_all_tx [OF plain_types(2) iv] iv b sB] iv], goal_cases)
                case (1 docs s g)
                let ?C = "\<lambda>s g. (\<forall>doc \<in> set docs. seen sha device_type doc s g) \<and> ?B s g"
                have sC: "db_stable cf sha ?C" using db_stable_seen [where T = device_type] sB unfolding db_stable_def by blast
                show ?case
                proof (rule keeps_bind_key [OF keeps_carry_ok [OF keeps_read [OF 1(2), of "\<lambda>_ _. True" _ quiet] 1(2) 1(1) sC] 1(2)], goal_cases)
                  case (5 count_after s g)
                  have c: "?C s g" using 5(1) by blast
                  show ?case
                  proof (cases "count_after < 1")
                    case False
                    show ?thesis
                      unfolding if_not_P [OF False]
                    proof (rule keeps_tx [where A = ?C, OF 5(2) c sC], goal_cases)
                      case (1 e s g res s')
                      then obtain s1 where s1: "delete_authenticator_stmts cf kid docs (e_now e) s = Inr s1"
                        "cas_stmt cf (e_now e) (st_id u) (st_version u) (st_data u) s1 = Inr (True, s')"
                        using u(2) by (auto split: sum.splits prod.splits bool.splits)
                      have "au_user_id (st_data a) = st_id u" using a(2) u(2) by simp
                      from delete_key_tx [OF 1(2,3) _ _ aa(2) this _ s1] 1(1) show ?case by blast
                    qed auto
                  qed auto
                qed auto
              qed
            qed
          qed auto
        qed
      qed
    qed
  qed auto
qed

lemma keeps_delete_key:
  assumes iv: "db_inv cf sha s g"
  shows "keeps_db cf sha i q (ok_post quiet) (delete_key cf is_uuid uid kid) s g"
proof (cases "is_uuid kid")
  case True
  have k: "keeps_db cf sha i q (ok_post quiet)
      (with_retries (\<lambda>er. er = KeyOccConflict) MAX_DSQL_RETRIES (delete_key_once cf uid kid)) s g"
    by (rule keeps_retries [OF iv, of "\<lambda>_ _. True"]) (use keeps_delete_key_once in auto)
  show ?thesis
    unfolding delete_key_def if_not_P [OF not_not [THEN iffD2, OF True]]
    by (rule keeps_plain_bind [OF k iv], rule keeps_ret) (auto simp: ok_post_def split: sum.splits key_error.splits)
qed (simp add: delete_key_def)

end
