(* ===== verification/Db_Guarantees.thy ===== *)
theory Db_Guarantees
  imports Db_Single_Use
begin

text \<open>
  Every request of the system keeps its contract, so the rules of \<open>Interleaving\<close> apply to all
  interleavings of all requests, and the guarantees of the store follow.
\<close>

section \<open>The system keeps the contract\<close>

lemma stable_all: "(\<And>x. db_stable cf sha (A x)) \<Longrightarrow> db_stable cf sha (\<lambda>s g. \<forall>x. A x s g)"
  unfolding db_stable_def by blast

lemma stable_post: "db_stable cf sha (db_post cf sha i q r)"
  unfolding db_post_def [abs_def]
  by (intro stable_conj stable_imp stable_all stable_redeemed stable_claimed stable_counted stable_approved)

lemma keeps_map:
  assumes "keeps_db cf sha i q P p s g" and "db_inv cf sha s g"
    and "\<And>r s g. P r s g \<Longrightarrow> db_post cf sha i q (f r) s g"
  shows "keeps_db cf sha i q (db_post cf sha i q) (prog_map f p) s g"
  unfolding prog_map_def
proof (rule keeps_plain_bind [OF assms(1,2)])
  fix r s g assume "P r s g" "db_inv cf sha s g"
  then show "keeps_db cf sha i q (db_post cf sha i q) (Ret (f r)) s g"
    by (intro keeps_ret stable_post assms(3))
qed

text \<open>Requests that redeem nothing have nothing to promise.\<close>

definition silent :: "(string \<Rightarrow> string) \<Rightarrow> request \<Rightarrow> bool" where
  "silent sha q \<longleftrightarrow> presented q = None \<and> claimed_id sha q = None \<and> (\<forall>x c. q \<noteq> CommitCounter x c)"

lemma keeps_silent:
  assumes "keeps_db cf sha i q (ok_post quiet) p s g" and "db_inv cf sha s g" and "silent sha q"
    and "\<And>r a. f r \<noteq> RApproval a"
  shows "keeps_db cf sha i q (db_post cf sha i q) (prog_map f p) s g"
  by (rule keeps_map [OF assms(1,2)]) (use assms(3,4) in \<open>simp add: db_post_def silent_def\<close>)

lemma post_redeemed:
  assumes "ok_post (\<lambda>v s g. redeemed cf i q (R (Inr v)) g) r s g" and "claimed_id sha q = None"
    and "\<And>x c. q \<noteq> CommitCounter x c" and "\<And>er. \<not> accepted (R (Inl er))" and "\<And>r a. R r \<noteq> RApproval a"
  shows "db_post cf sha i q (R r) s g"
  using assms by (cases r) (auto simp: db_post_def)

lemma post_claimed:
  assumes "ok_post (\<lambda>v s g. claimed sha i q g) r s g" and "presented q = None" and "\<And>x c. q \<noteq> CommitCounter x c"
  shows "db_post cf sha i q (RClaim r) s g"
  using assms by (cases r) (auto simp: db_post_def accepted_def)

lemmas request_simps = silent_def presented_def claimed_id_def accepted_def

lemma serve_keeps_db:
  assumes iv: "db_inv cf sha s g"
  shows "keeps_db cf sha i q (db_post cf sha i q) (serve cf sha is_uuid q) s g"
proof (cases q)
  case (StoreCode h c u t d)
  then show ?thesis by (auto simp: serve_def request_simps intro!: keeps_silent keeps_store_code iv)
next
  case (ConsumeCode h now)
  show ?thesis
    unfolding serve_def ConsumeCode request.case
    by (rule keeps_map [OF keeps_consume_code [OF iv refl] iv], rule post_redeemed [where R = RClaim]) (simp_all add: request_simps)
next
  case (CodeDetails h)
  then show ?thesis by (auto simp: serve_def request_simps intro!: keeps_silent keeps_code_details iv)
next
  case (CreateDevice h uc c t v)
  then show ?thesis by (auto simp: serve_def request_simps intro!: keeps_silent keeps_create_device iv)
next
  case (DeviceByCode h)
  then show ?thesis by (auto simp: serve_def request_simps intro!: keeps_silent keeps_device_reads iv)
next
  case (DeviceByUserCode uc)
  then show ?thesis by (auto simp: serve_def request_simps intro!: keeps_silent keeps_device_reads iv)
next
  case (DeviceById x)
  then show ?thesis by (auto simp: serve_def request_simps intro!: keeps_silent keeps_device_reads iv)
next
  case (AuthorizeDevice ps)
  then show ?thesis by (auto simp: serve_def request_simps intro!: keeps_silent keeps_authorize iv)
next
  case (ConsumeDevice h)
  show ?thesis
    unfolding serve_def ConsumeDevice request.case
    by (rule keeps_map [OF keeps_consume_device [OF iv refl] iv]) (auto simp: db_post_def request_simps ok_post_def split: sum.splits)
next
  case (PollDevice x v now)
  then show ?thesis by (auto simp: serve_def request_simps intro!: keeps_silent keeps_poll iv)
next
  case (CreateOidc st d n v t p)
  then show ?thesis by (auto simp: serve_def request_simps intro!: keeps_silent keeps_create_oidc iv)
next
  case (ConsumeOidc st now)
  show ?thesis
    unfolding serve_def ConsumeOidc request.case
    by (rule keeps_map [OF keeps_consume_oidc [OF iv refl] iv], rule post_redeemed [where R = ROidc]) (simp_all add: request_simps)
next
  case (CreatePar ps)
  then show ?thesis by (auto simp: serve_def request_simps intro!: keeps_silent keeps_create_par iv)
next
  case (GetPar u c now)
  then show ?thesis by (auto simp: serve_def request_simps intro!: keeps_silent keeps_get_par iv)
next
  case (ConsumePar par now)
  show ?thesis
    unfolding serve_def ConsumePar request.case
    by (rule keeps_map [OF keeps_consume_par [OF iv refl] iv], rule post_redeemed [where R = RClaim]) (simp_all add: request_simps)
next
  case (ExtendPar u c ttl)
  then show ?thesis by (auto simp: serve_def request_simps intro!: keeps_silent keeps_extend_par iv)
next
  case (CreatePending ps)
  then show ?thesis by (auto simp: serve_def request_simps intro!: keeps_silent keeps_create_pending iv)
next
  case (GetPending x now)
  then show ?thesis by (auto simp: serve_def request_simps intro!: keeps_silent keeps_get_pending iv)
next
  case (ConsumePending x now)
  show ?thesis
    unfolding serve_def ConsumePending request.case
    by (rule keeps_map [OF keeps_consume_pending [OF iv refl] iv], rule post_redeemed [where R = RPending]) (simp_all add: request_simps)
next
  case (NewDpopNonce v)
  then show ?thesis by (auto simp: serve_def request_simps intro!: keeps_silent keeps_generate_nonce iv)
next
  case (CheckDpopNonce n now)
  then show ?thesis by (auto simp: serve_def request_simps intro!: keeps_silent keeps_check_nonce iv)
next
  case (NewSignatureNonce v)
  then show ?thesis by (auto simp: serve_def request_simps intro!: keeps_silent keeps_generate_nonce iv)
next
  case (ConsumeSignatureNonce n now)
  show ?thesis
    unfolding serve_def ConsumeSignatureNonce request.case
    by (rule keeps_map [OF keeps_consume_nonce [OF iv refl] iv], rule post_redeemed [where R = RClaim]) (simp_all add: request_simps)
next
  case (StoreJti j sec v)
  show ?thesis
    unfolding serve_def StoreJti request.case
    by (rule keeps_map [OF keeps_store_jti [OF iv refl] iv], rule post_claimed) (simp_all add: request_simps)
next
  case (StoreAssertionJti j c t)
  show ?thesis
    unfolding serve_def StoreAssertionJti request.case
    by (rule keeps_map [OF keeps_store_assertion [OF iv refl] iv], rule post_claimed) (simp_all add: request_simps)
next
  case (ConsumeChallenge w t)
  show ?thesis
    unfolding serve_def ConsumeChallenge request.case
    by (rule keeps_map [OF keeps_consume_challenge [OF iv refl] iv], rule post_claimed) (simp_all add: request_simps)
next
  case (CreateKey ps)
  then show ?thesis by (auto simp: serve_def request_simps intro!: keeps_silent keeps_create_key iv)
next
  case (CommitCounter x c)
  show ?thesis
    unfolding serve_def CommitCounter request.case
    by (rule keeps_map [OF keeps_commit_counter [OF iv refl] iv]) (auto simp: db_post_def request_simps)
next
  case (RenameKey x n)
  then show ?thesis by (auto simp: serve_def request_simps intro!: keeps_silent keeps_rename iv)
next
  case (DeleteKey u k)
  then show ?thesis by (auto simp: serve_def request_simps intro!: keeps_silent keeps_delete_key iv)
next
  case (Touch x)
  then show ?thesis by (auto simp: serve_def request_simps intro!: keeps_silent keeps_touch iv)
next
  case (Sweep ty)
  then show ?thesis by (auto simp: serve_def request_simps intro!: keeps_silent keeps_sweep iv)
next
  case (InsertOther ty es t c)
  then show ?thesis by (auto simp: serve_def request_simps intro!: keeps_silent keeps_insert_other iv)
next
  case (FindOther ty f v)
  then show ?thesis by (auto simp: serve_def request_simps intro!: keeps_silent keeps_find_other iv)
next
  case (FindOneOther ty f v)
  then show ?thesis by (auto simp: serve_def request_simps intro!: keeps_silent keeps_find_other iv)
next
  case (GetOther ty x)
  then show ?thesis by (auto simp: serve_def request_simps intro!: keeps_silent keeps_find_other iv)
next
  case (KeyById x)
  then show ?thesis by (auto simp: serve_def request_simps intro!: keeps_silent keeps_find_other iv)
next
  case (DeleteOther ty x)
  then show ?thesis by (auto simp: serve_def request_simps intro!: keeps_silent keeps_delete_other iv)
qed

lemma db_inv_start: "db_inv cf sha db_empty ghost_start"
  by (simp add: db_inv_def db_wf_def index_exact_def inv_ids_def inv_count_def inv_claims_def inv_device_def inv_counter_def
      inv_keys_def live_tags_def db_ids_def db_empty_def ghost_start_def)

interpretation db_run: interference "serve cf sha is_uuid" "db_env_ok cf sha" observe "db_inv cf sha" "db_rely sha"
    "db_post cf sha" db_empty ghost_start for cf sha is_uuid
  by unfold_locales (auto intro: inv_refl db_rely_trans db_inv_start serve_keeps_db)

section \<open>Guarantees\<close>

definition redeemers :: "db_sys \<Rightarrow> credential \<Rightarrow> nat set" where
  "redeemers y c =
     {i. i < length (sys_tasks y) \<and> (\<exists>q r. sys_tasks y ! i = (q, Ret r) \<and> presented q = Some c \<and> accepted r)}"

definition claimants :: "(string \<Rightarrow> string) \<Rightarrow> db_sys \<Rightarrow> string \<Rightarrow> nat set" where
  "claimants sha y x =
     {i. i < length (sys_tasks y) \<and> (\<exists>q r. sys_tasks y ! i = (q, Ret r) \<and> claimed_id sha q = Some x \<and> accepted r)}"

lemma card_by_task:
  assumes "\<And>i. i \<in> S \<Longrightarrow> \<exists>ev \<in> set evs. ev_task ev = i \<and> N ev"
  shows "card S \<le> length (filter N evs)"
proof -
  have "S \<subseteq> set (map ev_task (filter N evs))" using assms by force
  then have "card S \<le> card (set (map ev_task (filter N evs)))" by (rule card_mono [OF finite_set])
  also have "\<dots> \<le> length (map ev_task (filter N evs))" by (rule card_length)
  finally show ?thesis by simp
qed

lemma retired_le_issued:
  assumes "inv_count s g"
  shows "length (filter (\<lambda>ev. N (event_tag ev)) (g_issued g))
    = length (filter (\<lambda>ev. N (event_tag ev)) (g_retired g)) + length (filter N (live_tags s))"
proof -
  have l: "length (filter (\<lambda>ev. N (event_tag ev)) xs) = size (filter_mset N (mset (map event_tag xs)))" for xs
    by (induction xs) simp_all
  have t: "size (filter_mset N (mset xs)) = length (filter N xs)" for xs :: "(string \<times> string \<times> string \<times> string \<times> timestamp option) list"
    by (induction xs) simp_all
  show ?thesis
    using assms unfolding l inv_count_def by (simp only: filter_union_mset size_union t)
qed

lemma reach_redeemed:
  assumes "db_reach cf sha is_uuid y" and "i < length (sys_tasks y)" and "sys_tasks y ! i = (q, Ret r)"
    and "presented q \<noteq> None" and "accepted r"
  shows "redeemed cf i q r (sys_ghost y)"
  using db_run.reach_post [OF assms(1-3)] assms(4,5) by (simp add: db_post_def)

lemma reach_claimed:
  assumes "db_reach cf sha is_uuid y" and "i < length (sys_tasks y)" and "sys_tasks y ! i = (q, Ret r)"
    and "claimed_id sha q \<noteq> None" and "accepted r"
  shows "claimed sha i q (sys_ghost y)"
  using db_run.reach_post [OF assms(1-3)] assms(4,5) by (simp add: db_post_def)

text \<open>
  C1: In every interleaving of any number of requests, with failing statements, lost commits
  and sweeps, a credential (authorization code, device code, sign-in state, pushed request,
  pending authorization, signature nonce) is redeemed successfully at most as often as a
  document it names was issued.
\<close>

theorem credential_redeemed_at_most_once_per_issue:
  assumes "db_reach cf sha is_uuid y"
  shows "card (redeemers y c)
    \<le> length (filter (\<lambda>ev. names cf c (ev_id ev) (identity (ev_doc ev))) (g_issued (sys_ghost y)))"
proof -
  let ?N = "\<lambda>ev. names cf c (ev_id ev) (identity (ev_doc ev))"
  have "card (redeemers y c) \<le> length (filter ?N (g_retired (sys_ghost y)))"
  proof (rule card_by_task)
    fix i assume "i \<in> redeemers y c"
    then obtain q r where q: "i < length (sys_tasks y)" "sys_tasks y ! i = (q, Ret r)" "presented q = Some c" "accepted r"
      by (auto simp: redeemers_def)
    then have "redeemed cf i q r (sys_ghost y)" using reach_redeemed [OF assms] by simp
    then show "\<exists>ev \<in> set (g_retired (sys_ghost y)). ev_task ev = i \<and> ?N ev" using q(3) by (auto simp: redeemed_def)
  qed
  moreover have "inv_count (sys_state y) (sys_ghost y)" using db_run.reach_invar [OF assms] by (simp add: db_inv_def)
  note retired_le_issued [OF this, of "\<lambda>(x, ident). names cf c x ident"]
  ultimately show ?thesis by (simp add: event_tag_def)
qed



lemma live_once:
  assumes "db_wf cf sha s"
  shows "length (filter (\<lambda>(x', ident). x' = x) (live_tags s)) \<le> 1"
proof (rule distinct_const)
  show "distinct (filter (\<lambda>(x', ident). x' = x) (live_tags s))" using distinct_live_tags [OF assms] by simp
  fix a b
  assume "a \<in> set (filter (\<lambda>(x', ident). x' = x) (live_tags s))" "b \<in> set (filter (\<lambda>(x', ident). x' = x) (live_tags s))"
  then obtain r r' where "r \<in> set (db_rows s)" "r' \<in> set (db_rows s)" "row_id r = x" "row_id r' = x"
    "a = (row_id r, identity (row_data r))" "b = (row_id r', identity (row_data r'))"
    by (auto simp: live_tags_def)
  then show "a = b" using db_wf_same [OF assms] by metis
qed

lemma claim_id_kind:
  assumes "inj sha" and "claimed_id sha q = Some x" and "id_fits sha x d"
  shows "insert_claim d"
  using assms
  by (cases q; cases d)
    (auto simp: claimed_id_def id_fits_def insert_claim_def deterministic_signature_nonce_id_def
      deterministic_dpop_nonce_id_def deterministic_nonce_id_def deterministic_dpop_jti_id_def deterministic_jti_id_def
      deterministic_challenge_state_id_def dest!: injD)

text \<open>
  C2: An identifier that is claimed by inserting its record (DPoP proof id, client assertion id,
  challenge state) is claimed again only after a record of it was removed past its expiry: the
  number of successful claims exceeds the number of such removals by at most one.
\<close>

theorem identifier_claimed_once_until_expiry:
  assumes "db_reach cf sha is_uuid y" and "inj sha"
  shows "card (claimants sha y x)
    \<le> Suc (length (filter (\<lambda>ev. ev_id ev = x \<and> expired_by cf (ev_time ev) (ev_doc ev)) (g_retired (sys_ghost y))))"
proof (cases "claimants sha y x = {}")
  case False
  let ?s = "sys_state y" and ?g = "sys_ghost y"
  have iv: "db_inv cf sha ?s ?g" by (rule db_run.reach_invar [OF assms(1)])
  then have wf: "db_wf cf sha ?s" and cnt: "inv_count ?s ?g" and cl: "inv_claims cf sha ?g" by (simp_all add: db_inv_def)
  from False obtain q0 where q0: "claimed_id sha q0 = Some x" by (auto simp: claimants_def)
  have "card (claimants sha y x) \<le> length (filter (\<lambda>ev. ev_id ev = x) (g_issued ?g))"
  proof (rule card_by_task)
    fix i assume "i \<in> claimants sha y x"
    then obtain q r where q: "i < length (sys_tasks y)" "sys_tasks y ! i = (q, Ret r)" "claimed_id sha q = Some x" "accepted r"
      by (auto simp: claimants_def)
    then have "claimed sha i q ?g" using reach_claimed [OF assms(1)] by simp
    then show "\<exists>ev \<in> set (g_issued ?g). ev_task ev = i \<and> ev_id ev = x" using q(3) by (auto simp: claimed_def)
  qed
  also have "\<dots> \<le> Suc (length (filter (\<lambda>ev. ev_id ev = x) (g_retired ?g)))"
    using retired_le_issued [OF cnt, of "\<lambda>(x', ident). x' = x"] live_once [OF wf, of x] by (simp add: event_tag_def)
  also have "filter (\<lambda>ev. ev_id ev = x) (g_retired ?g)
      = filter (\<lambda>ev. ev_id ev = x \<and> expired_by cf (ev_time ev) (ev_doc ev)) (g_retired ?g)"
    by (rule filter_cong [OF refl]) (use cl claim_id_kind [OF assms(2) q0] in \<open>auto simp: inv_claims_def\<close>)
  finally show ?thesis .
qed simp

text \<open>
  C11: No two authentications succeed with the same nonzero signature counter of an
  authenticator, however they interleave: a cloned key cannot replay a counter value.
\<close>

theorem signature_counter_used_once:
  assumes "db_reach cf sha is_uuid y" and "c \<noteq> 0"
    and "i < length (sys_tasks y)" and "sys_tasks y ! i = (CommitCounter x c, Ret (RCounter (Inr Committed)))"
    and "j < length (sys_tasks y)" and "sys_tasks y ! j = (CommitCounter x c, Ret (RCounter (Inr Committed)))"
  shows "i = j"
proof -
  let ?tag = "\<lambda>ev. (ev_id ev, counter_of (ev_new ev))"
  have "\<exists>ev \<in> set (filter counter_event (g_written (sys_ghost y))). ev_task ev = k \<and> ?tag ev = (x, c)"
    if "k < length (sys_tasks y)" "sys_tasks y ! k = (CommitCounter x c, Ret (RCounter (Inr Committed)))" for k
  proof -
    have "counted k (CommitCounter x c) x c (sys_ghost y)"
      using db_run.reach_post [OF assms(1) that] assms(2) unfolding db_post_def by blast
    then show ?thesis unfolding counted_def by auto
  qed
  note ev = this
  obtain ev where ev1: "ev \<in> set (filter counter_event (g_written (sys_ghost y)))" "ev_task ev = i" "?tag ev = (x, c)"
    using ev [OF assms(3,4)] by blast
  obtain ev' where ev2: "ev' \<in> set (filter counter_event (g_written (sys_ghost y)))" "ev_task ev' = j" "?tag ev' = (x, c)"
    using ev [OF assms(5,6)] by blast
  have "inv_counter (sys_state y) (sys_ghost y)" using db_run.reach_invar [OF assms(1)] by (simp add: db_inv_def)
  then have "inj_on ?tag (set (filter counter_event (g_written (sys_ghost y))))"
    unfolding inv_counter_def distinct_map by blast
  then have "ev = ev'" by (rule inj_onD [OF _ _ ev1(1) ev2(1)]) (simp only: ev1(3) ev2(3))
  then show ?thesis using ev1(2) ev2(2) by simp
qed


text \<open>
  C16: In every reachable state ids are unique, every row carries the type, expiry and id its
  document calls for, and the index table holds the entries of the documents and nothing else.
\<close>

theorem tables_well_formed:
  assumes "db_reach cf sha is_uuid y"
  shows "db_wf cf sha (sys_state y)"
  using db_run.reach_invar [OF assms] by (simp add: db_inv_def)

section \<open>Sample runs\<close>

definition demo_cf :: store_cfg where
  "demo_cf = \<lparr>sc_hmac = id, sc_text = (\<lambda>t. replicate (nat t) CHR ''x'')\<rparr>"

definition demo_sha :: "string \<Rightarrow> string" where
  "demo_sha s = CHR ''#'' # s"

definition demo_env :: "string \<Rightarrow> timestamp \<Rightarrow> db_env" where
  "demo_env u t = \<lparr>e_now = t, e_uuid = u, e_random = ''random'', e_pick = 0, e_outcome = Fine\<rparr>"

definition demo_ok :: "db_env \<Rightarrow> db \<Rightarrow> ghost \<Rightarrow> bool" where
  "demo_ok e s g \<longleftrightarrow>
     g_time g \<le> e_now e \<and> TIMESTAMP_MIN \<le> e_now e \<and> e_now e \<le> TIMESTAMP_MAX \<and> e_uuid e \<notin> g_ids g \<and> take 1 (e_uuid e) \<noteq> ''#''
     \<and> list_all (\<lambda>r. row_version r < 2 ^ 31 - 1) (db_rows s)"

lemma demo_ok_env: "demo_ok e s g \<Longrightarrow> db_env_ok demo_cf demo_sha e s g"
  by (auto simp: demo_ok_def db_env_ok_def demo_cf_def demo_sha_def index_value_condition_def Let_def inj_def list_all_iff)

text \<open>Requests served one after the other, each with the environments of its steps.\<close>

fun demo_run :: "(request \<times> db_env list) list \<Rightarrow> db_sys \<Rightarrow> db_sys option" where
  "demo_run [] y = Some y"
| "demo_run ((q, es) # qs) y =
     (let i = length (sys_tasks y) in
      case run_with demo_ok (observe i q) (serve demo_cf demo_sha (\<lambda>_. True) q) es (sys_state y) (sys_ghost y) of
        None \<Rightarrow> None
      | Some (r, s', g') \<Rightarrow> demo_run qs \<lparr>sys_state = s', sys_tasks = sys_tasks y @ [(q, Ret r)], sys_ghost = g'\<rparr>)"

definition demo_start :: db_sys where
  "demo_start = \<lparr>sys_state = db_empty, sys_tasks = [], sys_ghost = ghost_start\<rparr>"

lemma demo_run_reach:
  assumes "db_reach demo_cf demo_sha (\<lambda>_. True) y" and "demo_run qs y = Some y'"
  shows "db_reach demo_cf demo_sha (\<lambda>_. True) y'"
  using assms
proof (induction qs y rule: demo_run.induct)
  case (2 q es qs y)
  let ?i = "length (sys_tasks y)" and ?p = "serve demo_cf demo_sha (\<lambda>_. True) q"
  from 2(3) obtain r s' g' where run: "run_with demo_ok (observe ?i q) ?p es (sys_state y) (sys_ghost y) = Some (r, s', g')"
    and rest: "demo_run qs \<lparr>sys_state = s', sys_tasks = sys_tasks y @ [(q, Ret r)], sys_ghost = g'\<rparr> = Some y'"
    by (auto simp: Let_def split: option.splits)
  have "db_reach demo_cf demo_sha (\<lambda>_. True) (y\<lparr>sys_tasks := sys_tasks y @ [(q, ?p)]\<rparr>)"
    by (rule sys_reach.spawn [OF 2(2)])
  from reach_run [OF this, of ?i q ?p demo_ok es r s' g'] run demo_ok_env
  have "db_reach demo_cf demo_sha (\<lambda>_. True) \<lparr>sys_state = s', sys_tasks = sys_tasks y @ [(q, Ret r)], sys_ghost = g'\<rparr>"
    by simp
  from 2(1) [OF refl run refl refl this rest] show ?case .
qed simp

lemma demo_reach: "demo_run qs demo_start = Some y \<Longrightarrow> db_reach demo_cf demo_sha (\<lambda>_. True) y"
  by (rule demo_run_reach) (simp_all add: demo_start_def sys_reach.start)

definition results_of :: "db_sys \<Rightarrow> (request \<times> response option) list" where
  "results_of y = map (\<lambda>(q, p). (q, case p of Ret r \<Rightarrow> Some r | Act _ \<Rightarrow> None)) (sys_tasks y)"

lemma results_of_task:
  assumes "i < length (results_of y)" and "results_of y ! i = (q, Some r)"
  shows "i < length (sys_tasks y)" and "sys_tasks y ! i = (q, Ret r)"
  using assms by (auto simp: results_of_def split: prod.splits prog.splits)

lemma demo_result:
  assumes "map_option results_of (demo_run qs demo_start) = Some rs"
  obtains y where "demo_run qs demo_start = Some y" "db_reach demo_cf demo_sha (\<lambda>_. True) y" "results_of y = rs"
  using assms demo_reach by (cases "demo_run qs demo_start") auto

definition demo_codes :: "(request \<times> db_env list) list" where
  "demo_codes =
     [(StoreCode ''h'' ''client'' ''alice'' 9 None, [demo_env ''u1'' 1]),
      (ConsumeCode ''h'' 5, [demo_env ''u2'' 2, demo_env ''u3'' 3]),
      (ConsumeCode ''h'' 6, [demo_env ''u4'' 4, demo_env ''u5'' 5])]"

definition demo_approval :: authorize_device_auth_params where
  "demo_approval =
     \<lparr>ap_id = ''u1'', ap_user_id = ''alice'', ap_user_email = ''a@b'', ap_authenticator_id = ''key'', ap_verification = Observed 2\<rparr>"

definition demo_device :: "(request \<times> db_env list) list" where
  "demo_device =
     [(CreateDevice ''dh'' ''CODE'' ''client'' 90 5, [demo_env ''u1'' 1]),
      (AuthorizeDevice demo_approval, [demo_env ''u2'' 2, demo_env ''u3'' 3]),
      (ConsumeDevice ''dh'', [demo_env ''u4'' 4, demo_env ''u5'' 5, demo_env ''u6'' 6])]"

definition demo_claims :: "(request \<times> db_env list) list" where
  "demo_claims =
     [(ConsumeChallenge ''state'' 3, [demo_env ''u1'' 1]),
      (ConsumeChallenge ''state'' 3, [demo_env ''u2'' 2]),
      (Sweep ''challenge_state'', [demo_env ''u3'' 8, demo_env ''u4'' 8, demo_env ''u5'' 8]),
      (ConsumeChallenge ''state'' 20, [demo_env ''u6'' 9])]"

definition demo_key :: create_authenticator_params where
  "demo_key =
     \<lparr>ca_user_id = ''u1'', ca_name = ''key'', ca_credential_id = ''cred'', ca_public_key = ''pk'', ca_aaguid = None,
      ca_user_handle = None, ca_attestation_verified = True, ca_counter = 5\<rparr>"

definition demo_keys :: "(request \<times> db_env list) list" where
  "demo_keys =
     [(InsertOther ''user'' [] None '''', [demo_env ''u1'' 1]),
      (CreateKey demo_key, [demo_env ''u2'' 2]),
      (CreateKey (demo_key\<lparr>ca_credential_id := ''other''\<rparr>), [demo_env ''u3'' 3]),
      (CommitCounter ''u2'' 7, [demo_env ''u4'' 4, demo_env ''u5'' 5]),
      (DeleteKey ''u1'' ''u3'', map (\<lambda>t. demo_env ''u9'' t) [6, 7, 8, 9, 10, 11, 12]),
      (DeleteKey ''u1'' ''u2'', map (\<lambda>t. demo_env ''u9'' t) [13, 14, 15])]"

lemma demo_codes_results:
  "map_option results_of (demo_run demo_codes demo_start) =
     Some [(StoreCode ''h'' ''client'' ''alice'' 9 None, Some (RUnit (Inr ()))), (ConsumeCode ''h'' 5, Some (RClaim (Inr ()))),
           (ConsumeCode ''h'' 6, Some (RClaim (Inl AlreadyConsumed)))]"
  by code_simp

lemma demo_device_results:
  "map_option results_of (demo_run demo_device demo_start) =
     Some [(CreateDevice ''dh'' ''CODE'' ''client'' 90 5, Some (RText (Inr ''u1''))),
           (AuthorizeDevice demo_approval, Some (RUnit (Inr ()))),
           (ConsumeDevice ''dh'', Some (RApproval (Inr \<lparr>sa_user_id = ''alice'', sa_user_email = ''a@b'',
              sa_authenticator_id = ''key'', sa_verification = Verified (Some 2)\<rparr>)))]"
  by code_simp

lemma demo_claims_results:
  "map_option results_of (demo_run demo_claims demo_start) =
     Some [(ConsumeChallenge ''state'' 3, Some (RClaim (Inr ()))), (ConsumeChallenge ''state'' 3, Some (RClaim (Inl AlreadyConsumed))),
           (Sweep ''challenge_state'', Some (RCount (Inr 1))), (ConsumeChallenge ''state'' 20, Some (RClaim (Inr ())))]"
  by code_simp

lemma demo_keys_results:
  "map_option results_of (demo_run demo_keys demo_start) =
     Some [(InsertOther ''user'' [] None '''', Some (RUnit (Inr ()))), (CreateKey demo_key, Some (RText (Inr ''u2''))),
           (CreateKey (demo_key\<lparr>ca_credential_id := ''other''\<rparr>), Some (RText (Inr ''u3''))),
           (CommitCounter ''u2'' 7, Some (RCounter (Inr Committed))), (DeleteKey ''u1'' ''u3'', Some (RKey (Inr (''key'', 0)))),
           (DeleteKey ''u1'' ''u2'', Some (RKey (Inl LastKey)))]"
  by code_simp

lemma demo_keys_issued:
  "map_option (\<lambda>y. map (\<lambda>ev. (ev_id ev, ev_doc ev)) (g_issued (sys_ghost y))) (demo_run demo_keys demo_start) =
     Some [(''u1'', OtherDocument ''user'' [] None ''''),
       (''u2'', Authenticator \<lparr>au_user_id = ''u1'', au_user_email = '''', au_name = ''key'', au_credential_id = ''cred'',
          au_public_key = ''pk'', au_counter = 5, au_aaguid = None, au_user_handle = None, au_attestation_verified = True\<rparr>),
       (''u3'', Authenticator \<lparr>au_user_id = ''u1'', au_user_email = '''', au_name = ''key'', au_credential_id = ''other'',
          au_public_key = ''pk'', au_counter = 5, au_aaguid = None, au_user_handle = None, au_attestation_verified = True\<rparr>)]"
  by code_simp

theorem credential_redeemed_at_most_once_per_issue_witness:
  "\<exists>y. demo_run demo_codes demo_start = Some y
     \<and> card (redeemers y (CodeHash ''h''))
         \<le> length (filter (\<lambda>ev. names demo_cf (CodeHash ''h'') (ev_id ev) (identity (ev_doc ev))) (g_issued (sys_ghost y)))"
proof -
  obtain y where y: "demo_run demo_codes demo_start = Some y" "db_reach demo_cf demo_sha (\<lambda>_. True) y"
    by (rule demo_result [OF demo_codes_results])
  from credential_redeemed_at_most_once_per_issue [OF y(2)] y(1) show ?thesis by blast
qed



theorem identifier_claimed_once_until_expiry_witness:
  "\<exists>y. demo_run demo_claims demo_start = Some y
     \<and> card (claimants demo_sha y (deterministic_challenge_state_id demo_sha ''state''))
         \<le> Suc (length (filter (\<lambda>ev. ev_id ev = deterministic_challenge_state_id demo_sha ''state''
              \<and> expired_by demo_cf (ev_time ev) (ev_doc ev)) (g_retired (sys_ghost y))))"
proof -
  obtain y where y: "demo_run demo_claims demo_start = Some y" "db_reach demo_cf demo_sha (\<lambda>_. True) y"
    by (rule demo_result [OF demo_claims_results])
  have "inj demo_sha" by (simp add: inj_def demo_sha_def)
  from identifier_claimed_once_until_expiry [OF y(2) this] y(1) show ?thesis by blast
qed

theorem signature_counter_used_once_witness:
  "\<exists>y i j. demo_run demo_keys demo_start = Some y
     \<and> i < length (sys_tasks y) \<and> sys_tasks y ! i = (CommitCounter ''u2'' 7, Ret (RCounter (Inr Committed)))
     \<and> j < length (sys_tasks y) \<and> sys_tasks y ! j = (CommitCounter ''u2'' 7, Ret (RCounter (Inr Committed))) \<and> i = j"
proof -
  obtain y where y: "demo_run demo_keys demo_start = Some y" "db_reach demo_cf demo_sha (\<lambda>_. True) y"
    by (rule demo_result [OF demo_keys_results])
  note rs = demo_keys_results [unfolded y(1) option.map option.inject]
  have "3 < length (sys_tasks y)" "sys_tasks y ! 3 = (CommitCounter ''u2'' 7, Ret (RCounter (Inr Committed)))"
    using results_of_task [of 3 y] rs by simp_all
  note t = this
  have "(3 :: nat) = 3" by (rule signature_counter_used_once [OF y(2) _ t t]) simp
  with t y(1) show ?thesis by blast
qed


theorem tables_well_formed_witness:
  "\<exists>y. demo_run demo_keys demo_start = Some y \<and> db_wf demo_cf demo_sha (sys_state y)"
proof -
  obtain y where y: "demo_run demo_keys demo_start = Some y" "db_reach demo_cf demo_sha (\<lambda>_. True) y"
    by (rule demo_result [OF demo_keys_results])
  from tables_well_formed [OF y(2)] y(1) show ?thesis by blast
qed

end
