(* ===== verification/Db_Clock.thy ===== *)
theory Db_Clock
  imports Db_Guarantees
begin

text \<open>
  The store compares instants as text. A timestamp is written as its whole second in a form
  of fixed length, an optional fraction after a point, and the letter Z; up to the year 9999
  the texts of whole seconds order as the seconds do. Under this law the comparisons of the
  store are comparisons of whole seconds, and what the store promises for claims by insert
  holds in terms of the clock.
\<close>

section \<open>Comparisons of text are comparisons of seconds\<close>

definition text_law :: "store_cfg \<Rightarrow> bool" where
  "text_law cf \<longleftrightarrow>
     (\<exists>sec frac.
        (\<forall>t. TIMESTAMP_MIN \<le> t \<longrightarrow> t \<le> TIMESTAMP_MAX \<longrightarrow>
           sc_text cf t = sec (t div 10 ^ 9) @ frac t @ ''Z'' \<and> (frac t = [] \<or> hd (frac t) = CHR ''.''))
        \<and> (\<forall>a. CHR ''.'' \<notin> set (sec a)) \<and> (\<forall>a b. 0 \<le> a \<longrightarrow> 0 \<le> b \<longrightarrow> length (sec a) = length (sec b))
        \<and> (\<forall>a b. 0 \<le> b \<longrightarrow> a < b \<longrightarrow> b \<le> TIMESTAMP_MAX div 10 ^ 9 \<longrightarrow> sec a < sec b))"

definition in_range :: "timestamp \<Rightarrow> bool" where
  "in_range t \<longleftrightarrow> TIMESTAMP_MIN \<le> t \<and> t \<le> TIMESTAMP_MAX"

lemma append_less_same:
  "length (u :: string) = length v \<Longrightarrow> u < v \<Longrightarrow> u @ x < v @ y"
proof (induction u v rule: list_induct2)
  case (Cons a u b v)
  then show ?case by (auto simp: Cons_less_Cons)
qed simp

lemma less_longer: "(u :: string) @ x < u @ y \<longleftrightarrow> x < y"
  by (induction u) simp_all

lemma seconds_text:
  assumes "CHR ''.'' \<notin> set s" and "f = [] \<or> hd f = CHR ''.''"
  shows "takeWhile (\<lambda>c. c \<noteq> CHR ''.'') (s @ f) = s"
proof -
  have "takeWhile (\<lambda>c. c \<noteq> CHR ''.'') f = []" using assms(2) by (cases f) auto
  then show ?thesis using assms(1) by (simp add: takeWhile_append)
qed

lemma text_seconds:
  assumes law: "text_law cf" and a: "in_range a" "0 \<le> a" and b: "in_range b"
  shows "sc_text cf a < timestamp_seconds cf b \<longleftrightarrow> a div 10 ^ 9 < b div 10 ^ 9"
    and "timestamp_seconds cf b < sc_text cf a \<longleftrightarrow> b div 10 ^ 9 \<le> a div 10 ^ 9"
proof -
  obtain sec frac where form: "\<And>t. in_range t \<Longrightarrow> sc_text cf t = sec (t div 10 ^ 9) @ frac t @ ''Z''"
    and fr: "\<And>t. in_range t \<Longrightarrow> frac t = [] \<or> hd (frac t) = CHR ''.''"
    and dot: "\<And>a. CHR ''.'' \<notin> set (sec a)" and len: "\<And>a b. 0 \<le> a \<Longrightarrow> 0 \<le> b \<Longrightarrow> length (sec a) = length (sec b)"
    and mono: "\<And>a b. 0 \<le> b \<Longrightarrow> a < b \<Longrightarrow> b \<le> TIMESTAMP_MAX div 10 ^ 9 \<Longrightarrow> sec a < sec b"
    using law unfolding text_law_def in_range_def by blast
  have up: "t div 10 ^ 9 \<le> TIMESTAMP_MAX div 10 ^ 9" if "in_range t" for t
    using that by (auto simp: in_range_def intro: zdiv_mono1)
  have "strip_suffix ''Z'' (sc_text cf b) = Some (sec (b div 10 ^ 9) @ frac b)"
    using strip_suffix_append [of "''Z''" "sec (b div 10 ^ 9) @ frac b"] form [OF b] by simp
  then have tb: "timestamp_seconds cf b = sec (b div 10 ^ 9)"
    using seconds_text [OF dot fr [OF b]] by (simp add: timestamp_seconds_def)
  let ?a = "a div 10 ^ 9" and ?b = "b div 10 ^ 9"
  have a0: "0 \<le> ?a" using a(2) by simp
  let ?t = "sec ?a @ frac a @ ''Z''"
  have ext: "sec ?a < ?t" using less_longer [of "sec ?a" "[]" "frac a @ ''Z''"] by (cases "frac a") simp_all
  have "(?t < sec ?b \<longleftrightarrow> ?a < ?b) \<and> (sec ?b < ?t \<longleftrightarrow> ?b \<le> ?a)"
  proof (cases "?a < ?b")
    case True
    then have "sec ?a < sec ?b" using mono up [OF b] a0 by simp
    then have lt: "?t < sec ?b" using append_less_same [OF len, of ?a ?b "frac a @ ''Z''" "[]"] a0 True by simp
    then show ?thesis using True less_asym [OF lt] by simp
  next
    case False
    have "sec ?b \<le> sec ?a" using mono [OF a0 _ up [OF a(1)], of ?b] False by (cases "?a = ?b") auto
    then have lt: "sec ?b < ?t" using ext by (rule le_less_trans)
    then show ?thesis using False less_asym [OF lt] by simp
  qed
  then show "sc_text cf a < timestamp_seconds cf b \<longleftrightarrow> ?a < ?b"
    and "timestamp_seconds cf b < sc_text cf a \<longleftrightarrow> ?b \<le> ?a"
    by (simp_all add: tb form [OF a(1)])
qed

text \<open>
  C29: The store's comparisons of expiry texts decide by whole seconds: a sweep takes a row when
  its expiry lies in an earlier second than the clock, and a row counts as unexpired when its
  expiry lies in the clock's second or a later one, so no row is both and none is neither.
\<close>

theorem expiry_text_is_whole_seconds:
  assumes "text_law cf" and "in_range now" and "row_expires r = Some t" and "in_range t" and "0 \<le> t"
  shows "(expires_before cf now r \<longleftrightarrow> t div 10 ^ 9 < now div 10 ^ 9)
    \<and> (expires_after cf now r \<longleftrightarrow> \<not> expires_before cf now r)"
  using text_seconds [OF assms(1,4,5,2)] assms(3) by (auto simp: expires_before_def expires_after_def)

section \<open>A text form that satisfies the law\<close>

primrec fixed_digits :: "nat \<Rightarrow> nat \<Rightarrow> string" where
  "fixed_digits 0 n = []"
| "fixed_digits (Suc k) n = fixed_digits k (n div 10) @ [char_of (48 + n mod 10)]"

definition demo_text :: "timestamp \<Rightarrow> string" where
  "demo_text t = (if t < 0 then [] else fixed_digits 12 (nat (t div 10 ^ 9))) @ (if t mod 10 ^ 9 = 0 then [] else CHR ''.'' # fixed_digits 9 (nat (t mod 10 ^ 9))) @ ''Z''"

lemma length_fixed_digits [simp]: "length (fixed_digits k n) = k"
  by (induction k arbitrary: n) simp_all

lemma digit_less: "a < b \<Longrightarrow> b < 10 \<Longrightarrow> (char_of (48 + a :: nat) :: char) < char_of (48 + b)"
  by (simp add: less_char_def)

lemma fixed_digits_less: "a < b \<Longrightarrow> b < 10 ^ k \<Longrightarrow> fixed_digits k a < fixed_digits k b"
proof (induction k arbitrary: a b)
  case (Suc k)
  consider "a div 10 < b div 10" | "a div 10 = b div 10" "a mod 10 < b mod 10"
    using Suc.prems(1) div_le_mono [of a b 10] mult_div_mod_eq [of 10 a] mult_div_mod_eq [of 10 b] by linarith
  then show ?case
  proof cases
    case 1
    moreover have "b div 10 < 10 ^ k" using Suc.prems(2) by (simp add: less_mult_imp_div_less mult.commute)
    ultimately have "fixed_digits k (a div 10) < fixed_digits k (b div 10)" by (rule Suc.IH)
    then show ?thesis using append_less_same by simp
  next
    case 2
    then show ?thesis using digit_less by (simp add: less_longer)
  qed
qed simp

lemma dot_digits: "CHR ''.'' \<notin> set (fixed_digits k n)"
proof (induction k arbitrary: n)
  case (Suc k)
  have "(of_char (char_of (48 + n mod 10) :: char) :: nat) = 48 + n mod 10" by simp
  moreover have "(of_char (CHR ''.'') :: nat) = 46" by simp
  ultimately have "(of_char (char_of (48 + n mod 10) :: char) :: nat) \<noteq> of_char (CHR ''.'')" by linarith
  then have "char_of (48 + n mod 10) \<noteq> CHR ''.''" by metis
  then show ?case using Suc by auto
qed simp

lemma demo_text_law: "text_law \<lparr>sc_hmac = h, sc_text = demo_text\<rparr>"
  unfolding text_law_def
proof (intro exI conjI allI impI)
  let ?sec = "\<lambda>a. if a < 0 then [] else fixed_digits 12 (nat a)"
  let ?frac = "\<lambda>t. if t mod 10 ^ 9 = 0 then [] else CHR ''.'' # fixed_digits 9 (nat (t mod 10 ^ 9))"
  show "sc_text \<lparr>sc_hmac = h, sc_text = demo_text\<rparr> t = ?sec (t div 10 ^ 9) @ ?frac t @ ''Z''" for t :: int
    by (simp add: demo_text_def pos_imp_zdiv_neg_iff)
  show "?frac t = [] \<or> hd (?frac t) = CHR ''.''" for t :: int by simp
  show "CHR ''.'' \<notin> set (?sec a)" for a using dot_digits by simp
  show "length (?sec a) = length (?sec b)" if "0 \<le> a" "0 \<le> b" for a b using that by simp
  show "?sec a < ?sec b" if "0 \<le> b" "a < b" "b \<le> TIMESTAMP_MAX div 10 ^ 9" for a b :: int
  proof (cases "a < 0")
    case True
    have "fixed_digits 12 (nat b) \<noteq> []" using length_fixed_digits [of 12 "nat b"] by fastforce
    then have "[] < fixed_digits 12 (nat b)" by (cases "fixed_digits 12 (nat b)") simp_all
    then show ?thesis using True that by simp
  next
    case False
    have "fixed_digits 12 (nat a) < fixed_digits 12 (nat b)"
      by (rule fixed_digits_less) (use False that in \<open>auto simp: TIMESTAMP_MAX_def\<close>)
    then show ?thesis using False that by simp
  qed
qed

definition demo_row :: "timestamp \<Rightarrow> row" where
  "demo_row t = \<lparr>row_id = ''r'', row_type = ''challenge_state'', row_data = ChallengeState t, row_expires = Some t,
     row_created = 0, row_updated = 0, row_version = 1, row_last_used = None\<rparr>"

theorem expiry_text_is_whole_seconds_witness:
  "(let cf = \<lparr>sc_hmac = id, sc_text = demo_text\<rparr>; now = 2500000000; r = demo_row 1700000000 in
     expires_before cf now r \<and> \<not> expires_after cf now r)"
  using expiry_text_is_whole_seconds [OF demo_text_law, of 2500000000 "demo_row 1700000000" 1700000000 id]
  by (simp add: demo_row_def in_range_def TIMESTAMP_MIN_def TIMESTAMP_MAX_def Let_def)

section \<open>Claims by insert, in terms of the clock\<close>

lemma reach_times:
  assumes "db_reach cf sha is_uuid y"
  shows "(\<forall>ev \<in> set (g_issued (sys_ghost y)) \<union> set (g_retired (sys_ghost y)) \<union> set (g_written (sys_ghost y)).
            ev_time ev \<le> g_time (sys_ghost y))
    \<and> in_range (g_time (sys_ghost y))"
  using assms
proof (induction rule: sys_reach.induct)
  case start
  then show ?case by (simp add: ghost_start_def in_range_def TIMESTAMP_MIN_def TIMESTAMP_MAX_def)
next
  case (act y i q f e p s')
  have "g_time (sys_ghost y) \<le> e_now e" "in_range (e_now e)"
    using act.hyps by (auto simp: db_env_ok_def in_range_def)
  with act.IH show ?case by (auto dest: order_trans)
qed simp

lemma claim_identity: "insert_claim d \<Longrightarrow> snd (snd (snd (identity d))) = doc_expires d \<and> doc_expires d \<noteq> None"
  by (cases d) (simp_all add: insert_claim_def identity_def)

lemma identity_claim: "snd (snd (snd (identity d))) \<noteq> None \<Longrightarrow> insert_claim d"
  by (cases d) (simp_all add: insert_claim_def identity_def)

lemma two_in_filter:
  assumes "a \<in> set xs" and "b \<in> set xs" and "a \<noteq> b" and "P a" and "P b"
  shows "2 \<le> length (filter P xs)"
proof -
  have "card {a, b} \<le> card (set (filter P xs))" by (rule card_mono) (use assms in auto)
  also have "\<dots> \<le> length (filter P xs)" by (rule card_length)
  finally show ?thesis using assms(3) by simp
qed

lemma two_claims:
  assumes y: "db_reach cf sha is_uuid y" and ij: "i \<noteq> j"
    and i: "i < length (sys_tasks y)" "sys_tasks y ! i = (q, Ret r)" "claimed_id sha q = Some x" "accepted r"
    and j: "j < length (sys_tasks y)" "sys_tasks y ! j = (q', Ret r')" "claimed_id sha q' = Some x" "accepted r'"
  shows "\<exists>ev \<in> set (g_retired (sys_ghost y)). \<exists>t. ev_id ev = x \<and> expired_by cf (ev_time ev) (ev_doc ev)
    \<and> doc_expires (ev_doc ev) = Some t \<and> (claim_expiry q = Some t \<or> claim_expiry q' = Some t)"
proof -
  let ?s = "sys_state y" and ?g = "sys_ghost y"
  have iv: "db_inv cf sha ?s ?g" by (rule db_run.reach_invar [OF y])
  then have wf: "db_wf cf sha ?s" and cnt: "inv_count ?s ?g" and cl: "inv_claims cf sha ?g" by (simp_all add: db_inv_def)
  obtain e where e: "e \<in> set (g_issued ?g)" "ev_task e = i" "ev_id e = x" "insert_claim (ev_doc e)" "doc_expires (ev_doc e) = claim_expiry q"
    using reach_claimed [OF y i(1,2) _ i(4)] i(3) by (auto simp: claimed_def)
  obtain e' where e': "e' \<in> set (g_issued ?g)" "ev_task e' = j" "ev_id e' = x" "insert_claim (ev_doc e')" "doc_expires (ev_doc e') = claim_expiry q'"
    using reach_claimed [OF y j(1,2) _ j(4)] j(3) by (auto simp: claimed_def)
  let ?N = "\<lambda>(x', ident). x' = x \<and> snd (snd (snd ident)) \<in> {claim_expiry q, claim_expiry q'}"
  have "2 \<le> length (filter (\<lambda>ev. ?N (event_tag ev)) (g_issued ?g))"
    by (rule two_in_filter [OF e(1) e'(1)])
      (use ij e e' claim_identity [OF e(4)] claim_identity [OF e'(4)] in \<open>auto simp: event_tag_def\<close>)
  moreover have "length (filter ?N (live_tags ?s)) \<le> 1"
  proof -
    have "length (filter ?N xs) \<le> length (filter (\<lambda>(x', ident). x' = x) xs)" for xs by (induction xs) auto
    from this [of "live_tags ?s"]
    show ?thesis using live_once [OF wf, of x] by linarith
  qed
  ultimately have "filter (\<lambda>ev. ?N (event_tag ev)) (g_retired ?g) \<noteq> []"
    using retired_le_issued [OF cnt, of ?N] by auto
  then obtain ev where ev: "ev \<in> set (g_retired ?g)" "?N (event_tag ev)" by (auto simp: filter_empty_conv)
  have some: "claim_expiry q \<noteq> None" "claim_expiry q' \<noteq> None"
    using claim_identity [OF e(4)] claim_identity [OF e'(4)] e(5) e'(5) by auto
  have ex: "snd (snd (snd (identity (ev_doc ev)))) \<in> {claim_expiry q, claim_expiry q'}" and x: "ev_id ev = x"
    using ev(2) by (auto simp: event_tag_def)
  then have ic: "insert_claim (ev_doc ev)" using some by (intro identity_claim) auto
  then have "expired_by cf (ev_time ev) (ev_doc ev)" using cl ev(1) by (auto simp: inv_claims_def)
  with ev(1) x ex claim_identity [OF ic] show ?thesis by auto
qed

lemma expired_by_clock:
  assumes "text_law cf" and "expired_by cf t d" and "doc_expires d = Some x" and "in_range x" and "0 \<le> x" and "in_range t"
  shows "x div 10 ^ 9 < t div 10 ^ 9"
proof -
  obtain now where n: "read_by now t" "sc_text cf x < timestamp_seconds cf now" using assms(2,3) by (auto simp: expired_by_def)
  then have "in_range now" using assms(6) by (auto simp: in_range_def)
  from text_seconds(1) [OF assms(1,4,5) this] n have "x div 10 ^ 9 < now div 10 ^ 9" by simp
  also have "\<dots> \<le> t div 10 ^ 9" using n(1) by (simp add: zdiv_mono1)
  finally show ?thesis .
qed

lemma claimed_twice_after_expiry:
  assumes y: "db_reach cf sha is_uuid y" and law: "text_law cf" and ij: "i \<noteq> j"
    and i: "i < length (sys_tasks y)" "sys_tasks y ! i = (q, Ret r)" "claimed_id sha q = Some x" "accepted r"
    and j: "j < length (sys_tasks y)" "sys_tasks y ! j = (q', Ret r')" "claimed_id sha q' = Some x" "accepted r'"
    and t: "\<And>e. claim_expiry q = Some e \<or> claim_expiry q' = Some e \<Longrightarrow> in_range e \<and> t \<le> e" and "0 \<le> t"
  shows "t div 10 ^ 9 < g_time (sys_ghost y) div 10 ^ 9"
proof -
  obtain ev e where ev: "ev \<in> set (g_retired (sys_ghost y))" "expired_by cf (ev_time ev) (ev_doc ev)" "doc_expires (ev_doc ev) = Some e"
    and e: "claim_expiry q = Some e \<or> claim_expiry q' = Some e"
    using two_claims [OF y ij i j] by blast
  have le: "ev_time ev \<le> g_time (sys_ghost y)" and rg: "in_range (g_time (sys_ghost y))" using reach_times [OF y] ev(1) by auto
  obtain now where n: "read_by now (ev_time ev)" "sc_text cf e < timestamp_seconds cf now"
    using ev(2,3) by (auto simp: expired_by_def)
  have "expired_by cf (g_time (sys_ghost y)) (ev_doc ev)" unfolding expired_by_def using n le ev(3) by fastforce
  from expired_by_clock [OF law this ev(3) _ _ rg] t [OF e] assms(13)
  have "e div 10 ^ 9 < g_time (sys_ghost y) div 10 ^ 9" by auto
  moreover have "t div 10 ^ 9 \<le> e div 10 ^ 9" using t [OF e] by (simp add: zdiv_mono1)
  ultimately show ?thesis by linarith
qed

end
