(* ===== verification/Oidc_Dpop.thy ===== *)
theory Oidc_Dpop
  imports Jose Oidc_Error Flow Db_Clock
begin

text \<open>
  Proofs of possession (\<open>services/oidc/dpop.rs\<close>, the confirmation claims of
  \<open>services/oidc/claims.rs\<close>). Validation of a proof is a handler over the store: it claims the
  identifier of the proof, hands out nonces and looks them up, as requests of \<open>Db_System\<close>.

  The URL library, Unicode upper case, the construction of keys and the checks of the JWT library
  under a key are parameters.
\<close>

section \<open>Proofs\<close>

text \<open>A URL is its serialization.\<close>

record dpop_claims =
  dp_jti :: string
  dp_htm :: string
  dp_htu :: string
  dp_iat :: timestamp
  dp_nonce :: "string option"
  dp_ath :: "string option"
  dp_source :: "string option"

record 'k dpop_lib =
  dl_jose :: jose_lib
  url_parse :: "string \<Rightarrow> string option"
  url_set_query :: "string \<Rightarrow> string option \<Rightarrow> string"
  url_set_fragment :: "string \<Rightarrow> string option \<Rightarrow> string"
  url_set_port :: "string \<Rightarrow> nat option \<Rightarrow> string"
  to_uppercase :: "string \<Rightarrow> string"
  from_ec_components :: "string \<Rightarrow> string \<Rightarrow> string + 'k"
  from_rsa_components :: "string \<Rightarrow> string \<Rightarrow> string + 'k"
  from_ed_components :: "string \<Rightarrow> string + 'k"
  jwt_verify :: "string \<Rightarrow> 'k \<Rightarrow> jws_algorithm \<Rightarrow> dpop_claims option"

definition NONCE_VALIDITY_SECONDS :: int where
  "NONCE_VALIDITY_SECONDS = 300"

definition PROOF_SKEW_SECONDS :: int where
  "PROOF_SKEW_SECONDS = 60"

definition saturating_add :: "int \<Rightarrow> int \<Rightarrow> int" where
  "saturating_add a b = max (- (2 ^ 63)) (min (2 ^ 63 - 1) (a + b))"

definition nonce_validity_seconds :: "int \<Rightarrow> int" where
  "nonce_validity_seconds config_max_age =
     min NONCE_VALIDITY_SECONDS (saturating_add config_max_age PROOF_SKEW_SECONDS)"

definition SUPPORTED_ALGORITHMS :: "jws_algorithm list" where
  "SUPPORTED_ALGORITHMS = FAPI_ALLOWED"

record dpop_header =
  dh_alg :: jws_algorithm
  dh_jwk :: jwk

datatype dpop_error =
  MissingProof | MultipleProofs | InvalidFormat string | InvalidSignature | UnsupportedAlgorithm string
| Expired | ReplayDetected | MethodMismatch | UriMismatch | InvalidNonce | TokenHashMismatch
| UseNonce string | DpopDatabase string db_error

text \<open>A validated proof; the claim on its identifier that it owns is the answer it follows from.\<close>

record validated_dpop_proof =
  vp_jkt :: string
  vp_jti :: string
  vp_source :: "string option"

definition compute_access_token_hash :: "jose_lib \<Rightarrow> string \<Rightarrow> string" where
  "compute_access_token_hash jl access_token = b64url jl (sha256 jl access_token)"

definition quoted :: "string \<Rightarrow> string" where
  "quoted s = [CHR 0x27] @ s @ [CHR 0x27]"

definition parse_dpop_header :: "jose_lib \<Rightarrow> string \<Rightarrow> dpop_error + dpop_header" where
  "parse_dpop_header jl proof =
     (case jws_parse jl proof of
        Inl Critical \<Rightarrow> Inl (InvalidFormat (''DPoP proof header carries an unsupported '' @ quoted ''crit'' @ '' extension''))
      | Inl PrivateKey \<Rightarrow> Inl (InvalidFormat ''JWK in DPoP proof header must not contain private key material'')
      | Inl (Malformed reason) \<Rightarrow> Inl (InvalidFormat reason)
      | Inr jws \<Rightarrow>
          (case jh_jwk (jws_header jws) of
             None \<Rightarrow> Inl (InvalidFormat (''DPoP proof header must carry '' @ quoted ''jwk''))
           | Some k \<Rightarrow>
               let ty = (case jh_typ (jws_header jws) of Some t \<Rightarrow> t | None \<Rightarrow> []) in
               if ty \<noteq> ''dpop+jwt'' then
                 Inl (InvalidFormat (''typ must be '' @ quoted ''dpop+jwt'' @ '', got '' @ quoted ty))
               else (case jh_alg (jws_header jws) of
                  OtherAlg name \<Rightarrow> Inl (UnsupportedAlgorithm name)
                | Known alg \<Rightarrow>
                    if alg \<notin> set SUPPORTED_ALGORITHMS then Inl (UnsupportedAlgorithm (alg_as_str alg))
                    else Inr \<lparr>dh_alg = alg, dh_jwk = k\<rparr>)))"

definition build_decoding_key :: "'k dpop_lib \<Rightarrow> jwk \<Rightarrow> jws_algorithm \<Rightarrow> dpop_error + 'k" where
  "build_decoding_key dl k alg =
     (let unsupported = Inl (UnsupportedAlgorithm (alg_as_str alg));
          described = (\<lambda>what r. case r of Inl e \<Rightarrow> Inl (InvalidFormat (what @ e)) | Inr key \<Rightarrow> Inr key) in
      case alg of
        Es256 \<Rightarrow> (case k of Ec ec \<Rightarrow> described ''Invalid EC key: '' (from_ec_components dl (ec_x ec) (ec_y ec)) | _ \<Rightarrow> unsupported)
      | Ps256 \<Rightarrow> (case k of Rsa rsa \<Rightarrow> described ''Invalid RSA key: '' (from_rsa_components dl (rsa_n rsa) (rsa_e rsa)) | _ \<Rightarrow> unsupported)
      | EdDsa \<Rightarrow> (case k of Okp okp \<Rightarrow> described ''Invalid Ed25519 key: '' (from_ed_components dl (okp_x okp)) | _ \<Rightarrow> unsupported)
      | Rs256 \<Rightarrow> unsupported)"

definition parse_and_verify_dpop_proof :: "'k dpop_lib \<Rightarrow> string \<Rightarrow> dpop_error + dpop_header \<times> dpop_claims" where
  "parse_and_verify_dpop_proof dl proof =
     (case parse_dpop_header (dl_jose dl) proof of
        Inl e \<Rightarrow> Inl e
      | Inr header \<Rightarrow>
          (case build_decoding_key dl (dh_jwk header) (dh_alg header) of
             Inl e \<Rightarrow> Inl e
           | Inr key \<Rightarrow>
               if dh_alg header = Rs256 then Inl (UnsupportedAlgorithm (alg_as_str (dh_alg header)))
               else (case jwt_verify dl proof key (dh_alg header) of
                  None \<Rightarrow> Inl InvalidSignature
                | Some claims \<Rightarrow> Inr (header, claims))))"

definition normalize_uri :: "'k dpop_lib \<Rightarrow> string \<Rightarrow> string option" where
  "normalize_uri dl uri =
     map_option (\<lambda>parsed. url_set_fragment dl (url_set_query dl parsed None) None) (url_parse dl uri)"

record dpop_claims_validation =
  dv_now :: timestamp
  dv_method :: string
  dv_uris :: "string list"
  dv_max_age :: int
  dv_nonce :: "string option"
  dv_ath :: "string option"

definition validate_dpop_claims :: "'k dpop_lib \<Rightarrow> dpop_claims \<Rightarrow> dpop_claims_validation \<Rightarrow> dpop_error + unit" where
  "validate_dpop_claims dl claims ps =
     (if to_uppercase dl (dp_htm claims) \<noteq> to_uppercase dl (dv_method ps) then Inl MethodMismatch
      else (case normalize_uri dl (dp_htu claims) of
         None \<Rightarrow> Inl UriMismatch
       | Some claims_uri \<Rightarrow>
           if claims_uri \<notin> set (List.map_filter (normalize_uri dl) (dv_uris ps)) then Inl UriMismatch
           else if \<not> accepts_at (window_issued_at (dp_iat claims) (dv_max_age ps)) (dv_now ps) 0 PROOF_SKEW_SECONDS
           then Inl Expired
           else if (case dv_nonce ps of None \<Rightarrow> False | Some expected \<Rightarrow> dp_nonce claims \<noteq> Some expected)
           then Inl InvalidNonce
           else if (case dv_ath ps of None \<Rightarrow> False | Some expected \<Rightarrow> dp_ath claims \<noteq> Some expected)
           then Inl TokenHashMismatch
           else Inr ()))"

section \<open>Validation over the store\<close>

datatype nonce_policy = NonceRequired | NonceOptional

definition requires_nonce :: "nonce_policy \<Rightarrow> bool" where
  "requires_nonce p \<longleftrightarrow> p = NonceRequired"

type_synonym ('x, 'a) db_flow = "(request, response, 'x, 'a) flow"

text \<open>
  Calls of the store: the answer to a request has the form its operation gives it; another form
  does not occur and is taken as a failure of the store.
\<close>

definition claim_of :: "response \<Rightarrow> claim_error + unit" where
  "claim_of r = (case r of RClaim c \<Rightarrow> c | _ \<Rightarrow> Inl (Database (OtherError ''response'')))"

definition text_of :: "response \<Rightarrow> db_error + string" where
  "text_of r = (case r of RText c \<Rightarrow> c | _ \<Rightarrow> Inl (OtherError ''response''))"

definition call_claim ::
    "request \<Rightarrow> (claim_error \<Rightarrow> ('x, 'a) db_flow) \<Rightarrow> ('x, 'a) db_flow \<Rightarrow> ('x, 'a) db_flow" where
  "call_claim q refused k = Call q (\<lambda>r. case claim_of r of Inl e \<Rightarrow> refused e | Inr _ \<Rightarrow> k)"

definition new_nonce_answer :: "int \<Rightarrow> ('x, dpop_error + 'a) db_flow" where
  "new_nonce_answer config_max_age =
     Call (NewDpopNonce (nonce_validity_seconds config_max_age)) (\<lambda>r.
       Finish (case text_of r of
          Inl e \<Rightarrow> Inl (DpopDatabase ''nonce generation failed: '' e)
        | Inr nonce \<Rightarrow> Inl (UseNonce nonce)))"

record dpop_request =
  dr_proof :: string
  dr_method :: string
  dr_uris :: "string list"
  dr_max_age :: int
  dr_ath :: "string option"
  dr_policy :: nonce_policy
  dr_arrival :: timestamp

definition arrival_second :: "timestamp \<Rightarrow> int" where
  "arrival_second now = saturating_add (as_second now) (if subsec_nanosecond now \<noteq> 0 then 1 else 0)"

definition jti_request :: "dpop_request \<Rightarrow> dpop_claims \<Rightarrow> request" where
  "jti_request rq claims =
     StoreJti (dp_jti claims) (arrival_second (dr_arrival rq)) (saturating_add (dr_max_age rq) PROOF_SKEW_SECONDS)"

definition claims_validation :: "dpop_request \<Rightarrow> dpop_claims_validation" where
  "claims_validation rq =
     \<lparr>dv_now = dr_arrival rq, dv_method = dr_method rq, dv_uris = dr_uris rq, dv_max_age = dr_max_age rq,
      dv_nonce = None, dv_ath = dr_ath rq\<rparr>"

text \<open>The handler in three parts: the claim on the identifier, the claims, the nonce.\<close>

definition check_nonce :: "dpop_request \<Rightarrow> dpop_claims \<Rightarrow> validated_dpop_proof \<Rightarrow> ('x, dpop_error + validated_dpop_proof) db_flow" where
  "check_nonce rq claims proof =
     (case dp_nonce claims of
        None \<Rightarrow> Finish (Inr proof)
      | Some nonce \<Rightarrow>
          call_claim (CheckDpopNonce nonce (dr_arrival rq))
            (\<lambda>e. case e of
               AlreadyConsumed \<Rightarrow> new_nonce_answer (dr_max_age rq)
             | InvalidInput msg \<Rightarrow> Finish (Inl (InvalidFormat msg))
             | Database e \<Rightarrow> Finish (Inl (DpopDatabase ''nonce validation failed: '' e)))
            (Finish (Inr proof)))"

definition check_claims ::
    "'k dpop_lib \<Rightarrow> dpop_request \<Rightarrow> dpop_claims \<Rightarrow> validated_dpop_proof \<Rightarrow> ('x, dpop_error + validated_dpop_proof) db_flow" where
  "check_claims dl rq claims proof =
     (if requires_nonce (dr_policy rq) \<and> dp_nonce claims = None then new_nonce_answer (dr_max_age rq)
      else (case validate_dpop_claims dl claims (claims_validation rq) of
         Inl e \<Rightarrow> Finish (Inl e)
       | Inr _ \<Rightarrow> check_nonce rq claims proof))"

definition validate_dpop_common :: "'k dpop_lib \<Rightarrow> dpop_request \<Rightarrow> ('x, dpop_error + validated_dpop_proof) db_flow" where
  "validate_dpop_common dl rq =
     (case parse_and_verify_dpop_proof dl (dr_proof rq) of
        Inl e \<Rightarrow> Finish (Inl e)
      | Inr (header, claims) \<Rightarrow>
          call_claim (jti_request rq claims)
            (\<lambda>e. case e of
               AlreadyConsumed \<Rightarrow> Finish (Inl ReplayDetected)
             | InvalidInput msg \<Rightarrow> Finish (Inl (InvalidFormat msg))
             | Database e \<Rightarrow> Finish (Inl (DpopDatabase ''JTI check failed: '' e)))
            (check_claims dl rq claims
               \<lparr>vp_jkt = thumbprint (dl_jose dl) (dh_jwk header), vp_jti = dp_jti claims, vp_source = dp_source claims\<rparr>))"

definition HEADER_DPOP :: string where
  "HEADER_DPOP = ''dpop''"

definition from_headers :: "header_map \<Rightarrow> dpop_error + string option" where
  "from_headers headers =
     (case get_all headers HEADER_DPOP of
        [] \<Rightarrow> Inr None
      | [value'] \<Rightarrow>
          (case header_to_str value' of
             Some proof \<Rightarrow> Inr (Some proof)
           | None \<Rightarrow> Inl (InvalidFormat ''DPoP header is not visible ASCII''))
      | _ \<Rightarrow> Inl MultipleProofs)"

definition validate_dpop_proof ::
    "'k dpop_lib \<Rightarrow> string \<Rightarrow> string \<Rightarrow> string list \<Rightarrow> int \<Rightarrow> timestamp \<Rightarrow> ('x, dpop_error + validated_dpop_proof) db_flow" where
  "validate_dpop_proof dl proof expected_method accepted_uris config_max_age arrival =
     validate_dpop_common dl \<lparr>dr_proof = proof, dr_method = expected_method, dr_uris = accepted_uris,
       dr_max_age = config_max_age, dr_ath = None, dr_policy = NonceRequired, dr_arrival = arrival\<rparr>"

definition validate_dpop_at_resource ::
    "'k dpop_lib \<Rightarrow> string \<Rightarrow> header_map \<Rightarrow> string \<Rightarrow> string list \<Rightarrow> int \<Rightarrow> timestamp \<Rightarrow> ('x, dpop_error + validated_dpop_proof) db_flow" where
  "validate_dpop_at_resource dl access_token headers method' accepted_uris config_max_age arrival =
     (case from_headers headers of
        Inl e \<Rightarrow> Finish (Inl e)
      | Inr None \<Rightarrow> Finish (Inl MissingProof)
      | Inr (Some proof) \<Rightarrow>
          validate_dpop_common dl \<lparr>dr_proof = proof, dr_method = method', dr_uris = accepted_uris,
            dr_max_age = config_max_age, dr_ath = Some (compute_access_token_hash (dl_jose dl) access_token),
            dr_policy = NonceOptional, dr_arrival = arrival\<rparr>)"

definition trim_end_slash :: "string \<Rightarrow> string" where
  "trim_end_slash s = rev (dropWhile (\<lambda>c. c = CHR ''/'') (rev s))"

definition build_accepted_uris :: "'k dpop_lib \<Rightarrow> string \<Rightarrow> string \<Rightarrow> bool \<Rightarrow> nat \<Rightarrow> string list" where
  "build_accepted_uris dl base_url path tls_configured mtls_port =
     (base_url @ path) #
     (if tls_configured then
        (case url_parse dl base_url of
           Some url \<Rightarrow> [trim_end_slash (url_set_port dl url (Some mtls_port)) @ path]
         | None \<Rightarrow> [])
      else [])"

section \<open>What a client is told\<close>

datatype possession_error =
  MissingDpopProof | DpopKeyMismatch | MissingClientCertificate | ClientCertificateMismatch | DpopRequired | NotDpopBound

fun possession_as_str :: "possession_error \<Rightarrow> string" where
  "possession_as_str MissingDpopProof = ''Missing DPoP proof header for sender-constrained token''"
| "possession_as_str DpopKeyMismatch = ''DPoP proof key does not match token binding''"
| "possession_as_str MissingClientCertificate = ''mTLS certificate required for certificate-bound token''"
| "possession_as_str ClientCertificateMismatch = ''Client certificate does not match token binding''"
| "possession_as_str DpopRequired = ''client requires DPoP-bound access tokens, but the token is certificate-bound''"
| "possession_as_str NotDpopBound = ''DPoP scheme used but token is not DPoP-bound''"

definition for_exchange :: "possession_error \<Rightarrow> string \<Rightarrow> service_error" where
  "for_exchange e parameter = OAuth InvalidRequest (parameter @ '': '' @ possession_as_str e)"

fun dpop_to_string :: "(db_error \<Rightarrow> string) \<Rightarrow> dpop_error \<Rightarrow> string" where
  "dpop_to_string db_text MissingProof = ''missing DPoP proof''"
| "dpop_to_string db_text MultipleProofs = ''request must contain exactly one DPoP header''"
| "dpop_to_string db_text (InvalidFormat msg) = ''invalid DPoP format: '' @ msg"
| "dpop_to_string db_text InvalidSignature = ''invalid DPoP signature''"
| "dpop_to_string db_text (UnsupportedAlgorithm alg) = ''unsupported DPoP algorithm: '' @ alg"
| "dpop_to_string db_text Expired = ''DPoP proof expired''"
| "dpop_to_string db_text ReplayDetected = ''DPoP proof replay detected''"
| "dpop_to_string db_text MethodMismatch = ''DPoP htm claim mismatch''"
| "dpop_to_string db_text UriMismatch = ''DPoP htu claim mismatch''"
| "dpop_to_string db_text InvalidNonce = ''invalid or missing DPoP nonce''"
| "dpop_to_string db_text TokenHashMismatch = ''DPoP ath claim mismatch''"
| "dpop_to_string db_text (UseNonce nonce) = ''use_dpop_nonce: '' @ nonce"
| "dpop_to_string db_text (DpopDatabase what e) = ''DPoP backend failure: '' @ what @ db_text e"

record dpop_refusal =
  df_error :: oauth_error_code
  df_description :: string
  df_nonce :: "string option"

definition resource_challenge :: "(db_error \<Rightarrow> string) \<Rightarrow> dpop_error \<Rightarrow> dpop_refusal option" where
  "resource_challenge db_text e =
     (case e of
        DpopDatabase _ _ \<Rightarrow> None
      | UseNonce nonce \<Rightarrow> Some \<lparr>df_error = UseDpopNonce,
          df_description = ''Resource server requires nonce in DPoP proof'', df_nonce = Some nonce\<rparr>
      | MissingProof \<Rightarrow> Some \<lparr>df_error = InvalidDpopProof,
          df_description = possession_as_str MissingDpopProof, df_nonce = None\<rparr>
      | _ \<Rightarrow> Some \<lparr>df_error = InvalidDpopProof, df_description = dpop_to_string db_text e, df_nonce = None\<rparr>)"

definition binding_refusal :: "possession_error \<Rightarrow> dpop_refusal" where
  "binding_refusal failure = \<lparr>df_error = InvalidTokenCode, df_description = possession_as_str failure, df_nonce = None\<rparr>"

definition token_refusal :: "string \<Rightarrow> dpop_refusal" where
  "token_refusal description = \<lparr>df_error = InvalidTokenCode, df_description = description, df_nonce = None\<rparr>"

definition refusal_headers :: "(string \<Rightarrow> string option) \<Rightarrow> dpop_refusal \<Rightarrow> header_map" where
  "refusal_headers from_str c =
     (let algs = join_with '' '' (map alg_as_str SUPPORTED_ALGORITHMS);
          text = dpop_challenge [(''error'', code_as_str (df_error c)), (''error_description'', df_description c), (''algs'', algs)] in
      (case from_str text of Some v \<Rightarrow> [(''www-authenticate'', v)] | None \<Rightarrow> [])
      @ (case Option.bind (df_nonce c) from_str of Some v \<Rightarrow> [(''dpop-nonce'', v)] | None \<Rightarrow> []))"

definition refusal_oauth_response :: "(string \<Rightarrow> string option) \<Rightarrow> dpop_refusal \<Rightarrow> error_response" where
  "refusal_oauth_response from_str c =
     \<lparr>er_status = UNAUTHORIZED, er_headers = refusal_headers from_str c,
      er_body = OAuthBody (code_as_str (df_error c)) (Some (error_description (df_description c)))\<rparr>"

definition refusal_error :: "(string \<Rightarrow> string option) \<Rightarrow> dpop_refusal \<Rightarrow> service_error" where
  "refusal_error from_str c =
     ApiWithHeaders UNAUTHORIZED (code_as_str (df_error c)) (df_description c) (refusal_headers from_str c)"

definition at_resource :: "(db_error \<Rightarrow> string) \<Rightarrow> (string \<Rightarrow> string option) \<Rightarrow> dpop_error \<Rightarrow> service_error" where
  "at_resource db_text from_str e =
     (case resource_challenge db_text e of
        Some c \<Rightarrow> refusal_error from_str c
      | None \<Rightarrow> Api INTERNAL_SERVER_ERROR ''server_error'' ''DPoP validation backend error'')"

section \<open>Confirmation claims\<close>

record cnf_claim =
  cnf_jkt :: "string option"
  cnf_x5t :: "string option"

record sender_constraints =
  sc_dpop :: "validated_dpop_proof option"
  sc_cert :: "string option"

datatype token_binding = DpopBinding validated_dpop_proof | MutualTlsBinding string | BearerBinding

definition cnf_token_type :: "cnf_claim \<Rightarrow> string" where
  "cnf_token_type c = (if cnf_jkt c \<noteq> None then ''DPoP'' else ''Bearer'')"

definition confirms_dpop :: "cnf_claim \<Rightarrow> validated_dpop_proof \<Rightarrow> bool" where
  "confirms_dpop c proof \<longleftrightarrow> cnf_jkt c = Some (vp_jkt proof)"

definition confirms_certificate :: "cnf_claim \<Rightarrow> string \<Rightarrow> bool" where
  "confirms_certificate c cert \<longleftrightarrow> cnf_x5t c = Some cert"

definition confirmed_binding :: "cnf_claim \<Rightarrow> sender_constraints \<Rightarrow> possession_error + token_binding option" where
  "confirmed_binding c keys =
     (if cnf_jkt c \<noteq> None then
        (case sc_dpop keys of
           None \<Rightarrow> Inl MissingDpopProof
         | Some proof \<Rightarrow> if \<not> confirms_dpop c proof then Inl DpopKeyMismatch else Inr (Some (DpopBinding proof)))
      else if cnf_x5t c \<noteq> None then
        (case sc_cert keys of
           None \<Rightarrow> Inl MissingClientCertificate
         | Some cert \<Rightarrow> if \<not> confirms_certificate c cert then Inl ClientCertificateMismatch else Inr (Some (MutualTlsBinding cert)))
      else Inr None)"

section \<open>What a validated proof shows\<close>

lemma claim_of_InrD: "claim_of r = Inr u \<Longrightarrow> r = RClaim (Inr ())"
  by (auto simp: claim_of_def split: response.splits)

lemma follows_call_claim:
  "follows (call_claim q refused k) cs (Finish a) \<longleftrightarrow>
     (\<exists>cs'. cs = (q, RClaim (Inr ())) # cs' \<and> follows k cs' (Finish a))
     \<or> (\<exists>r e cs'. cs = (q, r) # cs' \<and> claim_of r = Inl e \<and> follows (refused e) cs' (Finish a))"
    (is "?l \<longleftrightarrow> ?won \<or> ?lost")
proof
  assume ?l
  then obtain r cs' where r: "cs = (q, r) # cs'"
    "follows (case claim_of r of Inl e \<Rightarrow> refused e | Inr _ \<Rightarrow> k) cs' (Finish a)"
    by (auto simp: call_claim_def follows_Call)
  show "?won \<or> ?lost"
  proof (cases "claim_of r")
    case (Inl e)
    then show ?thesis using r by auto
  next
    case (Inr u)
    then show ?thesis using r claim_of_InrD [OF Inr] by auto
  qed
next
  assume "?won \<or> ?lost"
  then show ?l
    by (elim disjE exE conjE) (auto simp: call_claim_def follows_Call claim_of_def)
qed

lemma new_nonce_answer_Inr: "\<not> follows (new_nonce_answer n) cs (Finish (Inr p))"
  by (auto simp: new_nonce_answer_def follows_simps split: sum.splits)

definition dpop_proof_of :: "'k dpop_lib \<Rightarrow> dpop_header \<Rightarrow> dpop_claims \<Rightarrow> validated_dpop_proof" where
  "dpop_proof_of dl h c =
     \<lparr>vp_jkt = thumbprint (dl_jose dl) (dh_jwk h), vp_jti = dp_jti c, vp_source = dp_source c\<rparr>"

definition nonce_calls :: "dpop_request \<Rightarrow> dpop_claims \<Rightarrow> (request \<times> response) list" where
  "nonce_calls rq c =
     (case dp_nonce c of None \<Rightarrow> [] | Some n \<Rightarrow> [(CheckDpopNonce n (dr_arrival rq), RClaim (Inr ()))])"

definition dpop_promise ::
    "'k dpop_lib \<Rightarrow> dpop_request \<Rightarrow> dpop_error + validated_dpop_proof \<Rightarrow> (request \<times> response) list \<Rightarrow> bool" where
  "dpop_promise dl rq a cs \<longleftrightarrow>
     (\<forall>p. a = Inr p \<longrightarrow>
        (\<exists>h c. parse_and_verify_dpop_proof dl (dr_proof rq) = Inr (h, c) \<and> p = dpop_proof_of dl h c
          \<and> validate_dpop_claims dl c (claims_validation rq) = Inr ()
          \<and> (requires_nonce (dr_policy rq) \<longrightarrow> dp_nonce c \<noteq> None)
          \<and> cs = (jti_request rq c, RClaim (Inr ())) # nonce_calls rq c))"

lemma refused_Inr:
  assumes "\<And>cs. \<not> follows f cs (Finish (Inr p))"
  shows "\<not> follows (case e of AlreadyConsumed \<Rightarrow> f | InvalidInput m \<Rightarrow> Finish (Inl (g m)) | Database d \<Rightarrow> Finish (Inl (h d)))
    cs (Finish (Inr p))"
  using assms by (cases e) (auto simp: follows_simps)

lemma check_nonce_Inr:
  "follows (check_nonce rq c p) cs (Finish (Inr p')) \<longleftrightarrow> p' = p \<and> cs = nonce_calls rq c"
  by (auto simp: check_nonce_def nonce_calls_def follows_call_claim follows_Finish
      refused_Inr [OF new_nonce_answer_Inr] split: option.splits)

lemma check_claims_Inr:
  "follows (check_claims dl rq c p) cs (Finish (Inr p')) \<longleftrightarrow>
     validate_dpop_claims dl c (claims_validation rq) = Inr () \<and> (requires_nonce (dr_policy rq) \<longrightarrow> dp_nonce c \<noteq> None)
     \<and> p' = p \<and> cs = nonce_calls rq c"
  by (auto simp: check_claims_def check_nonce_Inr new_nonce_answer_Inr follows_simps split: sum.splits)

lemma validate_dpop_common_promise:
  assumes "follows (validate_dpop_common dl rq :: ('b, dpop_error + validated_dpop_proof) db_flow) cs (Finish a)"
  shows "dpop_promise dl rq a cs"
  unfolding dpop_promise_def
proof (intro allI impI)
  fix p assume a: "a = Inr p"
  obtain h c where hc: "parse_and_verify_dpop_proof dl (dr_proof rq) = Inr (h, c)"
    using assms a by (auto simp: validate_dpop_common_def follows_simps split: sum.splits)
  then obtain cs' where "cs = (jti_request rq c, RClaim (Inr ())) # cs'"
    "follows (check_claims dl rq c (dpop_proof_of dl h c) :: ('b, dpop_error + validated_dpop_proof) db_flow) cs' (Finish (Inr p))"
    using assms a
    by (auto simp: validate_dpop_common_def dpop_proof_of_def follows_call_claim refused_Inr follows_Finish)
  then show "\<exists>h c. parse_and_verify_dpop_proof dl (dr_proof rq) = Inr (h, c) \<and> p = dpop_proof_of dl h c
      \<and> validate_dpop_claims dl c (claims_validation rq) = Inr ()
      \<and> (requires_nonce (dr_policy rq) \<longrightarrow> dp_nonce c \<noteq> None)
      \<and> cs = (jti_request rq c, RClaim (Inr ())) # nonce_calls rq c"
    using hc by (auto simp: check_claims_Inr)
qed

interpretation dpop_run: handled "serve cf sha is_uuid" "db_env_ok cf sha" observe "db_inv cf sha" "db_rely sha"
  "db_post cf sha" db_empty ghost_start "validate_dpop_common dl" "dpop_promise dl"
  by unfold_locales (rule validate_dpop_common_promise)

abbreviation dpop_server where
  "dpop_server cf sha is_uuid dl \<equiv>
     server_reach (serve cf sha is_uuid) (db_env_ok cf sha) observe db_empty ghost_start (validate_dpop_common dl)"

lemma parse_and_verify_InrD:
  assumes "parse_and_verify_dpop_proof dl proof = Inr (h, c)"
  obtains w key where "jws_parse (dl_jose dl) proof = Inr w" "jh_jwk (jws_header w) = Some (dh_jwk h)"
    "jh_typ (jws_header w) = Some ''dpop+jwt''" "jh_alg (jws_header w) = Known (dh_alg h)"
    "dh_alg h \<in> set FAPI_ALLOWED" "build_decoding_key dl (dh_jwk h) (dh_alg h) = Inr key"
    "jwt_verify dl proof key (dh_alg h) = Some c"
proof -
  obtain key where ph: "parse_dpop_header (dl_jose dl) proof = Inr h"
    and key: "build_decoding_key dl (dh_jwk h) (dh_alg h) = Inr key" "jwt_verify dl proof key (dh_alg h) = Some c"
    using assms by (auto simp: parse_and_verify_dpop_proof_def split: sum.splits option.splits if_splits)
  obtain w where w: "jws_parse (dl_jose dl) proof = Inr w"
    using ph by (auto simp: parse_dpop_header_def split: sum.splits jws_error.splits)
  then have "jh_jwk (jws_header w) = Some (dh_jwk h) \<and> jh_typ (jws_header w) = Some ''dpop+jwt''
      \<and> jh_alg (jws_header w) = Known (dh_alg h) \<and> dh_alg h \<in> set FAPI_ALLOWED"
    using ph by (auto simp: parse_dpop_header_def Let_def SUPPORTED_ALGORITHMS_def
        split: option.splits header_alg.splits if_splits)
  with w key show ?thesis using that by blast
qed

text \<open>The key a proof is checked with is the key of its header, which is of the algorithm's family.\<close>

lemma build_decoding_key_InrD:
  assumes "build_decoding_key dl k alg = Inr key"
  shows "(\<exists>ec. alg = Es256 \<and> k = Ec ec \<and> from_ec_components dl (ec_x ec) (ec_y ec) = Inr key)
    \<or> (\<exists>rsa. alg = Ps256 \<and> k = Rsa rsa \<and> from_rsa_components dl (rsa_n rsa) (rsa_e rsa) = Inr key)
    \<or> (\<exists>okp. alg = EdDsa \<and> k = Okp okp \<and> from_ed_components dl (okp_x okp) = Inr key)"
  using assms by (cases alg; cases k) (auto simp: build_decoding_key_def Let_def split: sum.splits)

lemma validate_dpop_claims_InrD:
  assumes "validate_dpop_claims dl c ps = Inr ()"
  shows "to_uppercase dl (dp_htm c) = to_uppercase dl (dv_method ps)"
    "\<exists>u \<in> set (dv_uris ps). normalize_uri dl u \<noteq> None \<and> normalize_uri dl u = normalize_uri dl (dp_htu c)"
    "accepts_at (window_issued_at (dp_iat c) (dv_max_age ps)) (dv_now ps) 0 PROOF_SKEW_SECONDS"
    "dv_ath ps = None \<or> dp_ath c = dv_ath ps"
  using assms
  by (force simp: validate_dpop_claims_def map_filter_def split: if_splits option.splits)+

section \<open>Replay\<close>

text \<open>What the types of the source give: the arrival is an instant, the configured age a 64-bit integer.\<close>

definition dpop_request_ok :: "dpop_request \<Rightarrow> bool" where
  "dpop_request_ok rq \<longleftrightarrow> 0 \<le> dr_arrival rq \<and> dr_arrival rq \<le> TIMESTAMP_MAX
     \<and> 0 \<le> dr_max_age rq \<and> dr_max_age rq < 2 ^ 63 - 60"

lemma arrival_second_ceil:
  assumes "0 \<le> t" "t \<le> TIMESTAMP_MAX"
  shows "t \<le> arrival_second t * 10 ^ 9" "arrival_second t * 10 ^ 9 < t + 10 ^ 9"
proof -
  have a: "as_second t = t div 10 ^ 9" using assms(1) by (simp add: as_second_def)
  have s: "subsec_nanosecond t = t mod 10 ^ 9" by (simp add: subsec_nanosecond_def a minus_div_mult_eq_mod)
  have b: "0 \<le> t div 10 ^ 9" "t div 10 ^ 9 \<le> 253402207200"
    using assms zdiv_mono1 [OF assms(2), of "10 ^ 9"] by (simp_all add: TIMESTAMP_MAX_def)
  define q r where "q = t div 10 ^ 9" and "r = t mod 10 ^ 9"
  have t: "t = q * 10 ^ 9 + r" "0 \<le> r" "r < 10 ^ 9" by (simp_all add: q_def r_def)
  have "arrival_second t = q + (if r = 0 then 0 else 1)"
    using b by (simp add: arrival_second_def a s saturating_add_def q_def r_def)
  then show "t \<le> arrival_second t * 10 ^ 9" "arrival_second t * 10 ^ 9 < t + 10 ^ 9"
    using t by (auto simp: distrib_right)
qed

lemma window_covers:
  assumes "accepts_at (window_issued_at iat max_age) now 0 PROOF_SKEW_SECONDS"
    and "in_range iat" and "0 \<le> now" "now \<le> TIMESTAMP_MAX" and "0 \<le> max_age"
  shows "iat \<le> now + 60 * 10 ^ 9" and "now < iat + max_age * 10 ^ 9"
proof -
  have min: "TIMESTAMP_MIN \<le> 0" by (simp add: TIMESTAMP_MIN_def)
  have "\<not> not_yet_valid_at (window_issued_at iat max_age) now 60" and ex: "\<not> expired_at (window_issued_at iat max_age) now 0"
    using assms(1) by (simp_all add: accepts_at_def PROOF_SKEW_SECONDS_def)
  then show "iat \<le> now + 60 * 10 ^ 9"
    using assms(2,3) min
    by (auto simp: not_yet_valid_at_def window_issued_at_def checked_add_secs_def checked_timestamp_def in_range_def
        split: if_splits)
  have up: "TIMESTAMP_MIN \<le> iat + max_age * 10 ^ 9" using assms(2,5) by (simp add: in_range_def)
  show "now < iat + max_age * 10 ^ 9"
    using ex assms(3,4) min up
    by (auto simp: expired_at_def window_issued_at_def checked_add_secs_def checked_timestamp_def split: if_splits)
qed

lemma first_call: "map snd cs = (q, r) # rest \<Longrightarrow> \<exists>i. (i, q, r) \<in> set cs"
  by (cases cs) auto

lemma fresh_end:
  assumes "dpop_request_ok rq" "in_range (dp_iat c)" "validate_dpop_claims dl c (claims_validation rq) = Inr ()"
  shows "dp_iat c \<le> dr_arrival rq + 60 * 10 ^ 9" "dr_arrival rq < dp_iat c + dr_max_age rq * 10 ^ 9"
    "0 \<le> dp_iat c + dr_max_age rq * 10 ^ 9"
proof -
  show "dp_iat c \<le> dr_arrival rq + 60 * 10 ^ 9" and lt: "dr_arrival rq < dp_iat c + dr_max_age rq * 10 ^ 9"
    using window_covers [of "dp_iat c" "dr_max_age rq" "dr_arrival rq"] validate_dpop_claims_InrD(3) [OF assms(3)] assms(1,2)
    by (simp_all add: claims_validation_def dpop_request_ok_def)
  show "0 \<le> dp_iat c + dr_max_age rq * 10 ^ 9"
    using lt assms(1) by (simp add: dpop_request_ok_def)
qed

lemma jti_kept_long_enough:
  assumes rq: "dpop_request_ok rq" and iat: "in_range (dp_iat c)"
    and ok: "validate_dpop_claims dl c (claims_validation rq) = Inr ()"
    and e: "claim_expiry (jti_request rq c) = Some e"
  shows "in_range e" and "dp_iat c + dr_max_age rq * 10 ^ 9 \<le> e"
proof -
  let ?a = "dr_arrival rq" and ?m = "dr_max_age rq"
  have w: "dp_iat c \<le> ?a + 60 * 10 ^ 9" by (rule fresh_end [OF rq iat ok])
  have sat: "saturating_add ?m PROOF_SKEW_SECONDS = ?m + 60"
    using rq by (simp add: saturating_add_def PROOF_SKEW_SECONDS_def dpop_request_ok_def)
  have v: "e = arrival_second ?a * 10 ^ 9 + (?m + 60) * 10 ^ 9" "in_range e"
    using e unfolding claim_expiry_def jti_request_def sat
    by (auto simp: from_second_def checked_add_secs_def checked_timestamp_def in_range_def split: if_splits bind_splits)
  have "?a \<le> arrival_second ?a * 10 ^ 9"
    using arrival_second_ceil(1) [of ?a] rq by (simp add: dpop_request_ok_def)
  then show "in_range e" "dp_iat c + ?m * 10 ^ 9 \<le> e"
    using v w by (simp_all add: distrib_right)
qed

text \<open>
  C5: A proof is accepted once while it is fresh. Among all requests the server handles at the
  same time, over one store and beside all its other work, when two requests were answered with
  validated proofs of one identifier, then the clock has moved past the second in which the
  earlier of the two proofs stopped being fresh. Instants are in the range of the clock library.
\<close>
theorem dpop_proof_accepted_once:
  assumes v: "dpop_server cf sha is_uuid dl v" and law: "text_law cf"
    and k: "answered v k rq cs (Inr p)" and l: "answered v l rq' cs' (Inr p')" and kl: "k \<noteq> l"
    and same: "vp_jti p = vp_jti p'"
    and parsed: "parse_and_verify_dpop_proof dl (dr_proof rq) = Inr (h, c)"
      "parse_and_verify_dpop_proof dl (dr_proof rq') = Inr (h', c')"
    and range: "in_range (dp_iat c)" "in_range (dp_iat c')"
    and rq: "dpop_request_ok rq" "dpop_request_ok rq'"
  shows "(min (dp_iat c + dr_max_age rq * 10 ^ 9) (dp_iat c' + dr_max_age rq' * 10 ^ 9)) div 10 ^ 9
    < g_time (sys_ghost (sv_sys v)) div 10 ^ 9"
proof -
  have pk: "p = dpop_proof_of dl h c" "validate_dpop_claims dl c (claims_validation rq) = Inr ()"
      "map snd cs = (jti_request rq c, RClaim (Inr ())) # nonce_calls rq c"
    using dpop_run.answered_promise(1) [OF v k] parsed(1) by (auto simp: dpop_promise_def)
  have pl: "p' = dpop_proof_of dl h' c'" "validate_dpop_claims dl c' (claims_validation rq') = Inr ()"
      "map snd cs' = (jti_request rq' c', RClaim (Inr ())) # nonce_calls rq' c'"
    using dpop_run.answered_promise(1) [OF v l] parsed(2) by (auto simp: dpop_promise_def)
  obtain i where i: "(i, jti_request rq c, RClaim (Inr ())) \<in> set cs" using first_call [OF pk(3)] ..
  obtain j where j: "(j, jti_request rq' c', RClaim (Inr ())) \<in> set cs'" using first_call [OF pl(3)] ..
  have jti: "dp_jti c = dp_jti c'" using same pk(1) pl(1) by (simp add: dpop_proof_of_def)
  show ?thesis
  proof (rule claimed_twice_after_expiry [OF server_sys [OF v] law answered_distinct [OF v k l kl i j]
        answered_task [OF v k i] _ _ answered_task [OF v l j]])
    show "claimed_id sha (jti_request rq c) = Some (deterministic_dpop_jti_id sha (dp_jti c))"
      "claimed_id sha (jti_request rq' c') = Some (deterministic_dpop_jti_id sha (dp_jti c))"
      by (simp_all add: claimed_id_def jti_request_def jti)
    show "accepted (RClaim (Inr ()))" "accepted (RClaim (Inr ()))" by (simp_all add: accepted_def)
    show "in_range e \<and> min (dp_iat c + dr_max_age rq * 10 ^ 9) (dp_iat c' + dr_max_age rq' * 10 ^ 9) \<le> e"
      if "claim_expiry (jti_request rq c) = Some e \<or> claim_expiry (jti_request rq' c') = Some e" for e
      using that
    proof
      assume "claim_expiry (jti_request rq c) = Some e"
      from jti_kept_long_enough [OF rq(1) range(1) pk(2) this] show ?thesis by linarith
    next
      assume "claim_expiry (jti_request rq' c') = Some e"
      from jti_kept_long_enough [OF rq(2) range(2) pl(2) this] show ?thesis by linarith
    qed
    show "0 \<le> min (dp_iat c + dr_max_age rq * 10 ^ 9) (dp_iat c' + dr_max_age rq' * 10 ^ 9)"
      using fresh_end [OF rq(1) range(1) pk(2)] fresh_end [OF rq(2) range(2) pl(2)] by simp
  qed
qed

section \<open>A concrete run\<close>

definition demo_clock :: store_cfg where
  "demo_clock = \<lparr>sc_hmac = id, sc_text = demo_text\<rparr>"

lemma demo_clock_ok: "demo_ok e s g \<Longrightarrow> db_env_ok demo_clock demo_sha e s g"
  by (auto simp: demo_ok_def db_env_ok_def demo_clock_def demo_sha_def index_value_condition_def Let_def inj_def list_all_iff)

lemma demo_server_run:
  fixes handler :: "'i \<Rightarrow> ('x, 'a) db_flow"
  assumes "map_option (\<lambda>v. map handling_of (sv_handlings v))
      (run_server demo_ok observe (serve demo_clock demo_sha (\<lambda>_. True)) handler rs (server_start db_empty ghost_start)) = Some hs"
  obtains v where "server_reach (serve demo_clock demo_sha (\<lambda>_. True)) (db_env_ok demo_clock demo_sha) observe
      db_empty ghost_start handler v"
    and "\<And>k inp cs a. k < length hs \<Longrightarrow> hs ! k = Some (inp, cs, a) \<Longrightarrow> answered v k inp cs a"
proof -
  obtain v where v: "run_server demo_ok observe (serve demo_clock demo_sha (\<lambda>_. True)) handler rs
      (server_start db_empty ghost_start) = Some v" and hs: "hs = map handling_of (sv_handlings v)"
    using assms by auto
  have "server_reach (serve demo_clock demo_sha (\<lambda>_. True)) (db_env_ok demo_clock demo_sha) observe db_empty ghost_start handler v"
    by (rule run_server_reach [OF _ demo_clock_ok v]) (auto simp: server_start_def intro: server_reach.start)
  then show ?thesis using that hs by (simp add: answered_handling)
qed

definition demo_proof :: "string \<Rightarrow> string" where
  "demo_proof body = demo_b64 ''dpop'' @ ''.'' @ body @ ''.s''"

definition demo_dpop_claims :: "timestamp \<Rightarrow> dpop_claims" where
  "demo_dpop_claims iat = \<lparr>dp_jti = ''j'', dp_htm = ''POST'', dp_htu = ''https://vouch/token'', dp_iat = iat,
     dp_nonce = None, dp_ath = Some ''t-'', dp_source = None\<rparr>"

definition demo_dpop :: "string dpop_lib" where
  "demo_dpop = \<lparr>dl_jose = demo_jose, url_parse = Some, url_set_query = (\<lambda>u _. u), url_set_fragment = (\<lambda>u _. u),
     url_set_port = (\<lambda>u _. u), to_uppercase = id, from_ec_components = (\<lambda>x y. Inr (x @ y)),
     from_rsa_components = (\<lambda>n e. Inl ''no''), from_ed_components = (\<lambda>x. Inl ''no''),
     jwt_verify = (\<lambda>proof key alg.
       if key \<noteq> ''XY'' then None
       else if proof = demo_proof ''p'' then Some (demo_dpop_claims (100 * 10 ^ 9))
       else if proof = demo_proof ''q'' then Some (demo_dpop_claims (500 * 10 ^ 9)) else None)\<rparr>"

definition demo_rq :: "string \<Rightarrow> timestamp \<Rightarrow> dpop_request" where
  "demo_rq body t = \<lparr>dr_proof = demo_proof body, dr_method = ''POST'', dr_uris = [''https://vouch/token''],
     dr_max_age = 300, dr_ath = Some ''t-'', dr_policy = NonceOptional, dr_arrival = t\<rparr>"

definition demo_replay :: "(request \<times> db_env list + dpop_request \<times> db_env list list \<times> unit list) list" where
  "demo_replay =
     [Inr (demo_rq ''p'' (100 * 10 ^ 9 + 5), [[demo_env ''u1'' (101 * 10 ^ 9)]], []),
      Inr (demo_rq ''p'' (102 * 10 ^ 9), [[demo_env ''u2'' (102 * 10 ^ 9)]], []),
      Inl (Sweep ''dpop_jti'', map (\<lambda>u. demo_env u (490 * 10 ^ 9)) [''u3'', ''u4'', ''u5'']),
      Inr (demo_rq ''q'' (500 * 10 ^ 9), [[demo_env ''u6'' (500 * 10 ^ 9)]], [])]"

definition demo_validated :: validated_dpop_proof where
  "demo_validated = dpop_proof_of demo_dpop \<lparr>dh_alg = Es256, dh_jwk = demo_jwk\<rparr> (demo_dpop_claims 0)"

lemma demo_replay_run:
  "map_option (\<lambda>v. map handling_of (sv_handlings v))
      (run_server demo_ok observe (serve demo_clock demo_sha (\<lambda>_. True)) (validate_dpop_common demo_dpop) demo_replay
        (server_start db_empty ghost_start)) =
     Some [Some (demo_rq ''p'' (100 * 10 ^ 9 + 5),
             [(0, StoreJti ''j'' 101 360, RClaim (Inr ()))], Inr demo_validated),
           Some (demo_rq ''p'' (102 * 10 ^ 9),
             [(1, StoreJti ''j'' 102 360, RClaim (Inl AlreadyConsumed))], Inl ReplayDetected),
           Some (demo_rq ''q'' (500 * 10 ^ 9),
             [(3, StoreJti ''j'' 500 360, RClaim (Inr ()))], Inr demo_validated)]"
  by code_simp

theorem dpop_proof_accepted_once_witness:
  "\<exists>v :: (dpop_request, request, db_env, db, response, ghost, unit, dpop_error + validated_dpop_proof) server. \<exists>cs cs'.
     dpop_server demo_clock demo_sha (\<lambda>_. True) demo_dpop v
     \<and> answered v 0 (demo_rq ''p'' (100 * 10 ^ 9 + 5)) cs (Inr demo_validated)
     \<and> answered v 2 (demo_rq ''q'' (500 * 10 ^ 9)) cs' (Inr demo_validated)
     \<and> 400 < g_time (sys_ghost (sv_sys v)) div 10 ^ 9"
proof -
  obtain v where v: "dpop_server demo_clock demo_sha (\<lambda>_. True) demo_dpop
      (v :: (dpop_request, request, db_env, db, response, ghost, unit, dpop_error + validated_dpop_proof) server)"
    and a: "answered v 0 (demo_rq ''p'' (100 * 10 ^ 9 + 5)) [(0, StoreJti ''j'' 101 360, RClaim (Inr ()))] (Inr demo_validated)"
    and b: "answered v 2 (demo_rq ''q'' (500 * 10 ^ 9)) [(3, StoreJti ''j'' 500 360, RClaim (Inr ()))] (Inr demo_validated)"
    by (rule demo_server_run [OF demo_replay_run]) simp
  have pa: "parse_and_verify_dpop_proof demo_dpop (dr_proof (demo_rq ''p'' (100 * 10 ^ 9 + 5))) =
      Inr (\<lparr>dh_alg = Es256, dh_jwk = demo_jwk\<rparr>, demo_dpop_claims (100 * 10 ^ 9))"
    and pb: "parse_and_verify_dpop_proof demo_dpop (dr_proof (demo_rq ''q'' (500 * 10 ^ 9))) =
      Inr (\<lparr>dh_alg = Es256, dh_jwk = demo_jwk\<rparr>, demo_dpop_claims (500 * 10 ^ 9))"
    by code_simp+
  have "(min (dp_iat (demo_dpop_claims (100 * 10 ^ 9)) + dr_max_age (demo_rq ''p'' (100 * 10 ^ 9 + 5)) * 10 ^ 9)
      (dp_iat (demo_dpop_claims (500 * 10 ^ 9)) + dr_max_age (demo_rq ''q'' (500 * 10 ^ 9)) * 10 ^ 9)) div 10 ^ 9
      < g_time (sys_ghost (sv_sys v)) div 10 ^ 9"
    by (rule dpop_proof_accepted_once [OF v _ a b _ _ pa pb])
      (simp_all add: demo_clock_def demo_text_law in_range_def dpop_request_ok_def demo_rq_def demo_dpop_claims_def
        TIMESTAMP_MAX_def TIMESTAMP_MIN_def)
  then have "400 < g_time (sys_ghost (sv_sys v)) div 10 ^ 9"
    by (simp add: demo_dpop_claims_def demo_rq_def)
  with v a b show ?thesis by blast
qed



section \<open>At the resource\<close>

lemma from_headers_InrD: "from_headers headers = Inr (Some proof) \<Longrightarrow> get_all headers HEADER_DPOP = [proof]"
  by (auto simp: from_headers_def header_to_str_def split: list.splits option.splits if_splits)

lemma resource_proof:
  assumes "follows (validate_dpop_at_resource dl token headers m uris max_age t :: ('x, dpop_error + validated_dpop_proof) db_flow)
    cs (Finish (Inr p))"
  obtains pf where "get_all headers HEADER_DPOP = [pf]"
    and "follows (validate_dpop_common dl \<lparr>dr_proof = pf, dr_method = m, dr_uris = uris, dr_max_age = max_age,
      dr_ath = Some (compute_access_token_hash (dl_jose dl) token), dr_policy = NonceOptional, dr_arrival = t\<rparr>
        :: ('x, dpop_error + validated_dpop_proof) db_flow) cs (Finish (Inr p))"
  using assms
  by (auto simp: validate_dpop_at_resource_def follows_Finish dest: from_headers_InrD split: sum.splits option.splits)

text \<open>Every refusal of a proof at a resource is a challenge; only failures of the store are not.\<close>

lemma at_resource_status:
  "at_resource db_text from_str e = Api INTERNAL_SERVER_ERROR ''server_error'' ''DPoP validation backend error''
     \<longleftrightarrow> (\<exists>what d. e = DpopDatabase what d)"
  by (cases e) (simp_all add: at_resource_def resource_challenge_def refusal_error_def)

lemma confirmed_binding_Inr:
  "confirmed_binding c keys = Inr b \<longleftrightarrow>
     (case b of
        Some (DpopBinding p) \<Rightarrow> sc_dpop keys = Some p \<and> cnf_jkt c = Some (vp_jkt p)
      | Some (MutualTlsBinding t) \<Rightarrow> cnf_jkt c = None \<and> sc_cert keys = Some t \<and> cnf_x5t c = Some t
      | Some BearerBinding \<Rightarrow> False
      | None \<Rightarrow> cnf_jkt c = None \<and> cnf_x5t c = None)"
  by (auto simp: confirmed_binding_def confirms_dpop_def confirms_certificate_def
      split: option.splits token_binding.splits)

end
