(* ===== verification/Oidc_Client.thy ===== *)
theory Oidc_Client
  imports Oidc_Dpop
begin

text \<open>
  OAuth clients as the server stores them (\<^verbatim>\<open>db/documents/oauth.rs\<close> and the first part of
  \<^verbatim>\<open>db/oauth.rs\<close>): the enumerations of a registration, its keys and what makes a key usable, the
  redirect, request and resource URIs it may name, the grants it may use
  (\<^verbatim>\<open>services/oidc/grant_type.rs\<close>, \<^verbatim>\<open>validated_client.rs\<close>), and the additional rules of the
  FAPI 2.0 profile (\<^verbatim>\<open>fapi.rs\<close>).
\<close>

section \<open>The registration of a client\<close>

text \<open>\<^verbatim>\<open>db/documents/oauth.rs\<close>: the enumerations a stored client is made of.\<close>

datatype access_scope = OrganizationAccess | PersonalAccess | PublicAccess

datatype document_parse_error =
  UnknownAccessScope string
| UnknownClientType string
| UnknownAuthMethod string

fun access_scope_as_str :: "access_scope \<Rightarrow> string" where
  "access_scope_as_str OrganizationAccess = ''organization''"
| "access_scope_as_str PersonalAccess = ''personal''"
| "access_scope_as_str PublicAccess = ''public''"

definition access_scope_from_str :: "string \<Rightarrow> document_parse_error + access_scope" where
  "access_scope_from_str s =
     (if eq_ignore_ascii_case s ''organization'' then Inr OrganizationAccess
      else if eq_ignore_ascii_case s ''personal'' then Inr PersonalAccess
      else if eq_ignore_ascii_case s ''public'' then Inr PublicAccess
      else Inl (UnknownAccessScope s))"

datatype oauth_client_type = WebApp | NativeApp | SpaApp | ServiceApp

fun client_type_as_str :: "oauth_client_type \<Rightarrow> string" where
  "client_type_as_str WebApp = ''web''"
| "client_type_as_str NativeApp = ''native''"
| "client_type_as_str SpaApp = ''spa''"
| "client_type_as_str ServiceApp = ''service''"

definition client_type_from_str :: "string \<Rightarrow> document_parse_error + oauth_client_type" where
  "client_type_from_str s =
     (if eq_ignore_ascii_case s ''web'' then Inr WebApp
      else if eq_ignore_ascii_case s ''native'' then Inr NativeApp
      else if eq_ignore_ascii_case s ''spa'' then Inr SpaApp
      else if eq_ignore_ascii_case s ''service'' then Inr ServiceApp
      else Inl (UnknownClientType s))"

definition requires_secret :: "oauth_client_type \<Rightarrow> bool" where
  "requires_secret ty \<longleftrightarrow> ty \<in> {WebApp, ServiceApp}"

definition requires_pkce :: "oauth_client_type \<Rightarrow> bool" where
  "requires_pkce ty \<longleftrightarrow> ty \<in> {NativeApp, SpaApp}"

datatype oauth_grant_type =
  AuthorizationCodeGrant | ClientCredentialsGrant | DeviceCodeGrant | TokenExchangeGrant | Fido2AssertionGrant

fun grant_as_str :: "oauth_grant_type \<Rightarrow> string" where
  "grant_as_str AuthorizationCodeGrant = ''authorization_code''"
| "grant_as_str ClientCredentialsGrant = ''client_credentials''"
| "grant_as_str DeviceCodeGrant = ''urn:ietf:params:oauth:grant-type:device_code''"
| "grant_as_str TokenExchangeGrant = ''urn:ietf:params:oauth:grant-type:token-exchange''"
| "grant_as_str Fido2AssertionGrant = ''urn:ietf:params:oauth:grant-type:fido2-assertion''"

definition SUPPORTED_GRANTS :: "oauth_grant_type list" where
  "SUPPORTED_GRANTS =
     [AuthorizationCodeGrant, ClientCredentialsGrant, DeviceCodeGrant, TokenExchangeGrant, Fido2AssertionGrant]"

definition supported_grant_values :: "string list" where
  "supported_grant_values = map grant_as_str SUPPORTED_GRANTS"

definition grant_from_str :: "string \<Rightarrow> string + oauth_grant_type" where
  "grant_from_str s =
     (case find (\<lambda>g. grant_as_str g = s) SUPPORTED_GRANTS of
        Some g \<Rightarrow> Inr g
      | None \<Rightarrow> Inl (''unsupported grant_type: '' @ s))"

definition default_grant_types :: "oauth_client_type \<Rightarrow> string list" where
  "default_grant_types ty =
     (case ty of
        WebApp \<Rightarrow> [grant_as_str AuthorizationCodeGrant]
      | SpaApp \<Rightarrow> [grant_as_str AuthorizationCodeGrant]
      | NativeApp \<Rightarrow> [grant_as_str AuthorizationCodeGrant, grant_as_str DeviceCodeGrant]
      | ServiceApp \<Rightarrow> [grant_as_str ClientCredentialsGrant])"

datatype auth_method =
  ClientSecretBasic | ClientSecretPost | PrivateKeyJwt | NoAuthMethod | TlsClientAuth | SelfSignedTlsClientAuth

fun auth_method_as_str :: "auth_method \<Rightarrow> string" where
  "auth_method_as_str ClientSecretBasic = ''client_secret_basic''"
| "auth_method_as_str ClientSecretPost = ''client_secret_post''"
| "auth_method_as_str PrivateKeyJwt = ''private_key_jwt''"
| "auth_method_as_str NoAuthMethod = ''none''"
| "auth_method_as_str TlsClientAuth = ''tls_client_auth''"
| "auth_method_as_str SelfSignedTlsClientAuth = ''self_signed_tls_client_auth''"

definition auth_method_from_str :: "string \<Rightarrow> document_parse_error + auth_method" where
  "auth_method_from_str s =
     (if eq_ignore_ascii_case s ''client_secret_basic'' then Inr ClientSecretBasic
      else if eq_ignore_ascii_case s ''client_secret_post'' then Inr ClientSecretPost
      else if eq_ignore_ascii_case s ''private_key_jwt'' then Inr PrivateKeyJwt
      else if eq_ignore_ascii_case s ''none'' then Inr NoAuthMethod
      else if eq_ignore_ascii_case s ''tls_client_auth'' then Inr TlsClientAuth
      else if eq_ignore_ascii_case s ''self_signed_tls_client_auth'' then Inr SelfSignedTlsClientAuth
      else Inl (UnknownAuthMethod s))"

definition uses_client_secret :: "auth_method \<Rightarrow> bool" where
  "uses_client_secret am \<longleftrightarrow> am \<in> {ClientSecretBasic, ClientSecretPost}"

datatype fapi_profile = FapiNone | Fapi2Security

fun fapi_profile_as_str :: "fapi_profile \<Rightarrow> string" where
  "fapi_profile_as_str FapiNone = ''none''"
| "fapi_profile_as_str Fapi2Security = ''fapi2_security''"

definition secret_is_credential :: "auth_method \<Rightarrow> fapi_profile \<Rightarrow> bool" where
  "secret_is_credential am profile \<longleftrightarrow> uses_client_secret am \<and> profile = FapiNone"

definition authenticates_with_keys :: "auth_method \<Rightarrow> bool" where
  "authenticates_with_keys am \<longleftrightarrow> am \<in> {PrivateKeyJwt, SelfSignedTlsClientAuth}"

definition is_fapi_compatible :: "auth_method \<Rightarrow> bool" where
  "is_fapi_compatible am \<longleftrightarrow> am \<in> {PrivateKeyJwt, TlsClientAuth, SelfSignedTlsClientAuth}"

datatype response_mode = QueryMode | JwtMode | FormPostMode

definition ACCEPTED_MODES :: "(string \<times> response_mode) list" where
  "ACCEPTED_MODES = [(''query'', QueryMode), (''form_post'', FormPostMode), (''jwt'', JwtMode), (''query.jwt'', JwtMode)]"

definition response_mode_parse :: "string \<Rightarrow> response_mode option" where
  "response_mode_parse s = map_option snd (find (\<lambda>(v, _). v = s) ACCEPTED_MODES)"

definition supported_modes :: string where
  "supported_modes = join_with '', '' (map fst ACCEPTED_MODES)"

definition client_assertion_algorithms :: "fapi_profile \<Rightarrow> jws_algorithm list" where
  "client_assertion_algorithms p = (case p of FapiNone \<Rightarrow> CLIENT_ASSERTION_ALLOWED | Fapi2Security \<Rightarrow> FAPI_ALLOWED)"

definition client_assertion_algorithms_union :: "jws_algorithm list" where
  "client_assertion_algorithms_union =
     fold (\<lambda>profile union. fold (\<lambda>alg u. if alg \<in> set u then u else u @ [alg])
                                (client_assertion_algorithms profile) union)
       [FapiNone, Fapi2Security] []"

definition signing_alg :: "fapi_profile \<Rightarrow> jws_algorithm \<Rightarrow> jws_algorithm" where
  "signing_alg p alg = (if p = Fapi2Security \<and> alg = Rs256 then Es256 else alg)"

datatype registration_source = ManualRegistration | DynamicRegistration

fun registration_source_as_str :: "registration_source \<Rightarrow> string" where
  "registration_source_as_str ManualRegistration = ''manual''"
| "registration_source_as_str DynamicRegistration = ''dynamic''"

section \<open>Key sets\<close>

text \<open>
  \<^verbatim>\<open>JwkEntry::decoding_key_for\<close> is the one decision about whether a registered key can verify a
  signature.  Base64 and the construction of a verification key belong to other crates: they are
  the members of \<open>key_lib\<close>, which answers \<open>None\<close> where the crate refuses.  The bytes of a decoded
  member are given as naturals below 256.
\<close>

datatype key_type = EcType | RsaType | OkpType | OtherType string

definition key_type_of :: "string \<Rightarrow> key_type" where
  "key_type_of s = (if s = ''EC'' then EcType else if s = ''RSA'' then RsaType else if s = ''OKP'' then OkpType else OtherType s)"

fun key_type_as_str :: "key_type \<Rightarrow> string" where
  "key_type_as_str EcType = ''EC''"
| "key_type_as_str RsaType = ''RSA''"
| "key_type_as_str OkpType = ''OKP''"
| "key_type_as_str (OtherType s) = s"

record jwk_entry =
  je_kty :: key_type
  je_kid :: "string option"
  je_alg :: "string option"
  je_use :: "string option"
  je_crv :: "string option"
  je_x :: "string option"
  je_y :: "string option"
  je_n :: "string option"
  je_e :: "string option"
  je_x5c :: "string list option"

type_synonym jwk_set = "jwk_entry list"

fun key_type_for_alg :: "jws_algorithm \<Rightarrow> key_type" where
  "key_type_for_alg Es256 = EcType"
| "key_type_for_alg Rs256 = RsaType"
| "key_type_for_alg Ps256 = RsaType"
| "key_type_for_alg EdDsa = OkpType"

datatype unusable_jwk = NotSelectable | MissingMember string | WrongCurve | InvalidKey | RsaModulusSize

fun unusable_to_string :: "unusable_jwk \<Rightarrow> string" where
  "unusable_to_string NotSelectable = ''No matching key found in JWKS''"
| "unusable_to_string (MissingMember s) = s"
| "unusable_to_string WrongCurve = ''EdDSA requires OKP key with Ed25519 curve''"
| "unusable_to_string InvalidKey = ''Invalid key in JWKS''"
| "unusable_to_string RsaModulusSize = ''RSA key modulus must be 2048 to 8192 bits''"

record 'k key_lib =
  kl_member :: "string \<Rightarrow> nat list option"
  kl_on_p256 :: "nat list \<Rightarrow> nat list \<Rightarrow> bool"
  kl_ec :: "string \<Rightarrow> string \<Rightarrow> 'k option"
  kl_rsa :: "string \<Rightarrow> string \<Rightarrow> 'k option"
  kl_ed :: "string \<Rightarrow> 'k option"

fun byte_bits :: "nat \<Rightarrow> nat" where
  "byte_bits b = (if b = 0 then 0 else Suc (byte_bits (b div 2)))"

definition unsigned_bit_length :: "nat list \<Rightarrow> nat" where
  "unsigned_bit_length bytes =
     (case dropWhile (\<lambda>b. b = 0) bytes of
        [] \<Rightarrow> 0
      | msb # rest \<Rightarrow> length rest * 8 + byte_bits msb)"

definition jwk_member :: "'k key_lib \<Rightarrow> string \<Rightarrow> unusable_jwk + nat list" where
  "jwk_member kl v = (case kl_member kl v of None \<Rightarrow> Inl InvalidKey | Some bs \<Rightarrow> Inr bs)"

definition made_key :: "'k option \<Rightarrow> unusable_jwk + 'k" where
  "made_key k = (case k of None \<Rightarrow> Inl InvalidKey | Some k \<Rightarrow> Inr k)"

definition needed_member :: "string \<Rightarrow> string option \<Rightarrow> unusable_jwk + string" where
  "needed_member msg v = (case v of None \<Rightarrow> Inl (MissingMember msg) | Some s \<Rightarrow> Inr s)"

definition ec_decoding_key :: "'k key_lib \<Rightarrow> jwk_entry \<Rightarrow> unusable_jwk + 'k" where
  "ec_decoding_key kl je =
     sum_bind (needed_member ''EC key missing x component'' (je_x je)) (\<lambda>x.
     sum_bind (needed_member ''EC key missing y component'' (je_y je)) (\<lambda>y.
     sum_bind (jwk_member kl x) (\<lambda>xb.
     sum_bind (jwk_member kl y) (\<lambda>yb.
       if length xb = 32 \<and> length yb = 32 \<and> kl_on_p256 kl xb yb then made_key (kl_ec kl x y)
       else Inl InvalidKey))))"

definition rsa_decoding_key :: "'k key_lib \<Rightarrow> jwk_entry \<Rightarrow> unusable_jwk + 'k" where
  "rsa_decoding_key kl je =
     sum_bind (needed_member ''RSA key missing n component'' (je_n je)) (\<lambda>n.
     sum_bind (needed_member ''RSA key missing e component'' (je_e je)) (\<lambda>e.
     sum_bind (jwk_member kl n) (\<lambda>modulus.
       if modulus = [] then Inl InvalidKey
       else sum_bind (jwk_member kl e) (\<lambda>eb.
         if eb = [] then Inl InvalidKey
         else if \<not> (2048 \<le> unsigned_bit_length modulus \<and> unsigned_bit_length modulus \<le> 8192) then Inl RsaModulusSize
         else made_key (kl_rsa kl n e)))))"

definition okp_decoding_key :: "'k key_lib \<Rightarrow> jwk_entry \<Rightarrow> unusable_jwk + 'k" where
  "okp_decoding_key kl je =
     sum_bind (needed_member ''OKP key missing x component'' (je_x je)) (\<lambda>x.
     sum_bind (needed_member ''OKP key missing crv component'' (je_crv je)) (\<lambda>crv.
       if crv \<noteq> ''Ed25519'' then Inl WrongCurve
       else sum_bind (jwk_member kl x) (\<lambda>xb.
         if length xb \<noteq> 32 then Inl InvalidKey else made_key (kl_ed kl x))))"

definition decoding_key_for :: "'k key_lib \<Rightarrow> jwk_entry \<Rightarrow> jws_algorithm \<Rightarrow> unusable_jwk + 'k" where
  "decoding_key_for kl je alg =
     (if (\<exists>u \<in> set_option (je_use je). u \<noteq> ''sig'') \<or> (\<exists>a \<in> set_option (je_alg je). a \<noteq> alg_as_str alg)
         \<or> je_kty je \<noteq> key_type_for_alg alg
      then Inl NotSelectable
      else case alg of
        Es256 \<Rightarrow> ec_decoding_key kl je
      | Rs256 \<Rightarrow> rsa_decoding_key kl je
      | Ps256 \<Rightarrow> rsa_decoding_key kl je
      | EdDsa \<Rightarrow> okp_decoding_key kl je)"

definition is_usable_for :: "'k key_lib \<Rightarrow> jwk_entry \<Rightarrow> jws_algorithm \<Rightarrow> bool" where
  "is_usable_for kl je alg = (\<not> isl (decoding_key_for kl je alg))"

definition has_key_for :: "'k key_lib \<Rightarrow> jwk_set \<Rightarrow> jws_algorithm \<Rightarrow> bool" where
  "has_key_for kl ks alg = (\<exists>je \<in> set ks. is_usable_for kl je alg)"

definition has_client_assertion_key :: "'k key_lib \<Rightarrow> jwk_set \<Rightarrow> fapi_profile \<Rightarrow> bool" where
  "has_client_assertion_key kl ks profile = (\<exists>alg \<in> set (client_assertion_algorithms profile). has_key_for kl ks alg)"

definition has_x5c :: "jwk_set \<Rightarrow> bool" where
  "has_x5c ks = (\<exists>je \<in> set ks. \<exists>c \<in> set_option (je_x5c je). c \<noteq> [])"

datatype client_keys = InlineKeys jwk_set | KeysUri string

datatype client_keys_error = KeysConflict | InvalidJwks

fun client_keys_error_to_string :: "client_keys_error \<Rightarrow> string" where
  "client_keys_error_to_string KeysConflict = ''jwks and jwks_uri are mutually exclusive''"
| "client_keys_error_to_string InvalidJwks = ''jwks contains a key with an invalid field type''"

text \<open>
  A derived reader of a struct takes an object by member name, and an array by position; a missing
  optional member and a \<open>null\<close> are both absent.
\<close>

definition struct_fields :: "string list \<Rightarrow> jvalue \<Rightarrow> (string \<rightharpoonup> jvalue) option" where
  "struct_fields ns v =
     (case v of
        JObject ms \<Rightarrow> Some (map_of ms)
      | JArray vs \<Rightarrow> if length vs \<le> length ns then Some (map_of (zip ns vs)) else None
      | _ \<Rightarrow> None)"

definition opt_text :: "jvalue option \<Rightarrow> string option option" where
  "opt_text v =
     (case v of None \<Rightarrow> Some None | Some JNull \<Rightarrow> Some None | Some (JString s) \<Rightarrow> Some (Some s) | Some _ \<Rightarrow> None)"

definition opt_texts :: "jvalue option \<Rightarrow> string list option option" where
  "opt_texts v =
     (case v of
        None \<Rightarrow> Some None | Some JNull \<Rightarrow> Some None
      | Some (JArray vs) \<Rightarrow> map_option Some (those (map jstr vs)) | Some _ \<Rightarrow> None)"

definition jwk_entry_of :: "jvalue \<Rightarrow> jwk_entry option" where
  "jwk_entry_of v =
     Option.bind (struct_fields [''kty'', ''kid'', ''alg'', ''use'', ''crv'', ''x'', ''y'', ''n'', ''e'', ''x5c''] v) (\<lambda>f.
     Option.bind (f ''kty'') (\<lambda>kt. Option.bind (jstr kt) (\<lambda>kt.
     Option.bind (opt_text (f ''kid'')) (\<lambda>kid. Option.bind (opt_text (f ''alg'')) (\<lambda>alg.
     Option.bind (opt_text (f ''use'')) (\<lambda>us. Option.bind (opt_text (f ''crv'')) (\<lambda>crv.
     Option.bind (opt_text (f ''x'')) (\<lambda>x. Option.bind (opt_text (f ''y'')) (\<lambda>y.
     Option.bind (opt_text (f ''n'')) (\<lambda>n. Option.bind (opt_text (f ''e'')) (\<lambda>e.
     Option.bind (opt_texts (f ''x5c'')) (\<lambda>x5c.
       Some \<lparr>je_kty = key_type_of kt, je_kid = kid, je_alg = alg, je_use = us, je_crv = crv,
             je_x = x, je_y = y, je_n = n, je_e = e, je_x5c = x5c\<rparr>))))))))))))"

definition parse_jwks_set :: "jvalue \<Rightarrow> jwk_set option" where
  "parse_jwks_set v =
     Option.bind (struct_fields [''keys''] v) (\<lambda>f. Option.bind (f ''keys'') (\<lambda>ks.
       case ks of JArray es \<Rightarrow> those (map jwk_entry_of es) | _ \<Rightarrow> None))"

definition text_member :: "string \<Rightarrow> string option \<Rightarrow> (string \<times> jvalue) list" where
  "text_member name v = (case v of None \<Rightarrow> [] | Some s \<Rightarrow> [(name, JString s)])"

definition jwk_entry_json :: "jwk_entry \<Rightarrow> jvalue" where
  "jwk_entry_json je =
     JObject ((''kty'', JString (key_type_as_str (je_kty je)))
              # text_member ''kid'' (je_kid je) @ text_member ''alg'' (je_alg je) @ text_member ''use'' (je_use je)
              @ text_member ''crv'' (je_crv je) @ text_member ''x'' (je_x je) @ text_member ''y'' (je_y je)
              @ text_member ''n'' (je_n je) @ text_member ''e'' (je_e je)
              @ (case je_x5c je of None \<Rightarrow> [] | Some cs \<Rightarrow> [(''x5c'', JArray (map JString cs))]))"

definition keys_from_stored :: "jvalue option \<Rightarrow> string option \<Rightarrow> client_keys_error + client_keys option" where
  "keys_from_stored jwks jwks_uri =
     (case (jwks, jwks_uri) of
        (Some _, Some _) \<Rightarrow> Inl KeysConflict
      | (Some jwks, None) \<Rightarrow> (case parse_jwks_set jwks of Some ks \<Rightarrow> Inr (Some (InlineKeys ks)) | None \<Rightarrow> Inl InvalidJwks)
      | (None, Some uri) \<Rightarrow> Inr (Some (KeysUri uri))
      | (None, None) \<Rightarrow> Inr None)"

definition stored_client_keys :: "jvalue option \<Rightarrow> string option \<Rightarrow> client_keys option" where
  "stored_client_keys jwks jwks_uri = (case keys_from_stored jwks jwks_uri of Inr ks \<Rightarrow> ks | Inl _ \<Rightarrow> None)"

definition client_keys_to_stored :: "client_keys option \<Rightarrow> jvalue option \<times> string option" where
  "client_keys_to_stored ks =
     (case ks of
        Some (InlineKeys es) \<Rightarrow> (Some (JObject [(''keys'', JArray (map jwk_entry_json es))]), None)
      | Some (KeysUri uri) \<Rightarrow> (None, Some uri)
      | None \<Rightarrow> (None, None))"

definition read_kty :: "jwk_entry \<Rightarrow> bool" where
  "read_kty je = (je_kty je = key_type_of (key_type_as_str (je_kty je)))"

lemma key_type_as_str_of [simp]: "key_type_as_str (key_type_of s) = s"
  by (simp add: key_type_of_def)

lemma those_map_jstr [simp]: "those (map (jstr \<circ> JString) cs) = Some cs"
  by (induction cs) simp_all

lemma map_of_text_member:
  "key \<noteq> name \<Longrightarrow> map_of (text_member name v @ ms) key = map_of ms key"
  "map_of ms key = None \<Longrightarrow> map_of (text_member key v @ ms) key = map_option JString v"
  "map_of (text_member name v) key = (if key = name then map_option JString v else None)"
  by (simp_all add: text_member_def split: option.splits)

lemma opt_text_map [simp]: "opt_text (map_option JString v) = Some v"
  by (cases v) (simp_all add: opt_text_def)

lemma jwk_entry_roundtrip: "read_kty je \<Longrightarrow> jwk_entry_of (jwk_entry_json je) = Some je"
  by (cases "je_x5c je")
    (simp_all add: jwk_entry_json_def jwk_entry_of_def struct_fields_def map_of_text_member opt_texts_def read_kty_def
       del: map_of_append)

lemma those_map_Some: "(\<And>x. x \<in> set xs \<Longrightarrow> f (g x) = Some x) \<Longrightarrow> those (map f (map g xs)) = Some xs"
  by (induction xs) simp_all

lemma client_keys_roundtrip:
  assumes "\<And>es. ks = Some (InlineKeys es) \<Longrightarrow> list_all read_kty es"
  shows "case_prod stored_client_keys (client_keys_to_stored ks) = ks"
proof (cases ks)
  case (Some k)
  show ?thesis
  proof (cases k)
    case (InlineKeys es)
    then have "those (map jwk_entry_of (map jwk_entry_json es)) = Some es"
      using assms Some by (intro those_map_Some jwk_entry_roundtrip) (simp add: list_all_iff)
    then show ?thesis
      by (simp add: Some InlineKeys client_keys_to_stored_def stored_client_keys_def keys_from_stored_def
          parse_jwks_set_def struct_fields_def)
  qed (simp add: Some client_keys_to_stored_def stored_client_keys_def keys_from_stored_def)
qed (simp add: client_keys_to_stored_def stored_client_keys_def keys_from_stored_def)

lemma parsed_entries_read_kty: "jwk_entry_of v = Some je \<Longrightarrow> read_kty je"
  by (auto simp: jwk_entry_of_def read_kty_def split: Option.bind_splits)

lemma those_set: "those xs = Some ys \<Longrightarrow> y \<in> set ys \<Longrightarrow> Some y \<in> set xs"
  by (induction xs arbitrary: ys) (auto split: option.splits)

lemma parsed_set_read_kty: "parse_jwks_set v = Some es \<Longrightarrow> list_all read_kty es"
  by (force simp: parse_jwks_set_def list_all_iff dest!: those_set intro: parsed_entries_read_kty
      split: Option.bind_splits jvalue.splits)

section \<open>Clients\<close>

text \<open>
  Fields that nothing modelled here reads are left out: the description, the instants and the
  software and registration metadata of a client, and the algorithms of its signed responses other
  than the ID token's.
\<close>

record oauth_client =
  cl_id :: string
  cl_user_id :: "string option"
  cl_client_id :: string
  cl_name :: string
  cl_application_type :: oauth_client_type
  cl_redirect_uris :: "string list"
  cl_active :: bool
  cl_access_scope :: access_scope
  cl_org_id :: "string option"
  cl_resource_uris :: "string list"
  cl_keys :: "client_keys option"
  cl_auth_method :: auth_method
  cl_request_object_signing_alg :: "jws_algorithm option"
  cl_require_signed_request_object :: "bool option"
  cl_fapi_profile :: fapi_profile
  cl_dpop_bound_access_tokens :: bool
  cl_grant_types :: "string list option"
  cl_response_types :: "string list option"
  cl_id_token_signed_response_alg :: jws_algorithm
  cl_tls_subject_dn :: "string option"
  cl_tls_san_dns :: "string option"
  cl_tls_san_uri :: "string option"
  cl_tls_san_ip :: "string option"
  cl_tls_san_email :: "string option"
  cl_tls_bound_access_tokens :: bool
  cl_request_uris :: "string list option"
  cl_post_logout_redirect_uris :: "string list option"

text \<open>
  The URL library.  A parsed URL is its serialization, so that equal URLs are equal values; an
  opaque origin, which is equal to no other, is \<open>None\<close>.
\<close>

record url_lib =
  ul_parse :: "string \<Rightarrow> string option"
  ul_scheme :: "string \<Rightarrow> string"
  ul_host_str :: "string \<Rightarrow> string option"
  ul_path :: "string \<Rightarrow> string"
  ul_query :: "string \<Rightarrow> string option"
  ul_fragment :: "string \<Rightarrow> string option"
  ul_origin :: "string \<Rightarrow> string option"

definition is_loopback_redirect_host :: "string \<Rightarrow> bool" where
  "is_loopback_redirect_host host \<longleftrightarrow> host \<in> {''localhost'', ''127.0.0.1'', ''[::1]''}"

definition is_loopback_ip_literal :: "string \<Rightarrow> bool" where
  "is_loopback_ip_literal host \<longleftrightarrow> host \<in> {''127.0.0.1'', ''[::1]''}"

definition loopback_matches_ignoring_port :: "url_lib \<Rightarrow> string \<Rightarrow> string \<Rightarrow> bool" where
  "loopback_matches_ignoring_port ul registered requested =
     (case ul_parse ul registered of
        None \<Rightarrow> False
      | Some reg \<Rightarrow>
          ul_scheme ul reg = ''http'' \<and> ul_scheme ul requested = ''http''
          \<and> (case ul_host_str ul reg of None \<Rightarrow> False | Some h \<Rightarrow> is_loopback_ip_literal h)
          \<and> ul_host_str ul reg = ul_host_str ul requested
          \<and> ul_path ul reg = ul_path ul requested
          \<and> ul_query ul reg = ul_query ul requested)"

definition is_valid_redirect_uri :: "url_lib \<Rightarrow> oauth_client \<Rightarrow> string \<Rightarrow> bool" where
  "is_valid_redirect_uri ul c uri =
     (case ul_parse ul uri of
        None \<Rightarrow> False
      | Some requested \<Rightarrow>
          ul_fragment ul requested = None
          \<and> (\<exists>registered \<in> set (cl_redirect_uris c).
                registered = uri \<or> loopback_matches_ignoring_port ul registered requested))"

definition is_valid_request_uri :: "url_lib \<Rightarrow> oauth_client \<Rightarrow> string \<Rightarrow> bool" where
  "is_valid_request_uri ul c uri =
     (case cl_request_uris c of
        None \<Rightarrow> True
      | Some registered \<Rightarrow>
          (\<exists>candidate \<in> set registered.
             candidate = uri \<or> (\<exists>requested \<in> set_option (ul_parse ul uri). ul_parse ul candidate = Some requested)))"

definition is_valid_resource_uri :: "oauth_client \<Rightarrow> string \<Rightarrow> bool" where
  "is_valid_resource_uri c uri \<longleftrightarrow> cl_resource_uris c = [] \<or> uri \<in> set (cl_resource_uris c)"

definition is_fapi :: "oauth_client \<Rightarrow> bool" where
  "is_fapi c \<longleftrightarrow> cl_fapi_profile c \<noteq> FapiNone"

definition is_valid_post_logout_redirect_uri :: "oauth_client \<Rightarrow> string \<Rightarrow> bool" where
  "is_valid_post_logout_redirect_uri c uri \<longleftrightarrow> (\<exists>uris \<in> set_option (cl_post_logout_redirect_uris c). uri \<in> set uris)"

definition is_authorized_for_grant :: "oauth_client \<Rightarrow> string \<Rightarrow> bool" where
  "is_authorized_for_grant c grant \<longleftrightarrow>
     (case cl_grant_types c of
        Some gts \<Rightarrow> grant \<in> set gts
      | None \<Rightarrow> grant \<in> set (default_grant_types (cl_application_type c)))"

datatype client_confidentiality = ConfidentialClient | PublicClient

definition client_type :: "oauth_client \<Rightarrow> client_confidentiality" where
  "client_type c = (if cl_auth_method c = NoAuthMethod then PublicClient else ConfidentialClient)"

datatype redirect_uri_error = NotAbsolute | HasFragment | HttpNonLoopback | CustomSchemeNotNative

fun redirect_error_to_string :: "redirect_uri_error \<Rightarrow> string" where
  "redirect_error_to_string NotAbsolute = ''must be an absolute URI''"
| "redirect_error_to_string HasFragment = ''must not contain a fragment component''"
| "redirect_error_to_string HttpNonLoopback = ''http:// is allowed only for localhost, 127.0.0.1, or [::1]''"
| "redirect_error_to_string CustomSchemeNotNative = ''a custom URI scheme is allowed only for native clients''"

definition unwrap_or_default :: "string option \<Rightarrow> string" where
  "unwrap_or_default s = (case s of None \<Rightarrow> [] | Some s \<Rightarrow> s)"

definition validate_redirect_uri :: "url_lib \<Rightarrow> string \<Rightarrow> oauth_client_type \<Rightarrow> redirect_uri_error + unit" where
  "validate_redirect_uri ul uri ty =
     (case ul_parse ul uri of
        None \<Rightarrow> Inl NotAbsolute
      | Some u \<Rightarrow>
          if ul_fragment ul u \<noteq> None then Inl HasFragment
          else if ul_scheme ul u = ''https'' then Inr ()
          else if ul_scheme ul u = ''http'' then
            if is_loopback_redirect_host (unwrap_or_default (ul_host_str ul u)) then Inr () else Inl HttpNonLoopback
          else if ty = NativeApp then Inr ()
          else Inl CustomSchemeNotNative)"

definition is_valid_post_logout_redirect_uri_str :: "url_lib \<Rightarrow> string \<Rightarrow> bool" where
  "is_valid_post_logout_redirect_uri_str ul uri =
     (case ul_parse ul uri of
        None \<Rightarrow> False
      | Some u \<Rightarrow>
          ul_fragment ul u = None
          \<and> (if ul_scheme ul u = ''https'' then True
             else if ul_scheme ul u = ''http'' then is_loopback_redirect_host (unwrap_or_default (ul_host_str ul u))
             else False))"

definition for_grant :: "oauth_client \<Rightarrow> oauth_grant_type \<Rightarrow> service_error + oauth_client" where
  "for_grant c grant =
     (if is_authorized_for_grant c (grant_as_str grant) then Inr c
      else Inl (OAuth UnauthorizedClient (''Client is not authorized for '' @ grant_as_str grant @ '' grant'')))"

definition for_authorize :: "oauth_client \<Rightarrow> service_error + oauth_client" where
  "for_authorize c =
     (if (case cl_response_types c of None \<Rightarrow> True | Some types \<Rightarrow> ''code'' \<in> set types) then Inr c
      else Inl (OAuth UnauthorizedClient (''Client is not registered for the '' @ quoted ''code'' @ '' response type'')))"

section \<open>FAPI 2.0\<close>

definition validate_fapi_authorization_request :: "oauth_client \<Rightarrow> bool \<Rightarrow> service_error + unit" where
  "validate_fapi_authorization_request c has_par =
     (if \<not> is_fapi c then Inr ()
      else if \<not> has_par then Inl (OAuth InvalidRequest ''FAPI 2.0 requires Pushed Authorization Requests (PAR)'')
      else Inr ())"

definition validate_fapi_token_request :: "oauth_client \<Rightarrow> sender_constraints \<Rightarrow> service_error + unit" where
  "validate_fapi_token_request c sc =
     (if \<not> is_fapi c then Inr ()
      else if sc_dpop sc = None \<and> sc_cert sc = None then
        Inl (OAuth InvalidRequest ''FAPI 2.0 requires sender-constrained access tokens (DPoP or mTLS required)'')
      else Inr ())"

definition validate_fapi_algorithm :: "oauth_client \<Rightarrow> jws_algorithm \<Rightarrow> service_error + unit" where
  "validate_fapi_algorithm c alg =
     (if \<not> is_fapi c then Inr ()
      else if alg \<notin> set FAPI_ALLOWED then
        Inl (OAuth InvalidRequest (''FAPI 2.0 does not allow algorithm '' @ quoted (alg_as_str alg) @ ''. Allowed: ''
               @ join_with '', '' (map alg_as_str FAPI_ALLOWED)))
      else Inr ())"

definition validate_fapi_client_auth_method :: "oauth_client \<Rightarrow> auth_method \<Rightarrow> service_error + unit" where
  "validate_fapi_client_auth_method c am =
     (if \<not> is_fapi c then Inr ()
      else if is_fapi_compatible am then Inr ()
      else Inl (OAuth InvalidClient
             (''FAPI 2.0 requires private_key_jwt or mTLS authentication, got '' @ quoted (auth_method_as_str am))))"

definition clock_skew_seconds :: "oauth_client \<Rightarrow> int" where
  "clock_skew_seconds c = (if is_fapi c then 10 else 10)"

definition auth_code_lifetime_seconds :: "oauth_client \<Rightarrow> int" where
  "auth_code_lifetime_seconds c = (if is_fapi c then 60 else 60)"

text \<open>C24: Redirection stays inside what registration allows.  When every redirect URI a client has
  registered passed the registration check for its kind of application, every URI that the
  authorization endpoint accepts for it passes that check too: the any-port rule for loopback
  addresses never lets a code leave for a scheme or a host that could not have been registered.\<close>

lemma accepted_redirect_is_registrable:
  assumes "\<forall>uri \<in> set (cl_redirect_uris c). validate_redirect_uri ul uri (cl_application_type c) = Inr ()"
    and "is_valid_redirect_uri ul c uri"
  shows "validate_redirect_uri ul uri (cl_application_type c) = Inr ()"
proof -
  obtain u r where u: "ul_parse ul uri = Some u" "ul_fragment ul u = None" and r: "r \<in> set (cl_redirect_uris c)"
    and m: "r = uri \<or> loopback_matches_ignoring_port ul r u"
    using assms(2) by (auto simp: is_valid_redirect_uri_def split: option.splits)
  from m show ?thesis
  proof
    assume "r = uri"
    then show ?thesis using assms(1) r by blast
  next
    assume "loopback_matches_ignoring_port ul r u"
    then obtain h where "ul_scheme ul u = ''http''" "ul_host_str ul u = Some h" "is_loopback_ip_literal h"
      by (auto simp: loopback_matches_ignoring_port_def split: option.splits)
    then show ?thesis
      using u by (simp add: validate_redirect_uri_def unwrap_or_default_def is_loopback_ip_literal_def is_loopback_redirect_host_def)
  qed
qed

section \<open>Examples\<close>

definition demo_scheme :: "string \<Rightarrow> string" where
  "demo_scheme = takeWhile (\<lambda>c. c \<noteq> CHR '':'')"

definition demo_rest :: "string \<Rightarrow> string" where
  "demo_rest s = drop (length (demo_scheme s) + 3) s"

definition demo_url :: url_lib where
  "demo_url =
     \<lparr>ul_parse = (\<lambda>s. if CHR '':'' \<in> set s then Some s else None), ul_scheme = demo_scheme,
      ul_host_str = (\<lambda>s. Some (takeWhile (\<lambda>c. c \<notin> {CHR ''/'', CHR '':''}) (demo_rest s))),
      ul_path = (\<lambda>s. dropWhile (\<lambda>c. c \<noteq> CHR ''/'') (demo_rest s)),
      ul_query = (\<lambda>_. None), ul_fragment = (\<lambda>_. None),
      ul_origin = (\<lambda>s. Some (takeWhile (\<lambda>c. c \<noteq> CHR ''/'') (demo_rest s)))\<rparr>"

lemmas demo_url_simps = demo_url_def demo_scheme_def demo_rest_def

definition demo_client :: oauth_client where
  "demo_client =
     \<lparr>cl_id = ''1'', cl_user_id = Some ''u'', cl_client_id = ''app'', cl_name = ''App'',
      cl_application_type = NativeApp, cl_redirect_uris = [''http://127.0.0.1/cb''], cl_active = True,
      cl_access_scope = PublicAccess, cl_org_id = None, cl_resource_uris = [], cl_keys = None,
      cl_auth_method = NoAuthMethod, cl_request_object_signing_alg = None, cl_require_signed_request_object = None,
      cl_fapi_profile = FapiNone, cl_dpop_bound_access_tokens = False, cl_grant_types = None, cl_response_types = None,
      cl_id_token_signed_response_alg = Es256, cl_tls_subject_dn = None, cl_tls_san_dns = None, cl_tls_san_uri = None,
      cl_tls_san_ip = None, cl_tls_san_email = None, cl_tls_bound_access_tokens = False, cl_request_uris = None,
      cl_post_logout_redirect_uris = None\<rparr>"

lemma accepted_redirect_is_registrable_witness:
  "is_valid_redirect_uri demo_url demo_client ''http://127.0.0.1:8080/cb''
   \<and> validate_redirect_uri demo_url ''http://127.0.0.1:8080/cb'' NativeApp = Inr ()
   \<and> \<not> is_valid_redirect_uri demo_url demo_client ''http://10.0.0.1/cb''"
proof -
  have v: "is_valid_redirect_uri demo_url demo_client ''http://127.0.0.1:8080/cb''"
    by (simp add: is_valid_redirect_uri_def loopback_matches_ignoring_port_def is_loopback_ip_literal_def demo_url_simps demo_client_def)
  have "cl_application_type demo_client = NativeApp"
    by (simp add: demo_client_def)
  moreover have "\<forall>uri \<in> set (cl_redirect_uris demo_client). validate_redirect_uri demo_url uri (cl_application_type demo_client) = Inr ()"
    by (simp add: demo_client_def demo_url_simps validate_redirect_uri_def unwrap_or_default_def is_loopback_redirect_host_def)
  moreover have "\<not> is_valid_redirect_uri demo_url demo_client ''http://10.0.0.1/cb''"
    by (simp add: is_valid_redirect_uri_def loopback_matches_ignoring_port_def is_loopback_ip_literal_def demo_url_simps demo_client_def)
  ultimately show ?thesis
    using accepted_redirect_is_registrable [OF _ v] v by simp
qed

end
