(* ===== verification/Oidc_Grant.thy ===== *)
theory Oidc_Grant
  imports Oidc_Client
begin

text \<open>
  What a grant is made of: scopes (\<^verbatim>\<open>services/oidc/scope.rs\<close>), resource indicators and the
  audience a token is narrowed to (\<^verbatim>\<open>resource.rs\<close>), assurance (\<^verbatim>\<open>assurance.rs\<close>), the claims of
  an access token, its binding to a key and the sender constraint a client requires
  (\<^verbatim>\<open>services/auth.rs\<close>), and authorization details (\<^verbatim>\<open>authorization_details.rs\<close> with
  \<^verbatim>\<open>vouch-common/src/posture.rs\<close>).
\<close>

section \<open>Scopes\<close>

datatype oauth_scope = OpenIdScope | EmailScope

fun scope_as_str :: "oauth_scope \<Rightarrow> string" where
  "scope_as_str OpenIdScope = ''openid''"
| "scope_as_str EmailScope = ''email''"

definition scope_value :: "string \<Rightarrow> oauth_scope option" where
  "scope_value s = (if s = ''openid'' then Some OpenIdScope else if s = ''email'' then Some EmailScope else None)"

definition all_scopes :: "oauth_scope list" where
  "all_scopes = [OpenIdScope, EmailScope]"

type_synonym scope_set = "oauth_scope set"

definition scope_parse :: "string \<Rightarrow> scope_set" where
  "scope_parse s = set (List.map_filter scope_value (split_whitespace s))"

definition scope_all :: scope_set where
  "scope_all = set all_scopes"

definition scope_intersection :: "scope_set \<Rightarrow> scope_set \<Rightarrow> scope_set" where
  "scope_intersection a b = Set.filter (\<lambda>s. s \<in> b) a"

definition without_user_scopes :: "scope_set \<Rightarrow> scope_set" where
  "without_user_scopes a = Set.filter (\<lambda>s. s \<notin> {OpenIdScope, EmailScope}) a"

definition into_requested_grant :: "scope_set \<Rightarrow> service_error + scope_set" where
  "into_requested_grant a =
     (if a = {} then Inl (OAuth InvalidScope ''None of the requested scopes can be granted'') else Inr a)"

definition to_space_separated :: "scope_set \<Rightarrow> string" where
  "to_space_separated a =
     join_with '' '' ((if OpenIdScope \<in> a then [''openid''] else []) @ (if EmailScope \<in> a then [''email''] else []))"

section \<open>Resources\<close>

datatype resource_error = EmptyResource | ResourceTooLong | ResourceNotAbsolute | ResourceHasFragment

definition MAX_RESOURCE_URI_LEN :: nat where
  "MAX_RESOURCE_URI_LEN = 2048"

definition resource_error_to_string :: "resource_error \<Rightarrow> string" where
  "resource_error_to_string e =
     (case e of
        EmptyResource \<Rightarrow> ''resource URI must not be empty''
      | ResourceTooLong \<Rightarrow> ''resource URI exceeds maximum length of '' @ show_nat MAX_RESOURCE_URI_LEN
      | ResourceNotAbsolute \<Rightarrow> ''resource URI must be an absolute URI with a scheme''
      | ResourceHasFragment \<Rightarrow> ''resource URI must not contain a fragment component'')"

definition resource_parse :: "url_lib \<Rightarrow> string \<Rightarrow> resource_error + string" where
  "resource_parse ul s =
     (if s = [] then Inl EmptyResource
      else if MAX_RESOURCE_URI_LEN < length s then Inl ResourceTooLong
      else case ul_parse ul s of
        None \<Rightarrow> Inl ResourceNotAbsolute
      | Some u \<Rightarrow> if ul_fragment ul u \<noteq> None then Inl ResourceHasFragment else Inr u)"

definition trim_trailing_slash :: "string \<Rightarrow> string" where
  "trim_trailing_slash path = (case strip_suffix ''/'' path of Some p \<Rightarrow> p | None \<Rightarrow> path)"

definition audience_names_deployment :: "url_lib \<Rightarrow> string \<Rightarrow> string \<Rightarrow> bool" where
  "audience_names_deployment ul aud base_url =
     (case (ul_parse ul aud, ul_parse ul base_url) of
        (Some a, Some b) \<Rightarrow> ul_origin ul a \<noteq> None \<and> ul_origin ul a = ul_origin ul b
      | _ \<Rightarrow> False)"

definition audience_covers_resource :: "url_lib \<Rightarrow> string \<Rightarrow> string \<Rightarrow> string \<Rightarrow> bool" where
  "audience_covers_resource ul aud base_url request_path =
     (case ul_parse ul aud of
        None \<Rightarrow> False
      | Some aud_url \<Rightarrow>
         (case ul_parse ul base_url of
            None \<Rightarrow> False
          | Some base \<Rightarrow>
              if ul_query ul aud_url \<noteq> None \<or> ul_fragment ul aud_url \<noteq> None then False
              else if \<not> audience_names_deployment ul aud base_url then False
              else
                let aud_path = trim_trailing_slash (ul_path ul aud_url);
                    base_path = trim_trailing_slash (ul_path ul base)
                in if aud_path = base_path then True
                   else case strip_prefix base_path aud_path of
                     None \<Rightarrow> False
                   | Some rel \<Rightarrow>
                       if \<not> starts_with ''/'' rel then False
                       else
                         let request = trim_trailing_slash (if request_path = [] then ''/'' else request_path)
                         in request = rel
                            \<or> (case strip_prefix rel request of None \<Rightarrow> False | Some rest \<Rightarrow> starts_with ''/'' rest)))"

section \<open>Assurance\<close>

datatype auth_method_ref = HardwareKey | PinMethod | UserPresence

fun amr_as_str :: "auth_method_ref \<Rightarrow> string" where
  "amr_as_str HardwareKey = ''hwk''"
| "amr_as_str PinMethod = ''pin''"
| "amr_as_str UserPresence = ''user''"

definition amr_value :: "string \<Rightarrow> auth_method_ref option" where
  "amr_value s =
     (if s = ''hwk'' then Some HardwareKey else if s = ''pin'' then Some PinMethod
      else if s = ''user'' then Some UserPresence else None)"

definition all_fido2 :: "auth_method_ref list" where
  "all_fido2 = [HardwareKey, PinMethod, UserPresence]"

definition ACR_AAL3 :: string where
  "ACR_AAL3 = ''urn:nist:authentication:assurance-level:aal3''"

definition hv_verified :: "hardware_verification \<Rightarrow> bool" where
  "hv_verified hv = (case hv of Verified _ \<Rightarrow> True | NotVerified \<Rightarrow> False)"

definition authenticated_at :: "hardware_verification \<Rightarrow> timestamp option" where
  "authenticated_at hv = (case hv of Verified t \<Rightarrow> t | NotVerified \<Rightarrow> None)"

definition hv_auth_time :: "hardware_verification \<Rightarrow> timestamp option" where
  "hv_auth_time hv = map_option whole_second (authenticated_at hv)"

definition hv_amr :: "hardware_verification \<Rightarrow> auth_method_ref list option" where
  "hv_amr hv = (case hv of Verified _ \<Rightarrow> Some all_fido2 | NotVerified \<Rightarrow> None)"

definition hv_acr :: "hardware_verification \<Rightarrow> string option" where
  "hv_acr hv = (case hv of Verified _ \<Rightarrow> Some ACR_AAL3 | NotVerified \<Rightarrow> None)"

section \<open>Access tokens\<close>

datatype actor_claim = ActorClaim (ac_sub: string) (ac_act: "actor_claim option")

fun actor_depth :: "actor_claim \<Rightarrow> nat" where
  "actor_depth (ActorClaim _ None) = 1"
| "actor_depth (ActorClaim _ (Some inner)) = Suc (actor_depth inner)"

definition MAX_DELEGATION_DEPTH :: nat where
  "MAX_DELEGATION_DEPTH = 5"

record access_token_claims =
  at_iss :: string
  at_sub :: string
  at_aud :: string
  at_exp :: timestamp
  at_iat :: timestamp
  at_nbf :: "timestamp option"
  at_jti :: string
  at_client_id :: string
  at_scope :: "scope_set option"
  at_email :: "string option"
  at_email_verified :: "bool option"
  at_hardware_verified :: bool
  at_cnf :: "cnf_claim option"
  at_auth_time :: "timestamp option"
  at_act :: "actor_claim option"
  at_amr :: "auth_method_ref list option"
  at_acr :: "string option"

definition is_narrowed :: "access_token_claims \<Rightarrow> bool" where
  "is_narrowed c \<longleftrightarrow> at_aud c \<noteq> at_client_id c"

definition audience_covers :: "url_lib \<Rightarrow> access_token_claims \<Rightarrow> string \<Rightarrow> string \<Rightarrow> bool" where
  "audience_covers ul c base_url path \<longleftrightarrow> \<not> is_narrowed c \<or> audience_covers_resource ul (at_aud c) base_url path"

definition is_browser_session :: "url_lib \<Rightarrow> access_token_claims \<Rightarrow> string \<Rightarrow> bool" where
  "is_browser_session ul c base_url \<longleftrightarrow> at_client_id c = base_url \<and> audience_covers ul c base_url [] \<and> at_cnf c = None"

definition exchanged_audience ::
    "url_lib \<Rightarrow> access_token_claims \<Rightarrow> string option \<Rightarrow> string \<Rightarrow> string \<Rightarrow> service_error + string option" where
  "exchanged_audience ul c requested client_id base_url =
     (if \<not> is_narrowed c then Inr requested
      else case requested of
        None \<Rightarrow> Inr (Some (at_aud c))
      | Some aud \<Rightarrow>
          if aud \<noteq> at_aud c \<and> (aud = client_id \<or> audience_names_deployment ul aud base_url) then
            Inl (OAuth InvalidRequest
              (''The subject token is narrowed to another resource; ''
               @ ''the exchanged token cannot name this server or its client''))
          else Inr (Some aud))"

section \<open>Sender constraint and binding\<close>

definition sender_constraint_validate :: "oauth_client \<Rightarrow> sender_constraints \<Rightarrow> service_error + unit" where
  "sender_constraint_validate c sc =
     sum_bind (validate_fapi_token_request c sc) (\<lambda>_.
       if cl_dpop_bound_access_tokens c \<and> sc_dpop sc = None then
         Inl (OAuth InvalidRequest
           (''Client requires DPoP-bound access tokens '' @ ''but no DPoP proof was provided''))
       else if cl_tls_bound_access_tokens c \<and> sc_cert sc = None \<and> sc_dpop sc = None then
         Inl (OAuth InvalidRequest
           (''Client requires certificate-bound access tokens '' @ ''but no client certificate was presented''))
       else Inr ())"

definition binding_new :: "validated_dpop_proof option \<Rightarrow> string option \<Rightarrow> token_binding" where
  "binding_new dpop cert =
     (case dpop of
        Some proof \<Rightarrow> DpopBinding proof
      | None \<Rightarrow> (case cert of Some tp \<Rightarrow> MutualTlsBinding tp | None \<Rightarrow> BearerBinding))"

definition binding_cnf :: "token_binding \<Rightarrow> cnf_claim option" where
  "binding_cnf b =
     (case b of
        DpopBinding proof \<Rightarrow> Some \<lparr>cnf_jkt = Some (vp_jkt proof), cnf_x5t = None\<rparr>
      | MutualTlsBinding tp \<Rightarrow> Some \<lparr>cnf_jkt = None, cnf_x5t = Some tp\<rparr>
      | BearerBinding \<Rightarrow> None)"

definition binding_token_type :: "token_binding \<Rightarrow> string" where
  "binding_token_type b = (case binding_cnf b of None \<Rightarrow> ''Bearer'' | Some c \<Rightarrow> cnf_token_type c)"

definition for_public_client :: "oauth_client \<Rightarrow> service_error + unit" where
  "for_public_client c =
     (if client_type c = PublicClient then Inr () else Inl (OAuth InvalidClient ''client authentication required''))"

section \<open>Device posture\<close>

text \<open>
  \<^verbatim>\<open>vouch-common/src/posture.rs\<close>: the one type of authorization detail that the server knows.
  Reading an object refuses unknown members, members of another type and unknown agents.
\<close>

definition POSTURE_TYPE :: string where
  "POSTURE_TYPE = ''device_posture''"

datatype operating_system = MacOs | LinuxOs | WindowsOs

fun os_as_str :: "operating_system \<Rightarrow> string" where
  "os_as_str MacOs = ''macos''"
| "os_as_str LinuxOs = ''linux''"
| "os_as_str WindowsOs = ''windows''"

definition os_value :: "string \<Rightarrow> operating_system option" where
  "os_value s = find (\<lambda>os. os_as_str os = s) [MacOs, LinuxOs, WindowsOs]"

datatype edr_agent = CrowdStrike | SentinelOne | CarbonBlack | MicrosoftDefender | Trellix | OnePasswordDeviceTrust

fun edr_as_str :: "edr_agent \<Rightarrow> string" where
  "edr_as_str CrowdStrike = ''crowdstrike''"
| "edr_as_str SentinelOne = ''sentinelone''"
| "edr_as_str CarbonBlack = ''carbon black''"
| "edr_as_str MicrosoftDefender = ''microsoft defender''"
| "edr_as_str Trellix = ''trellix''"
| "edr_as_str OnePasswordDeviceTrust = ''1password device trust''"

definition edr_value :: "string \<Rightarrow> edr_agent option" where
  "edr_value s =
     find (\<lambda>a. edr_as_str a = s)
       [CrowdStrike, SentinelOne, CarbonBlack, MicrosoftDefender, Trellix, OnePasswordDeviceTrust]"

datatype mdm_agent = Jamf | Kandji | WorkspaceOne | Mosyle | Fleetsmith | Intune

fun mdm_as_str :: "mdm_agent \<Rightarrow> string" where
  "mdm_as_str Jamf = ''jamf''"
| "mdm_as_str Kandji = ''kandji''"
| "mdm_as_str WorkspaceOne = ''workspace one''"
| "mdm_as_str Mosyle = ''mosyle''"
| "mdm_as_str Fleetsmith = ''fleetsmith''"
| "mdm_as_str Intune = ''intune''"

definition mdm_value :: "string \<Rightarrow> mdm_agent option" where
  "mdm_value s = find (\<lambda>a. mdm_as_str a = s) [Jamf, Kandji, WorkspaceOne, Mosyle, Fleetsmith, Intune]"

datatype posture_field = PText | PFlag | PCount | POs | PEdr | PMdm | PVersion | PTag

definition posture_fields :: "(string \<times> posture_field) list" where
  "posture_fields =
     [(''type'', PTag), (''posture_version'', PVersion), (''os'', POs), (''os_version'', PText),
      (''os_distribution'', PText), (''os_build'', PText), (''arch'', PText),
      (''disk_encryption_enabled'', PFlag), (''disk_encryption_technology'', PText),
      (''screen_lock_enabled'', PFlag), (''screen_lock_idle_timeout_secs'', PCount),
      (''firewall_enabled'', PFlag), (''firewall_technology'', PText),
      (''secure_boot_enabled'', PFlag), (''sip_enabled'', PFlag), (''tpm_present'', PFlag), (''tpm_version'', PText),
      (''auto_update_enabled'', PFlag), (''auto_update_technology'', PText), (''uptime_secs'', PCount),
      (''access_control_enforcing'', PFlag), (''access_control_technology'', PText),
      (''edr'', PEdr), (''mdm'', PMdm), (''elevated'', PFlag), (''tty'', PFlag), (''parent_process'', PText),
      (''cli_version'', PText), (''collected_at'', PText)]"

fun unsigned_below :: "nat \<Rightarrow> jvalue \<Rightarrow> bool" where
  "unsigned_below w (JInt i) = (0 \<le> i \<and> i < 2 ^ w)"
| "unsigned_below w _ = False"

definition jtext_in :: "(string \<Rightarrow> 'a option) \<Rightarrow> jvalue \<Rightarrow> bool" where
  "jtext_in rd v = (case v of JString s \<Rightarrow> rd s \<noteq> None | _ \<Rightarrow> False)"

definition jlist_in :: "(string \<Rightarrow> 'a option) \<Rightarrow> jvalue \<Rightarrow> bool" where
  "jlist_in rd v = (case v of JArray vs \<Rightarrow> list_all (jtext_in rd) vs | _ \<Rightarrow> False)"

fun posture_field_ok :: "posture_field \<Rightarrow> jvalue \<Rightarrow> bool" where
  "posture_field_ok PText v = (v = JNull \<or> jstr v \<noteq> None)"
| "posture_field_ok PFlag v = (case v of JNull \<Rightarrow> True | JBool _ \<Rightarrow> True | _ \<Rightarrow> False)"
| "posture_field_ok PCount v = (v = JNull \<or> unsigned_below 64 v)"
| "posture_field_ok POs v = (v = JNull \<or> jtext_in os_value v)"
| "posture_field_ok PEdr v = jlist_in edr_value v"
| "posture_field_ok PMdm v = jlist_in mdm_value v"
| "posture_field_ok PVersion v = unsigned_below 32 v"
| "posture_field_ok PTag v = (v = JString POSTURE_TYPE)"

definition posture_object_ok :: "(string \<times> jvalue) list \<Rightarrow> bool" where
  "posture_object_ok ms \<longleftrightarrow>
     ''type'' \<in> set (map fst ms) \<and> ''posture_version'' \<in> set (map fst ms)
     \<and> list_all (\<lambda>(name, v). case map_of posture_fields name of None \<Rightarrow> False | Some f \<Rightarrow> posture_field_ok f v) ms"

section \<open>Authorization details\<close>

record details_lib =
  dt_parse :: "string \<Rightarrow> string + jvalue"
  dt_posture_error :: "jvalue \<Rightarrow> string"

type_synonym authorization_details = "jvalue list"

definition MAX_DETAILS_SIZE :: nat where
  "MAX_DETAILS_SIZE = 8192"

definition MAX_DETAILS_DEPTH :: nat where
  "MAX_DETAILS_DEPTH = 5"

fun is_container :: "jvalue \<Rightarrow> bool" where
  "is_container (JArray _) = True"
| "is_container (JObject _) = True"
| "is_container _ = False"

fun validate_depth :: "jvalue \<Rightarrow> nat \<Rightarrow> bool" where
  "validate_depth v d =
     (if d = 0 then \<not> is_container v
      else case v of
        JArray vs \<Rightarrow> list_all (\<lambda>w. validate_depth w (d - 1)) vs
      | JObject ms \<Rightarrow> list_all (\<lambda>m. validate_depth (snd m) (d - 1)) ms
      | _ \<Rightarrow> True)"

declare validate_depth.simps [simp del]

definition has_control_chars :: "string \<Rightarrow> bool" where
  "has_control_chars s = list_ex (\<lambda>c. of_char c < (0x20 :: nat) \<or> of_char c = (0x7F :: nat)) s"

fun validate_no_control_chars :: "jvalue \<Rightarrow> bool" where
  "validate_no_control_chars (JString s) = (\<not> has_control_chars s)"
| "validate_no_control_chars (JArray vs) = (\<forall>v \<in> set vs. validate_no_control_chars v)"
| "validate_no_control_chars (JObject ms) =
     ((\<forall>m \<in> set ms. \<not> has_control_chars (fst m)) \<and> (\<forall>m \<in> set ms. validate_no_control_chars (snd m)))"
| "validate_no_control_chars _ = True"

definition bad_details :: "string \<Rightarrow> service_error + 'a" where
  "bad_details msg = Inl (OAuth InvalidAuthorizationDetails msg)"

definition parse_detail :: "details_lib \<Rightarrow> nat \<Rightarrow> jvalue \<Rightarrow> service_error + jvalue" where
  "parse_detail dt i item =
     (let at = ''authorization_details['' @ show_nat i @ '']'' in
      case item of
        JObject ms \<Rightarrow>
          (case map_of ms ''type'' of
             None \<Rightarrow> bad_details (at @ '' missing required '' @ quoted ''type'' @ '' field'')
           | Some ty \<Rightarrow>
              (case jstr ty of
                 None \<Rightarrow> bad_details (at @ '' '' @ quoted ''type'' @ '' must be a string'')
               | Some ty \<Rightarrow>
                   if ty \<noteq> POSTURE_TYPE then
                     bad_details (at @ '' has an unsupported type; '' @ ''supported types: '' @ POSTURE_TYPE)
                   else if \<not> validate_depth item MAX_DETAILS_DEPTH then
                     bad_details (at @ '' exceeds maximum nesting depth of '' @ show_nat MAX_DETAILS_DEPTH)
                   else if \<not> validate_no_control_chars item then
                     bad_details (at @ '' contains control characters'')
                   else if \<not> posture_object_ok ms then
                     bad_details (at @ '' is not a valid '' @ POSTURE_TYPE @ '' object: '' @ dt_posture_error dt item)
                   else Inr item))
      | _ \<Rightarrow> bad_details (at @ '' must be a JSON object''))"

fun parse_details_from :: "details_lib \<Rightarrow> nat \<Rightarrow> jvalue list \<Rightarrow> service_error + authorization_details" where
  "parse_details_from dt i [] = Inr []"
| "parse_details_from dt i (item # items) =
     sum_bind (parse_detail dt i item) (\<lambda>d. sum_bind (parse_details_from dt (Suc i) items) (\<lambda>ds. Inr (d # ds)))"

definition details_parse :: "details_lib \<Rightarrow> string \<Rightarrow> service_error + authorization_details" where
  "details_parse dt raw =
     (if MAX_DETAILS_SIZE < length raw then
        bad_details (''authorization_details exceeds maximum size of '' @ show_nat MAX_DETAILS_SIZE @ '' bytes'')
      else case dt_parse dt raw of
        Inl e \<Rightarrow> bad_details (''Invalid authorization_details JSON: '' @ e)
      | Inr (JArray []) \<Rightarrow> bad_details ''authorization_details must not be empty''
      | Inr (JArray items) \<Rightarrow> parse_details_from dt 0 items
      | Inr _ \<Rightarrow> bad_details ''authorization_details must be a JSON array'')"

definition details_subset :: "authorization_details \<Rightarrow> authorization_details \<Rightarrow> bool" where
  "details_subset requested granted = list_all (\<lambda>d. d \<in> set granted) requested"

definition details_from_value :: "jvalue \<Rightarrow> authorization_details option" where
  "details_from_value v =
     (case v of
        JArray items \<Rightarrow> Some (filter (\<lambda>item. Option.bind (jget ''type'' item) jstr \<noteq> None) items)
      | _ \<Rightarrow> None)"

definition details_to_value :: "authorization_details \<Rightarrow> jvalue" where
  "details_to_value ds = JArray ds"

section \<open>What the grant vocabulary guarantees\<close>

lemma scope_roundtrip: "scope_parse (to_space_separated a) = a"
proof -
  have w: "split_whitespace [] = []" "split_whitespace ''openid'' = [''openid'']" "split_whitespace ''email'' = [''email'']"
    "split_whitespace ''openid email'' = [''openid'', ''email'']"
    by code_simp+
  have "a \<subseteq> {OpenIdScope, EmailScope}"
    using oauth_scope.exhaust by blast
  then consider "a = {}" | "a = {OpenIdScope}" | "a = {EmailScope}" | "a = {OpenIdScope, EmailScope}"
    by auto
  then show ?thesis
    by cases (simp_all add: to_space_separated_def scope_parse_def w scope_value_def map_filter_simps)
qed

lemma strip_suffix_slash: "trim_trailing_slash p = (if p \<noteq> [] \<and> last p = CHR ''/'' then butlast p else p)"
  by (cases p rule: rev_cases) (auto simp: trim_trailing_slash_def strip_suffix_def split: option.splits)

text \<open>The segments of a path, in which coverage is the prefix order.\<close>

abbreviation segments :: "string \<Rightarrow> string list" where
  "segments \<equiv> split_on (CHR ''/'')"

lemma split_on_append:
  "split_on sep (u @ sep # v) = split_on sep u @ split_on sep v"
  by (induction u) (auto split: list.splits)

lemma split_join: "ws \<noteq> [] \<Longrightarrow> (\<And>w. w \<in> set ws \<Longrightarrow> sep \<notin> set w) \<Longrightarrow> split_on sep (join_on sep ws) = ws"
proof (induction ws rule: induct_list012)
  case (3 w w' ws)
  then show ?case by (simp add: split_on_word)
qed (simp_all add: split_on_last)

lemma segments_prefix_iff:
  "(\<exists>r. segments p = segments b @ r \<and> r \<noteq> []) \<longleftrightarrow> (\<exists>t. p = b @ CHR ''/'' # t)"
proof
  assume "\<exists>r. segments p = segments b @ r \<and> r \<noteq> []"
  then obtain r where r: "segments p = segments b @ r" "r \<noteq> []" by blast
  define t where "t = join_on (CHR ''/'') r"
  have free: "w \<in> set r \<Longrightarrow> CHR ''/'' \<notin> set w" for w
    using r(1) split_on_sep_free [of w "CHR ''/''" p] by simp
  have "split_on (CHR ''/'') t = r"
    unfolding t_def by (rule split_join [OF r(2) free])
  then have "segments (b @ CHR ''/'' # t) = segments p"
    by (simp add: split_on_append r)
  then show "\<exists>t. p = b @ CHR ''/'' # t"
    using split_inject by metis
next
  assume "\<exists>t. p = b @ CHR ''/'' # t"
  then show "\<exists>r. segments p = segments b @ r \<and> r \<noteq> []"
    by (auto simp: split_on_append)
qed

lemma segments_Cons: "segments (CHR ''/'' # t) = [] # segments t"
  by simp

lemma segments_prefix: "(\<exists>r. segments q = segments p @ r) \<longleftrightarrow> q = p \<or> (\<exists>t. q = p @ CHR ''/'' # t)"
proof -
  have "(\<exists>r. segments q = segments p @ r) \<longleftrightarrow> segments q = segments p \<or> (\<exists>r. segments q = segments p @ r \<and> r \<noteq> [])"
    by (metis append_Nil2)
  then show ?thesis
    using segments_prefix_iff split_inject by metis
qed

lemma starts_with_slash: "starts_with ''/'' s \<longleftrightarrow> (\<exists>t. s = CHR ''/'' # t)"
  by (cases s) (auto simp: starts_with_def)

lemma strip_prefix_Some_iff: "strip_prefix p s = Some r \<longleftrightarrow> s = p @ r"
  by (auto simp: strip_prefix_def) (metis append_take_drop_id)

text \<open>C25: The audience of a token, compared by segments.  The string comparison that decides whether a
  resource indicator covers a request is the prefix order on path segments: the audience has the
  deployment's origin, neither query nor fragment, and its path is the deployment's path followed
  by segments that the requested path begins with.  So \<open>/v1/ssh\<close> covers \<open>/v1/ssh/x\<close> but not
  \<open>/v1/sshx\<close>.\<close>

lemma audience_covers_segments:
  "audience_covers_resource ul aud base_url path \<longleftrightarrow>
     (\<exists>a b ori rel.
        ul_parse ul aud = Some a \<and> ul_parse ul base_url = Some b
        \<and> ul_query ul a = None \<and> ul_fragment ul a = None
        \<and> ul_origin ul a = Some ori \<and> ul_origin ul b = Some ori
        \<and> segments (trim_trailing_slash (ul_path ul a)) = segments (trim_trailing_slash (ul_path ul b)) @ rel
        \<and> (rel = [] \<or> (\<exists>more. segments (trim_trailing_slash (if path = [] then ''/'' else path)) = [] # rel @ more)))"
proof -
  define req where "req = trim_trailing_slash (if path = [] then ''/'' else path)"
  have core: "(if p = q then True
        else case strip_prefix q p of
          None \<Rightarrow> False
        | Some rel \<Rightarrow> if \<not> starts_with ''/'' rel then False
            else req = rel \<or> (case strip_prefix rel req of None \<Rightarrow> False | Some rest \<Rightarrow> starts_with ''/'' rest))
      \<longleftrightarrow> (\<exists>rel. segments p = segments q @ rel \<and> (rel = [] \<or> (\<exists>more. segments req = [] # rel @ more)))" (is "?l \<longleftrightarrow> ?r") for p q
  proof (cases "\<exists>t. p = q @ CHR ''/'' # t")
    case True
    then obtain t where t: "p = q @ CHR ''/'' # t" by blast
    have "?l \<longleftrightarrow> req = CHR ''/'' # t \<or> (\<exists>s. req = (CHR ''/'' # t) @ CHR ''/'' # s)"
      using strip_prefix_Some_iff [of q p "CHR ''/'' # t"] t
      by (auto simp: starts_with_slash strip_prefix_Some_iff split: option.splits) (simp_all add: strip_prefix_def)
    also have "\<dots> \<longleftrightarrow> (\<exists>more. segments req = [] # segments t @ more)"
      using segments_prefix [where p = "CHR ''/'' # t" and q = req] by simp
    also have "\<dots> \<longleftrightarrow> ?r"
      by (auto simp: t split_on_append)
    finally show ?thesis .
  next
    case False
    then have "\<not> (\<exists>rel. segments p = segments q @ rel \<and> rel \<noteq> [])"
      using segments_prefix_iff by blast
    then have "?r \<longleftrightarrow> p = q"
      using split_inject by (metis append_Nil2)
    moreover have "?l \<longleftrightarrow> p = q"
      using False by (auto simp: starts_with_slash strip_prefix_Some_iff split: option.splits)
    ultimately show ?thesis by simp
  qed
  show ?thesis
    unfolding audience_covers_resource_def audience_names_deployment_def Let_def core req_def [symmetric]
    by (auto split: option.splits)
qed

lemma names_deployment_of_covers: "audience_covers_resource ul aud base_url path \<Longrightarrow> audience_names_deployment ul aud base_url"
  by (auto simp: audience_covers_resource_def split: option.splits if_splits)

text \<open>C7: Exchanging a narrowed token does not widen it, as long as the token is not addressed to the
  exchanging client itself: any resource of this deployment that accepts the exchanged token would
  have accepted the subject token too, whatever audience the client asked for.\<close>

lemma exchange_keeps_narrowing:
  assumes "is_narrowed c" and "at_aud c \<noteq> client_id"
    and "exchanged_audience ul c requested client_id base_url = Inr aud"
    and "at_client_id c' = client_id" and "at_aud c' = (case aud of Some a \<Rightarrow> a | None \<Rightarrow> client_id)"
    and "audience_covers ul c' base_url path"
  shows "audience_covers ul c base_url path"
proof -
  have "aud = Some (at_aud c) \<or> (\<exists>a. aud = Some a \<and> a \<noteq> client_id \<and> \<not> audience_names_deployment ul a base_url)"
    using assms(1, 3) by (auto simp: exchanged_audience_def split: option.splits if_splits)
  then show ?thesis
  proof (elim disjE exE conjE)
    assume "aud = Some (at_aud c)"
    then show ?thesis
      using assms(2, 4-6) by (simp add: audience_covers_def is_narrowed_def)
  next
    fix a
    assume "aud = Some a" "a \<noteq> client_id" "\<not> audience_names_deployment ul a base_url"
    then show ?thesis
      using assms(4-6) names_deployment_of_covers [of ul a base_url path] by (auto simp: audience_covers_def is_narrowed_def)
  qed
qed


lemma parse_detail_Inr:
  "parse_detail dt i item = Inr d \<Longrightarrow>
     d = item \<and> (\<exists>ms. item = JObject ms \<and> map_of ms ''type'' = Some (JString POSTURE_TYPE) \<and> posture_object_ok ms)
     \<and> validate_depth item MAX_DETAILS_DEPTH \<and> validate_no_control_chars item"
  by (auto simp: parse_detail_def bad_details_def Let_def split: jvalue.splits option.splits if_splits elim!: jstr.elims)

lemma parse_details_from_Inr:
  "parse_details_from dt i items = Inr ds \<Longrightarrow> ds = items \<and> (\<forall>d \<in> set items. \<exists>j. parse_detail dt j d = Inr d)"
proof (induction items arbitrary: i ds)
  case (Cons item items)
  then obtain d ds' where d: "parse_detail dt i item = Inr d" "parse_details_from dt (Suc i) items = Inr ds'" "ds = d # ds'"
    by (auto simp: sum_bind_Inr_iff)
  then show ?case
    using Cons.IH [OF d(2)] parse_detail_Inr [OF d(1)] by auto
qed simp


lemma sender_constraint_binds:
  assumes "sender_constraint_validate c sc = Inr u"
  shows "is_fapi c \<or> cl_dpop_bound_access_tokens c \<or> cl_tls_bound_access_tokens c
           \<Longrightarrow> binding_cnf (binding_new (sc_dpop sc) (sc_cert sc)) \<noteq> None"
    and "cl_dpop_bound_access_tokens c \<Longrightarrow> \<exists>p. sc_dpop sc = Some p \<and> binding_new (sc_dpop sc) (sc_cert sc) = DpopBinding p"
  using assms
  by (auto simp: sender_constraint_validate_def validate_fapi_token_request_def binding_new_def binding_cnf_def
      split: if_splits option.splits)

section \<open>Examples\<close>

definition demo_token :: "string \<Rightarrow> string \<Rightarrow> access_token_claims" where
  "demo_token aud client_id =
     \<lparr>at_iss = ''https://v.io'', at_sub = ''u'', at_aud = aud, at_exp = 10 ^ 12, at_iat = 0, at_nbf = Some 0, at_jti = ''t'',
      at_client_id = client_id, at_scope = None, at_email = None, at_email_verified = None, at_hardware_verified = False,
      at_cnf = None, at_auth_time = None, at_act = None, at_amr = None, at_acr = None\<rparr>"

lemmas demo_grant_simps = demo_url_simps demo_token_def is_narrowed_def exchanged_audience_def audience_covers_def
  audience_covers_resource_def audience_names_deployment_def strip_prefix_def trim_trailing_slash_def strip_suffix_def
  starts_with_def Let_def

lemma exchange_keeps_narrowing_witness:
  "audience_covers demo_url (demo_token ''https://v.io/v1/ssh'' ''app'') ''https://v.io'' ''/v1/ssh/cert''
   \<and> \<not> audience_covers demo_url (demo_token ''https://v.io/v1/ssh'' ''app'') ''https://v.io'' ''/v1/aws''"
proof
  show "audience_covers demo_url (demo_token ''https://v.io/v1/ssh'' ''app'') ''https://v.io'' ''/v1/ssh/cert''"
    by (rule exchange_keeps_narrowing [where c' = "demo_token ''https://v.io/v1/ssh'' ''other''" and client_id = "''other''"
          and requested = None and aud = "Some ''https://v.io/v1/ssh''"]) (simp_all add: demo_grant_simps)
qed (simp add: demo_grant_simps)


definition demo_details :: details_lib where
  "demo_details =
     \<lparr>dt_parse = (\<lambda>_. Inr (JArray [JObject [(''type'', JString ''device_posture''), (''posture_version'', JInt 1),
        (''os'', JString ''linux''), (''edr'', JArray [JString ''trellix''])]])), dt_posture_error = (\<lambda>_. [])\<rparr>"


end
