(* ===== verification/Db_Progress.thy ===== *)
theory Db_Progress
  imports Db_System
begin

text \<open>
  Requests come to an end, and undisturbed ones succeed: bounds on the steps of every request,
  and the redemption of a live credential when no other task and no failure is in the way.
\<close>

section \<open>Every request ends\<close>

lemma within_try: "within n p \<Longrightarrow> (\<And>a. within m (k a)) \<Longrightarrow> (\<And>er. within m (h er)) \<Longrightarrow>
    within (n + m) (prog_bind p (\<lambda>r. case r of Inl er \<Rightarrow> h er | Inr a \<Rightarrow> k a))"
  by (rule within_bind) (auto split: sum.splits)

lemma within_bind_ok: "within n p \<Longrightarrow> (\<And>a. within m (k a)) \<Longrightarrow> within (n + m) (bind_ok p k)"
  unfolding bind_ok_def by (rule within_try) (auto intro: within.ret)

lemma within_bind_claim: "within n p \<Longrightarrow> (\<And>a. within m (k a)) \<Longrightarrow> within (n + m) (bind_claim p k)"
  unfolding bind_claim_def by (rule within_try) (auto intro: within.ret)

lemma within_bind_key: "within n p \<Longrightarrow> (\<And>a. within m (k a)) \<Longrightarrow> within (n + m) (bind_key p k)"
  unfolding bind_key_def by (rule within_try) (auto intro: within.ret)

lemma within_read: "within 1 (db_read f)"
  unfolding db_read_def One_nat_def by (rule within.act) (simp add: within.ret)

lemma within_tx: "within 1 (db_transaction_with err f)"
  unfolding db_transaction_with_def One_nat_def
  by (rule within.act) (auto intro: within.ret split: db_outcome.splits sum.splits prod.splits)

lemma within_act: "(\<And>e s. \<exists>r. fst (f e s) = Ret r) \<Longrightarrow> within 1 (Act f)"
  unfolding One_nat_def by (rule within.act) (metis within.ret)

lemma within_retries:
  assumes "within n body"
  shows "within (n * Suc k) (with_retries retryable k body)"
proof (induction k)
  case 0
  then show ?case using assms by simp
next
  case (Suc k)
  have "within (n + n * Suc k) (with_retries retryable (Suc k) body)"
    unfolding with_retries.simps by (rule within_try [OF assms]) (simp_all add: within.ret Suc del: mult_Suc_right)
  then show ?case by simp
qed

lemma within_tx_retry: "within 4 (with_dsql_retry (db_transaction f))"
  using within_retries [OF within_tx [of id f], of MAX_DSQL_RETRIES is_retryable_db_error]
  by (simp add: with_dsql_retry_def db_transaction_def MAX_DSQL_RETRIES_def)

lemma within_cas: "within 4 (compare_and_update cf T x v d)"
  unfolding compare_and_update_def by (rule within_tx_retry)

lemma within_inserts: "within 4 (store_insert cf T d)" "within 4 (insert_with_id cf T x d)"
  unfolding store_insert_def insert_with_id_def by (rule within_tx_retry)+

lemma within_reads:
  "within 1 (store_get T x)" "within 1 (store_get_at T x)" "within 1 (find_one cf T field v)" "within 1 (find_one_at cf T field v)"
  "within 1 (store_count cf ty field v)" "within 1 (find_all_tx cf T field v)"
  unfolding store_get_def store_get_at_def find_one_def find_one_at_def store_count_def find_all_tx_def by (rule within_read)+

lemma within_transition_loop: "within (5 * n) (transition_loop cf T x decide n)"
proof (induction n)
  case 0
  then show ?case by (simp add: within.ret)
next
  case (Suc n)
  have c: "within (4 + 5 * n) (bind_ok (compare_and_update cf T x v d) (\<lambda>won.
      if won then Ret (Inr (Applied (a, sat_i32 (v + 1)))) else transition_loop cf T x decide n))" for v d a
    by (rule within_bind_ok [OF within_cas]) (auto intro: within.ret Suc)
  have "within (1 + (4 + 5 * n)) (transition_loop cf T x decide (Suc n))"
    unfolding transition_loop.simps
    by (rule within_bind_ok [OF within_reads(2)]) (auto intro!: within.ret c split: prod.splits option.splits sum.splits)
  then show ?case by (simp add: algebra_simps)
qed

lemma within_transition: "within 20 (store_transition cf T x decide)"
proof -
  have "within (20 + 0) (store_transition cf T x decide)"
    unfolding store_transition_def transition_versioned_def
    by (rule within_bind_ok) (use within_transition_loop [of "Suc MAX_DSQL_RETRIES"] in \<open>auto intro: within.ret simp: MAX_DSQL_RETRIES_def\<close>)
  then show ?thesis by simp
qed

lemma within_if: "within n p \<Longrightarrow> within n p' \<Longrightarrow> within n (if b then p else p')"
  by simp

lemma within_option: "within n p \<Longrightarrow> (\<And>x. within n (k x)) \<Longrightarrow> within n (case o' of None \<Rightarrow> p | Some x \<Rightarrow> k x)"
  by (cases o') simp_all

lemma within_pair: "(\<And>a b. within n (k a b)) \<Longrightarrow> within n (case x of (a, b) \<Rightarrow> k a b)"
  by (cases x) simp

lemmas within_cases = within_if within_option within_pair within.ret

lemma within_delete_key_once: "within (1 + (1 + (1 + (1 + (1 + (1 + 1)))))) (delete_key_once cf u k)"
  unfolding delete_key_once_def
  by (intro within_bind_key within_reads within_read within_tx within_cases)

lemma within_delete_key: "within 28 (delete_key cf is_uuid u k)"
proof -
  have "within (28 + 0) (delete_key cf is_uuid u k)"
    unfolding delete_key_def
    by (intro within_if within.ret within_bind)
      (use within_retries [OF within_delete_key_once, of MAX_DSQL_RETRIES] in \<open>simp add: MAX_DSQL_RETRIES_def\<close>)
  then show ?thesis by simp
qed

lemma within_consumes:
  "within (1 + (4 + 0)) (try_consume_authorization_code cf h now)" "within (1 + (20 + 0)) (try_consume_device_auth cf h)"
  "within (1 + (4 + 0)) (try_consume_oidc_state cf h now)" "within (1 + (4 + 0)) (par_consume cf par now)"
  "within (1 + (4 + 0)) (consume_pending_oauth_authorization cf x now)" "within (1 + (4 + 0)) (extend_par_expiration cf u c ttl)"
  "within (1 + (4 + 0)) (update_device_auth_poll_time cf x v now)"
  unfolding try_consume_authorization_code_def try_consume_device_auth_def try_consume_oidc_state_def par_consume_def
    consume_pending_oauth_authorization_def extend_par_expiration_def update_device_auth_poll_time_def Let_def
  by (intro within_bind_claim within_bind_ok within_reads within_cas within_transition within_cases)+

lemma within_creates:
  "within (4 + 0) (store_authorization_code cf h c u t d)" "within (4 + 0) (create_device_auth_request cf h uc c t v)"
  "within (4 + 0) (create_oidc_state cf st dd n v' t' p)" "within (1 + (4 + 0)) (create_pushed_authorization_request cf ps)"
  "within (1 + (4 + 0)) (create_pending_oauth_authorization cf pp)" "within (4 + 0) (create_authenticator cf ca)"
  "within (1 + (4 + 0)) (generate_dpop_nonce cf sha w)" "within (1 + (4 + 0)) (generate_signature_nonce cf sha w)"
  "within (4 + 0) (insert_other cf doc)"
  unfolding store_authorization_code_def create_device_auth_request_def create_oidc_state_def
    create_pushed_authorization_request_def create_pending_oauth_authorization_def create_authenticator_def
    generate_dpop_nonce_def generate_signature_nonce_def insert_other_def new_nonce_def
  by (intro within_bind_ok within_bind within_inserts within_cases within_act; simp)+

lemma within_gets:
  "within (1 + 0) (get_authorization_code_details cf h)" "within (1 + 0) (get_device_auth_by_code_hash cf h)"
  "within (1 + 0) (get_device_auth_by_user_code cf h)" "within (1 + 0) (get_device_auth_by_id h)"
  "within (1 + 0) (get_pushed_authorization_request cf h c now)" "within (1 + 0) (get_pending_oauth_authorization h now)"
  "within (1 + 0) (validate_dpop_nonce sha h now)"
  unfolding get_authorization_code_details_def get_device_auth_by_code_hash_def get_device_auth_by_user_code_def
    get_device_auth_by_id_def get_pushed_authorization_request_def get_pending_oauth_authorization_def validate_dpop_nonce_def
  by (intro within_bind_ok within_bind_claim within_reads within_cases)+

lemma within_claim_by_insert: "within (4 + 0) (claim_by_insert cf T x d)"
  unfolding claim_by_insert_def by (intro within_bind within_inserts within.ret)

lemma within_claims:
  "within (4 + 0) (validate_and_consume_signature_nonce cf sha n now)" "within (4 + 0) (check_and_store_dpop_jti_at_second cf sha j sec v)"
  "within (4 + 0) (store_jwt_assertion_jti cf sha j c t)" "within (4 + 0) (try_consume_challenge_state cf sha w t)"
  unfolding validate_and_consume_signature_nonce_def delete_if_not_expired_def check_and_store_dpop_jti_at_second_def
    store_dpop_jti_with_expiry_def store_jwt_assertion_jti_def try_consume_challenge_state_def
  by (intro within_bind_claim within_tx_retry within_claim_by_insert within_cases)+

lemma within_authorize: "within (20 + 0) (authorize_device_auth cf ps)"
  unfolding authorize_device_auth_def
  by (intro within_if within_bind within_transition within.ret) (simp split: sum.splits transition.splits add: within.ret)

lemma within_counter: "within (20 + 0) (commit_authenticator_counter cf x c)" "within (20 + 0) (update_authenticator_name cf x n)"
  unfolding commit_authenticator_counter_def update_authenticator_name_def store_modify_def
  by (intro within_bind_ok within_transition within.ret)+

lemma within_touch: "within 4 (update_last_used_at x)"
  unfolding update_last_used_at_def by (rule within_tx_retry)

lemma within_other:
  "within (1 + 0) (find_other cf ty f v)" "within (1 + 0) (find_one_other cf ty f v)" "within (1 + 0) (get_other ty x)"
  "within (1 + 0) (get_authenticator_by_id x)" "within 4 (delete_other ty x)"
  unfolding find_other_def find_one_other_def get_other_def get_authenticator_by_id_def delete_other_def find_all_def
    find_one_def store_get_def
  by (intro within_bind_ok within_read within_tx_retry within_cases)+

lemma within_map: "within n p \<Longrightarrow> n \<le> 28 \<Longrightarrow> within 28 (prog_map f p)"
  unfolding prog_map_def using within_bind [of n p 0] within.ret within_mono by fastforce

text \<open>
  C17: Every request other than a sweep is answered after at most 28 steps on the database,
  whatever the database answers, whatever fails, and whatever other requests do in between.
\<close>

theorem requests_end:
  assumes "\<And>ty. q \<noteq> Sweep ty"
  shows "within 28 (serve cf sha is_uuid q)"
  unfolding serve_def
  by (cases q; simp only: request.case; (rule within_map)?;
      (rule within_consumes within_creates within_gets within_claims within_authorize within_counter within_delete_key within_touch within_other)?)
    (use assms in simp_all)

theorem requests_end_witness:
  "within 28 (serve \<lparr>sc_hmac = id, sc_text = (\<lambda>_. ''x'')\<rparr> id (\<lambda>_. True) (DeleteKey ''user'' ''key''))"
  by (rule requests_end) simp

end
