(* ===== verification/Spec2Isabelle.thy ===== *)
theory Spec2Isabelle
  imports Agent_Server Agent_Expiry Httpsig_Auth Httpsig_Policy Oidc_Grant Db_Progress
begin

text \<open>
  A verification development of vouch, a system that turns a hardware-backed login into
  short-lived credentials. A server issues sessions and credentials and is an OAuth/OIDC
  provider; an agent on the user's machine holds the session and serves it to a command line
  client over a socket and to ssh as an SSH agent; the client signs its requests to the server
  with HTTP message signatures. The theories follow these parts.

  \<^item> \<open>Vouch_Prelude\<close>: strings, words, results and the list lemmas that the others share.

  \<^bold>\<open>Agent\<close> (\<open>src/crates/vouch-agent\<close>, with the URL and certificate rules of
  \<open>src/crates/vouch-common\<close>).
  \<^item> \<open>Common_Url\<close>: URL security and the identity a certificate names (\<open>url.rs\<close>, \<open>ssh_cert.rs\<close>).
  \<^item> \<open>Agent_State\<close>: the state behind the lock of \<open>state.rs\<close>, one definition per method; runs
    of operations; provenance of cached and SSH credentials, the bounds of the cache.
  \<^item> \<open>Agent_Wire\<close>: framing, timeouts and the connection loop (\<open>wire.rs\<close>, \<open>socket.rs\<close>); round
    trip of framing, order of service, the request a shutdown drops.
  \<^item> \<open>Agent_Ssh\<close>: the SSH agent protocol, loading and provisioning of credentials
    (\<open>ssh_agent/*\<close>), as handlers and as tasks whose steps interleave with others.
  \<^item> \<open>Agent_Server\<close>: JSON-RPC dispatch, handlers and the listener (\<open>server.rs\<close>, \<open>protocol.rs\<close>,
    \<open>audit.rs\<close>); refinement to the operations of the state, URL security, what the token
    can influence.
  \<^item> \<open>Agent_Expiry\<close>: the expiry monitor (\<open>expiry_monitor.rs\<close>).

  \<^bold>\<open>HTTP message signatures\<close> (\<open>src/crates/vouch-httpsig\<close>).
  \<^item> \<open>Sfv\<close>, \<open>Sfv_Roundtrip\<close>: structured field values, parser and serializer, and their round trips.
  \<^item> \<open>Httpsig_Component\<close>, \<open>Httpsig_Identifier\<close>: component identifiers, their canonical form and
    their resolution from messages (\<open>component.rs\<close>).
  \<^item> \<open>Httpsig_Base\<close>: parameters and the signature base, injective in what it covers.
  \<^item> \<open>Httpsig_Digest\<close>, \<open>Httpsig_Verify\<close>, \<open>Httpsig_Auth\<close>, \<open>Httpsig_Policy\<close>: digest, signing,
    verification, what a verified request authenticates, and which paths need a signature.

  \<^bold>\<open>Store and single-use credentials\<close> (\<open>src/crates/vouch-server/src/db\<close>).
  \<^item> \<open>Interleaving\<close>: programs whose atomic steps on a shared state interleave, and the locale
    \<open>interference\<close>, which derives the properties of all interleavings from a contract per program.
  \<^item> \<open>Db_Documents\<close>: the stored document types (\<open>documents/*.rs\<close>).
  \<^item> \<open>Db_Store\<close>: the two tables, their statements, and every operation of \<open>store.rs\<close> with the
    retries of \<open>pool.rs\<close>; a failure may also follow a commit.
  \<^item> \<open>Db_Claims\<close>: issuing and redeeming credentials, claims by insert, signature counters and the
    deletion of keys, as programs over the store.
  \<^item> \<open>Db_System\<close>: these operations as the requests of one concurrent system, with a record of
    what was issued, retired and rewritten.
  \<^item> \<open>Db_Invariant\<close>, \<open>Db_Steps\<close>, \<open>Db_Single_Use\<close>: the invariant, the effect of every statement, the
    rules for programs, and the contract of every operation.
  \<^item> \<open>Db_Guarantees\<close>: the interpretation of \<open>interference\<close> and the guarantees: single use, claims
    until expiry, provenance of approvals, counters, the last key, well-formed tables.
  \<^item> \<open>Db_Clock\<close>: what the stored text of an expiry says about instants.
  \<^item> \<open>Db_Progress\<close>: every request ends.

  \<^bold>\<open>Tokens and proofs\<close> (\<open>src/crates/vouch-server/src\<close>: \<open>crypto\<close>, \<open>services/oidc\<close>, \<open>http.rs\<close>, \<open>error.rs\<close>).
  \<^item> \<open>Flow\<close>: handlers that call a concurrent service: a handler is a tree of calls, inputs and
    results, its calls are requests of the service, and the locale \<open>handled\<close> derives what holds of
    all answers from the calls a handler makes on the way to an answer.
  \<^item> \<open>Jose\<close>: keys, thumbprints, the compact form of a token, validity windows and the server's own
    tokens (\<open>crypto/alg.rs\<close>, \<open>jwk.rs\<close>, \<open>jwt.rs\<close>, \<open>validity.rs\<close>).
  \<^item> \<open>Oidc_Error\<close>: errors, their responses and the challenges (\<open>error.rs\<close>, \<open>http.rs\<close>).
  \<^item> \<open>Oidc_Dpop\<close>: proofs of possession (\<open>services/oidc/dpop.rs\<close>) as flows over the store, and the
    confirmation claims; a proof is accepted once, and what an accepted proof shows.
  \<^item> \<open>Oidc_Client\<close>: registered clients, their keys, URIs and grants, and the FAPI 2.0 rules
    (\<open>db/documents/oauth.rs\<close>, \<open>db/oauth.rs\<close>, \<open>grant_type.rs\<close>, \<open>validated_client.rs\<close>, \<open>fapi.rs\<close>); which
    redirects a client can be answered at, and the round trip of its stored keys.
  \<^item> \<open>Oidc_Grant\<close>: scopes, audiences, assurance, claims and bindings of access tokens, and
    authorization details (\<open>scope.rs\<close>, \<open>resource.rs\<close>, \<open>assurance.rs\<close>, \<open>services/auth.rs\<close>,
    \<open>authorization_details.rs\<close>, \<open>vouch-common/src/posture.rs\<close>); coverage of paths by audiences, what
    token exchange keeps of a narrowed audience and where it does not, what details are accepted.

  \<^bold>\<open>Parameters.\<close> Code outside the repository enters as arguments: cryptographic primitives,
  URL, header, base64, JSON and time libraries, the keyed hash of index values, the text form
  of a timestamp, the hash that derives ids. What a theorem needs of them is a hypothesis of
  the theorem or part of \<open>db_env_ok\<close>, with a witness that instantiates it.

  \<^bold>\<open>Bounds.\<close> Machine integers are words or integers with the clamping written out
  (\<open>sat_i32\<close>, the saturating clock arithmetic of \<open>validate_timestamps\<close>). No loop uses fuel for
  termination: parsers recurse on their input, \<open>chunks\<close> has a measure, programs are finite
  trees; the attempts of \<open>with_retries\<close> and \<open>transition_loop\<close> are the source's own bounds.

  \<^bold>\<open>Not modelled.\<close> Sealing and serialization of documents, SQL text, connection pools and
  sockets (the model starts at statements, messages and requests); cryptographic primitives;
  the command line client, localization, the HTTP handlers and pages of the server (among them
  the authorization and token endpoints), sessions and their cache, SAML,
  SCIM, GitHub and AWS integrations, configuration and start-up. These are input and output
  around the parts above or need libraries whose behaviour is not part of the repository.
\<close>

end
